(* ===== verification/Vg_Prelude.thy ===== *)
theory Vg_Prelude
  imports Main "HOL-Library.Word"
begin

text \<open>
  Shared ground of the development: the names of the machine types, the result type that
  keeps Rust's errors and panics apart, array access as Rust does it, little-endian
  encoding of words, and the collections of facts the component proofs are run with.

  Conventions. A \<open>u32\<close>, \<open>i32\<close> or 32-bit \<open>usize\<close> is a \<^typ>\<open>32 word\<close>; signed readings go
  through \<^const>\<open>sint\<close>. Arithmetic that the source leaves unannotated wraps, as it does in
  the release profile the project ships (\<open>overflow-checks\<close> is off there). Debug output
  (\<open>println!\<close>) is not part of any model.
\<close>

unbundle bit_operations_syntax

type_synonym u8 = "8 word"
type_synonym u16 = "16 word"
type_synonym u32 = "32 word"
type_synonym u64 = "64 word"
type_synonym i32 = "32 word"
type_synonym sce_uid = "32 word"

named_theorems array_simps \<open>access to and update of fixed-size arrays\<close>
named_theorems res_simps \<open>sequencing of fallible computations\<close>

section \<open>Results: a value, an error, or a panic\<close>

datatype 'e fault = Error 'e | Panicked

type_synonym ('e, 'a) res = "'e fault + 'a"

abbreviation Ok :: "'a \<Rightarrow> ('e, 'a) res" where
  "Ok x \<equiv> Inr x"

abbreviation Err :: "'e \<Rightarrow> ('e, 'a) res" where
  "Err e \<equiv> Inl (Error e)"

abbreviation panic :: "('e, 'a) res" where
  "panic \<equiv> Inl Panicked"

definition and_then :: "('e, 'a) res \<Rightarrow> ('a \<Rightarrow> ('e, 'b) res) \<Rightarrow> ('e, 'b) res" where
  "and_then m f = (case m of Inl e \<Rightarrow> Inl e | Inr x \<Rightarrow> f x)"

definition ok_or :: "'e \<Rightarrow> 'a option \<Rightarrow> ('e, 'a) res" where
  "ok_or e m = (case m of None \<Rightarrow> Err e | Some x \<Rightarrow> Ok x)"

lemma and_then_simps [simp, res_simps]:
  "and_then (Inl e) f = Inl e"
  "and_then (Inr x) f = f x"
  by (simp_all add: and_then_def)

lemma ok_or_simps [simp, res_simps]:
  "ok_or e None = Err e"
  "ok_or e (Some x) = Ok x"
  by (simp_all add: ok_or_def)

lemma and_then_Ok_iff:
  "and_then m f = Inr y \<longleftrightarrow> (\<exists>x. m = Inr x \<and> f x = Inr y)"
  by (cases m) auto

lemma and_then_Inl_iff:
  "and_then m f = Inl e \<longleftrightarrow> m = Inl e \<or> (\<exists>x. m = Inr x \<and> f x = Inl e)"
  by (cases m) auto

lemma ok_or_Ok_iff: "ok_or e m = Inr x \<longleftrightarrow> m = Some x"
  by (cases m) auto

section \<open>Fixed-size arrays\<close>

text \<open>Indexing panics out of range.\<close>

definition index :: "'a list \<Rightarrow> nat \<Rightarrow> ('e, 'a) res" where
  "index xs i = (if i < length xs then Ok (xs ! i) else panic)"

lemma index_in [simp, array_simps]: "i < length xs \<Longrightarrow> index xs i = Ok (xs ! i)"
  by (simp add: index_def)

text \<open>
  A foreign call that fills a buffer of fixed length: whatever it produced replaces a
  prefix of the buffer, whose length never changes.
\<close>

definition fill_prefix :: "'a list \<Rightarrow> 'a list \<Rightarrow> 'a list" where
  "fill_prefix buf new = take (length buf) new @ drop (length new) buf"

lemma length_fill_prefix [simp, array_simps]: "length (fill_prefix buf new) = length buf"
  by (simp add: fill_prefix_def)

lemma fill_prefix_exact [simp, array_simps]:
  "length new = length buf \<Longrightarrow> fill_prefix buf new = new"
  by (simp add: fill_prefix_def)

text \<open>The first index whose element satisfies a test (\<open>Iterator::position\<close>).\<close>

fun position :: "('a \<Rightarrow> bool) \<Rightarrow> 'a list \<Rightarrow> nat option" where
  "position p [] = None"
| "position p (x # xs) = (if p x then Some 0 else map_option Suc (position p xs))"

lemma position_None_iff: "position p xs = None \<longleftrightarrow> (\<forall>x \<in> set xs. \<not> p x)"
  by (induction xs) auto

lemma position_SomeD:
  "position p xs = Some i \<Longrightarrow> i < length xs \<and> p (xs ! i) \<and> (\<forall>j < i. \<not> p (xs ! j))"
proof (induction xs arbitrary: i)
  case Nil
  then show ?case by simp
next
  case (Cons x xs)
  show ?case
  proof (cases "p x")
    case True
    with Cons.prems show ?thesis by simp
  next
    case False
    with Cons.prems obtain k where k: "position p xs = Some k" "i = Suc k" by auto
    with Cons.IH [OF k(1)] False show ?thesis by (auto simp: nth_Cons split: nat.splits)
  qed
qed

lemma position_Some_ex: "x \<in> set xs \<Longrightarrow> p x \<Longrightarrow> \<exists>i. position p xs = Some i"
  by (meson not_None_eq position_None_iff)

lemma position_eqI:
  "i < length xs \<Longrightarrow> p (xs ! i) \<Longrightarrow> (\<And>j. j < i \<Longrightarrow> \<not> p (xs ! j)) \<Longrightarrow> position p xs = Some i"
proof (induction xs arbitrary: i)
  case (Cons x xs)
  show ?case
  proof (cases i)
    case 0
    with Cons.prems show ?thesis by simp
  next
    case (Suc k)
    have "\<not> p x" using Cons.prems(3) [of 0] Suc by simp
    moreover have "position p xs = Some k"
      using Cons.prems Suc Cons.prems(3) [of "Suc _"] by (intro Cons.IH) auto
    ultimately show ?thesis using Suc by simp
  qed
qed simp

section \<open>Little-endian words\<close>

text \<open>\<open>to_le_bytes\<close> and \<open>from_le_bytes\<close> of every width.\<close>

definition to_le :: "nat \<Rightarrow> 'a::len word \<Rightarrow> u8 list" where
  "to_le n w = map (\<lambda>i. ucast (drop_bit (8 * i) w)) [0..<n]"

fun from_le :: "u8 list \<Rightarrow> 'a::len word" where
  "from_le [] = 0"
| "from_le (b # bs) = ucast b OR push_bit 8 (from_le bs)"

lemma length_to_le [simp]: "length (to_le n w) = n"
  by (simp add: to_le_def)

lemma bit_from_le:
  "bit (from_le bs :: 'a::len word) n \<longleftrightarrow>
     n < LENGTH('a) \<and> n div 8 < length bs \<and> bit (bs ! (n div 8)) (n mod 8)"
proof (induction bs arbitrary: n)
  case Nil
  then show ?case by simp
next
  case (Cons b bs)
  show ?case
  proof (cases "n < 8")
    case True
    then show ?thesis by (auto simp: bit_simps)
  next
    case False
    then obtain m where "n = m + 8" by (metis add.commute le_add_diff_inverse not_less)
    moreover from this have "n div 8 = Suc (m div 8)" "n mod 8 = m mod 8" by simp_all
    ultimately show ?thesis
      using Cons.IH [of m] by (auto simp: bit_simps dest: bit_imp_le_length)
  qed
qed

lemma from_le_to_le:
  assumes "LENGTH('a) = 8 * n"
  shows "from_le (to_le n w) = (w :: 'a::len word)"
proof (rule bit_word_eqI)
  fix k assume k: "k < LENGTH('a)"
  then have "k div 8 < n" using assms by (simp add: less_mult_imp_div_less mult.commute)
  then show "bit (from_le (to_le n w) :: 'a word) k = bit w k"
    using k by (simp add: bit_from_le to_le_def bit_simps)
qed

lemma to_le_from_le:
  assumes "length bs = n" "LENGTH('a) = 8 * n"
  shows "to_le n (from_le bs :: 'a::len word) = bs"
proof (rule nth_equalityI)
  show "length (to_le n (from_le bs :: 'a word)) = length bs" using assms by simp
next
  fix i assume "i < length (to_le n (from_le bs :: 'a word))"
  then have i: "i < n" by simp
  show "to_le n (from_le bs :: 'a word) ! i = bs ! i"
  proof (rule bit_word_eqI)
    fix k assume "k < LENGTH(8)"
    then have k: "k < 8" by simp
    then have "8 * i + k < 8 * n" using i by linarith
    then show "bit (to_le n (from_le bs :: 'a word) ! i) k = bit (bs ! i) k"
      using assms i k by (simp add: to_le_def bit_simps bit_from_le)
  qed
qed

lemma le_u32 [simp]: "from_le (to_le 4 w) = (w :: u32)"
  by (rule from_le_to_le) simp

lemma le_u64 [simp]: "from_le (to_le 8 w) = (w :: u64)"
  by (rule from_le_to_le) simp

lemma u32_le [simp]: "length bs = 4 \<Longrightarrow> to_le 4 (from_le bs :: u32) = bs"
  by (rule to_le_from_le) simp_all

lemma u64_le [simp]: "length bs = 8 \<Longrightarrow> to_le 8 (from_le bs :: u64) = bs"
  by (rule to_le_from_le) simp_all


section \<open>Lists cut into pieces\<close>

lemma concat_chunks: "concat (map (\<lambda>i. take k (drop (i * k) xs)) [0..<n]) = take (n * k) xs"
  by (induction n) (simp_all add: take_add [symmetric] add.commute)

end
