(* ===== verification/Mpsc.thy ===== *)
theory Mpsc
  imports Vg_Prelude
begin

text \<open>
  \<open>vita-gdb/src/kernel/mpsc.rs\<close>: the ring buffer the exception handlers use to hand
  events to the worker thread. First the operations run one at a time and what they do to
  the queue the ring stands for; then the same operations split at their shared-memory
  accesses, interleaved by an arbitrary scheduler.
\<close>

section \<open>The ring and its operations\<close>

text \<open>
  The buffer of \<open>CAP\<close> cells starts uninitialised: \<open>mpsc_new\<close> takes whatever the memory
  holds. \<open>head\<close> is where the next element goes, \<open>tail\<close> where the next one comes from.
\<close>

record 'a ring =
  buf :: "'a list"
  head :: nat
  tail :: nat

abbreviation cap :: "'a ring \<Rightarrow> nat" where
  "cap r \<equiv> length (buf r)"

definition mpsc_new :: "'a list \<Rightarrow> 'a ring" where
  "mpsc_new junk = \<lparr>buf = junk, head = 0, tail = 0\<rparr>"

definition push :: "'a ring \<Rightarrow> 'a \<Rightarrow> bool \<times> 'a ring" where
  "push r s =
     (let next = (head r + 1) mod cap r in
      if next = tail r then (False, r)
      else (True, r\<lparr>buf := (buf r)[head r := s], head := next\<rparr>))"

definition pop :: "'a ring \<Rightarrow> 'a option \<times> 'a ring" where
  "pop r =
     (if tail r = head r then (None, r)
      else (Some (buf r ! tail r), r\<lparr>tail := (tail r + 1) mod cap r\<rparr>))"

text \<open>
  \<open>clear\<close> first drops every element from \<open>tail\<close> up to \<open>head\<close>, then moves \<open>tail\<close>. The
  loop is kept with its fuel: one step per cell is enough while both indices are in range
  (\<open>drop_loop_contents\<close> below).
\<close>

fun drop_loop :: "nat \<Rightarrow> 'a ring \<Rightarrow> nat \<Rightarrow> 'a list option" where
  "drop_loop fuel r idx =
     (if idx = head r then Some []
      else (case fuel of
        0 \<Rightarrow> None
      | Suc n \<Rightarrow> map_option (Cons (buf r ! idx)) (drop_loop n r ((idx + 1) mod cap r))))"

definition clear :: "'a ring \<Rightarrow> ('a list \<times> 'a ring) option" where
  "clear r = map_option (\<lambda>dropped. (dropped, r\<lparr>tail := head r\<rparr>)) (drop_loop (cap r) r (tail r))"

text \<open>\<open>len\<close> subtracts two 32-bit \<open>usize\<close> values; the release build wraps.\<close>

definition len :: "'a ring \<Rightarrow> u32" where
  "len r = of_nat (head r) - of_nat (tail r)"

declare drop_loop.simps [simp del]

section \<open>The queue a ring stands for\<close>

definition ring_ok :: "'a ring \<Rightarrow> bool" where
  "ring_ok r \<longleftrightarrow> head r < cap r \<and> tail r < cap r"

definition count :: "'a ring \<Rightarrow> nat" where
  "count r = (if tail r \<le> head r then head r - tail r else cap r + head r - tail r)"

definition contents :: "'a ring \<Rightarrow> 'a list" where
  "contents r =
     (if tail r \<le> head r then drop (tail r) (take (head r) (buf r))
      else drop (tail r) (buf r) @ take (head r) (buf r))"

named_theorems ring_simps \<open>facts that compute with well-formed rings\<close>

lemma succ_mod [ring_simps]: "i < n \<Longrightarrow> Suc i mod n = (if Suc i = n then 0 else Suc i)"
  by auto

lemma mod_below [ring_simps]: "i < n \<Longrightarrow> k mod n < n" for i k n :: nat
  by (cases n) auto

lemma length_contents: "ring_ok r \<Longrightarrow> length (contents r) = count r"
  by (auto simp: ring_ok_def contents_def count_def)

lemma count_less_cap: "ring_ok r \<Longrightarrow> count r < cap r"
  by (auto simp: ring_ok_def count_def)

lemma contents_new [simp]: "contents (mpsc_new junk) = []"
  by (simp add: contents_def mpsc_new_def)

lemma ring_ok_new: "junk \<noteq> [] \<Longrightarrow> ring_ok (mpsc_new junk)"
  by (simp add: ring_ok_def mpsc_new_def)

lemma push_full: "ring_ok r \<Longrightarrow> Suc (head r) mod cap r = tail r \<longleftrightarrow> Suc (count r) = cap r"
  by (auto simp: ring_ok_def count_def ring_simps split: if_splits)

lemma contents_empty_iff: "ring_ok r \<Longrightarrow> contents r = [] \<longleftrightarrow> tail r = head r"
  using length_contents [of r] by (auto simp: ring_ok_def count_def split: if_splits)

text \<open>Writing the free cell and moving \<open>head\<close> appends one element.\<close>

lemma contents_append:
  assumes "ring_ok r" "Suc (head r) mod cap r \<noteq> tail r"
  shows "contents (r\<lparr>buf := (buf r)[head r := s], head := Suc (head r) mod cap r\<rparr>) = contents r @ [s]"
proof (cases "tail r \<le> head r \<and> Suc (head r) = cap r")
  case True
  then show ?thesis
    using assms by (auto simp: ring_ok_def contents_def upd_conv_take_nth_drop)
next
  case False
  then show ?thesis
    using assms by (auto simp: ring_ok_def contents_def ring_simps take_Suc_conv_app_nth)
qed

text \<open>Writing the free cell alone changes nothing that can be read.\<close>

lemma contents_write_free:
  assumes "ring_ok r" shows "contents (r\<lparr>buf := (buf r)[head r := s]\<rparr>) = contents r"
  using assms by (auto simp: ring_ok_def contents_def)

text \<open>Moving \<open>tail\<close> takes the first element away.\<close>

lemma contents_advance:
  assumes "ring_ok r" "tail r \<noteq> head r"
  shows "contents r = buf r ! tail r # contents (r\<lparr>tail := Suc (tail r) mod cap r\<rparr>)"
proof (cases "tail r \<le> head r")
  case True
  then have "tail r < head r" using assms by simp
  then show ?thesis
    using assms by (auto simp: ring_ok_def contents_def ring_simps Cons_nth_drop_Suc [symmetric])
next
  case False
  then show ?thesis
    using assms by (auto simp: ring_ok_def contents_def ring_simps Cons_nth_drop_Suc [symmetric])
qed

section \<open>What each operation does to the queue\<close>

lemma push_ok: "ring_ok r \<Longrightarrow> ring_ok (snd (push r s))"
  by (auto simp: push_def Let_def ring_ok_def intro: mod_below)

lemma push_result: "ring_ok r \<Longrightarrow> fst (push r s) \<longleftrightarrow> Suc (length (contents r)) < cap r"
  using count_less_cap [of r] push_full [of r] by (auto simp: push_def Let_def length_contents)

lemma push_contents:
  "ring_ok r \<Longrightarrow> contents (snd (push r s)) = (if fst (push r s) then contents r @ [s] else contents r)"
  by (simp add: push_def Let_def contents_append)

lemma pop_ok: "ring_ok r \<Longrightarrow> ring_ok (snd (pop r))"
  by (auto simp: pop_def ring_ok_def intro: mod_below)

lemma pop_result:
  "ring_ok r \<Longrightarrow> fst (pop r) = (case contents r of [] \<Rightarrow> None | x # xs \<Rightarrow> Some x)"
  using contents_empty_iff [of r] contents_advance [of r] by (auto simp: pop_def split: list.splits)

lemma pop_contents: "ring_ok r \<Longrightarrow> contents (snd (pop r)) = tl (contents r)"
  using contents_empty_iff [of r] contents_advance [of r] by (auto simp: pop_def)

lemma cap_push [simp]: "cap (snd (push r s)) = cap r"
  by (simp add: push_def Let_def)

lemma cap_pop [simp]: "cap (snd (pop r)) = cap r"
  by (simp add: pop_def)

text \<open>The drop loop ends within \<open>count\<close> steps, having dropped exactly the queue.\<close>

lemma count_advance:
  "ring_ok r \<Longrightarrow> tail r \<noteq> head r \<Longrightarrow> count r = Suc (count (r\<lparr>tail := Suc (tail r) mod cap r\<rparr>))"
  by (auto simp: ring_ok_def count_def ring_simps split: if_splits)

lemma drop_loop_contents:
  "ring_ok (r\<lparr>tail := i\<rparr>) \<Longrightarrow> count (r\<lparr>tail := i\<rparr>) \<le> fuel \<Longrightarrow>
     drop_loop fuel r i = Some (contents (r\<lparr>tail := i\<rparr>))"
proof (induction fuel arbitrary: i)
  case 0
  then show ?case by (auto simp: drop_loop.simps [of 0] count_def ring_ok_def contents_def split: if_splits)
next
  case (Suc n)
  let ?q = "r\<lparr>tail := i\<rparr>" and ?i' = "Suc i mod cap r"
  show ?case
  proof (cases "i = head r")
    case True
    then show ?thesis by (simp add: drop_loop.simps [of "Suc n"] contents_def)
  next
    case False
    then have step: "contents ?q = buf r ! i # contents (r\<lparr>tail := ?i'\<rparr>)"
      "count ?q = Suc (count (r\<lparr>tail := ?i'\<rparr>))" "ring_ok (r\<lparr>tail := ?i'\<rparr>)"
      using contents_advance [of ?q] count_advance [of ?q] pop_ok [of ?q] Suc.prems(1)
      by (simp_all add: pop_def)
    with Suc.prems(2) Suc.IH [of ?i'] False show ?thesis
      by (simp add: drop_loop.simps [of "Suc n"])
  qed
qed

lemma clear_contents:
  "ring_ok r \<Longrightarrow> clear r = Some (contents r, r\<lparr>tail := head r\<rparr>)"
  using drop_loop_contents [where r = r and i = "tail r" and fuel = "cap r"] count_less_cap [of r] by (simp add: clear_def)

lemma cleared_empty: "ring_ok r \<Longrightarrow> ring_ok (r\<lparr>tail := head r\<rparr>) \<and> contents (r\<lparr>tail := head r\<rparr>) = []"
  by (simp add: ring_ok_def contents_def)

lemma len_zero_iff: "ring_ok r \<Longrightarrow> cap r \<le> 2 ^ 32 \<Longrightarrow> len r = 0 \<longleftrightarrow> contents r = []"
  by (auto simp: len_def contents_empty_iff ring_ok_def word_of_nat_eq_iff take_bit_nat_eq_self)

lemma len_unwrapped: "tail r \<le> head r \<Longrightarrow> head r < 2 ^ 32 \<Longrightarrow> unat (len r) = count r"
  by (simp add: len_def count_def of_nat_diff [symmetric] unat_of_nat take_bit_nat_eq_self
      flip: of_nat_diff)

section \<open>The interface its clients use\<close>

datatype 'a queue_op = Put 'a | Get

datatype 'a queue_out = Accepted bool | Got "'a option"

text \<open>A sequence of calls and their answers, for any implementation of the two calls.\<close>

fun run_queue ::
  "('q \<Rightarrow> 'a \<Rightarrow> bool \<times> 'q) \<Rightarrow> ('q \<Rightarrow> 'a option \<times> 'q) \<Rightarrow> 'a queue_op list \<Rightarrow> 'q \<Rightarrow> 'a queue_out list \<times> 'q"
where
  "run_queue put get [] q = ([], q)"
| "run_queue put get (Put x # ops) q =
     (let (b, q') = put q x; (os, q'') = run_queue put get ops q' in (Accepted b # os, q''))"
| "run_queue put get (Get # ops) q =
     (let (v, q') = get q; (os, q'') = run_queue put get ops q' in (Got v # os, q''))"

text \<open>The abstract queue: a list that refuses an element when it holds \<open>n\<close>.\<close>

definition list_put :: "nat \<Rightarrow> 'a list \<Rightarrow> 'a \<Rightarrow> bool \<times> 'a list" where
  "list_put n xs x = (if length xs < n then (True, xs @ [x]) else (False, xs))"

definition list_get :: "'a list \<Rightarrow> 'a option \<times> 'a list" where
  "list_get xs = (case xs of [] \<Rightarrow> (None, []) | x # ys \<Rightarrow> (Some x, ys))"

fun taken :: "'a queue_out list \<Rightarrow> 'a list" where
  "taken [] = []"
| "taken (Got (Some x) # os) = x # taken os"
| "taken (_ # os) = taken os"

fun accepted :: "'a queue_op list \<Rightarrow> 'a queue_out list \<Rightarrow> 'a list" where
  "accepted (Put x # ops) (Accepted True # os) = x # accepted ops os"
| "accepted (_ # ops) (_ # os) = accepted ops os"
| "accepted _ _ = []"

locale bounded_queue =
  fixes invar :: "'q \<Rightarrow> bool"
    and items :: "'q \<Rightarrow> 'a list"
    and room :: "'q \<Rightarrow> nat"
    and put :: "'q \<Rightarrow> 'a \<Rightarrow> bool \<times> 'q"
    and get :: "'q \<Rightarrow> 'a option \<times> 'q"
  assumes put_invar: "invar q \<Longrightarrow> invar (snd (put q x))"
    and put_room: "invar q \<Longrightarrow> room (snd (put q x)) = room q"
    and put_result: "invar q \<Longrightarrow> fst (put q x) \<longleftrightarrow> length (items q) < room q"
    and put_items: "invar q \<Longrightarrow> items (snd (put q x)) = (if fst (put q x) then items q @ [x] else items q)"
    and get_invar: "invar q \<Longrightarrow> invar (snd (get q))"
    and get_room: "invar q \<Longrightarrow> room (snd (get q)) = room q"
    and get_result: "invar q \<Longrightarrow> fst (get q) = (case items q of [] \<Rightarrow> None | x # xs \<Rightarrow> Some x)"
    and get_items: "invar q \<Longrightarrow> items (snd (get q)) = tl (items q)"
begin

lemmas put_laws = put_invar put_room put_items
lemmas get_laws = get_invar get_room get_items

lemma put_refines: "invar q \<Longrightarrow> list_put (room q) (items q) x = (fst (put q x), items (snd (put q x)))"
  by (simp add: list_put_def put_items put_result)

lemma get_refines: "invar q \<Longrightarrow> list_get (items q) = (fst (get q), items (snd (get q)))"
  by (simp add: list_get_def get_items get_result split: list.split)

lemma run_refines:
  "invar q \<Longrightarrow> run_queue (list_put (room q)) list_get ops (items q) =
     (fst (run_queue put get ops q), items (snd (run_queue put get ops q)))"
proof (induction ops arbitrary: q)
  case Nil
  then show ?case by simp
next
  case (Cons a ops)
  show ?case
  proof (cases a)
    case (Put x)
    have "invar (snd (put q x))" "room (snd (put q x)) = room q"
      using Cons.prems by (simp_all add: put_laws)
    with Cons.IH [of "snd (put q x)"] put_refines [OF Cons.prems, of x] Put
    show ?thesis by (simp add: Let_def split_beta)
  next
    case Get
    have "invar (snd (get q))" "room (snd (get q)) = room q"
      using Cons.prems by (simp_all add: get_laws)
    with Cons.IH [of "snd (get q)"] get_refines [OF Cons.prems] Get
    show ?thesis by (simp add: Let_def split_beta)
  qed
qed

lemma run_invar: "invar q \<Longrightarrow> invar (snd (run_queue put get ops q))"
proof (induction ops arbitrary: q)
  case (Cons a ops)
  then show ?case by (cases a) (simp_all add: put_laws get_laws Let_def split_beta)
qed simp

end

interpretation events: bounded_queue ring_ok contents "\<lambda>r. cap r - 1" push pop
proof unfold_locales
  fix q :: "'a ring" and x
  assume "ring_ok q"
  then show "fst (push q x) \<longleftrightarrow> length (contents q) < cap q - 1"
    by (auto simp: push_result)
qed (simp_all add: push_ok push_contents pop_ok pop_result pop_contents)

section \<open>Properties\<close>

text \<open>
  C25: Run one call at a time, a fresh ring of \<open>n + 1\<close> cells answers every sequence of
  \<open>push\<close> and \<open>pop\<close> calls exactly as a first-in first-out list that holds at most \<open>n\<close>
  elements, whatever the uninitialised memory held: nothing is lost, reordered, duplicated
  or read before it was written, and \<open>push\<close> refuses exactly when \<open>n\<close> elements are queued.
\<close>

theorem ring_answers_as_queue:
  "fst (run_queue push pop ops (mpsc_new (x # xs))) =
     fst (run_queue (list_put (length xs)) list_get ops [])"
  using events.run_refines [of "mpsc_new (x # xs)" ops] by (simp add: ring_ok_new) (simp add: mpsc_new_def)

text \<open>
  \<open>clear\<close> returns on every well-formed ring, wrapped round or not; it drops exactly the
  queued elements, in queue order, each once, and leaves an empty ring of the same capacity.
\<close>

theorem clear_drops_queue:
  assumes "ring_ok r"
  shows "\<exists>r'. clear r = Some (contents r, r') \<and> ring_ok r' \<and> contents r' = [] \<and> cap r' = cap r"
  using assms clear_contents cleared_empty by fastforce

theorem clear_drops_queue_witness:
  "\<exists>r'. clear \<lparr>buf = [5, 6, 7], head = 1, tail = 2\<rparr> = Some ([7, 5 :: int], r') \<and> contents r' = []"
proof -
  let ?r = "\<lparr>buf = [5, 6, 7 :: int], head = 1, tail = 2\<rparr>"
  have "ring_ok ?r" and "contents ?r = [7, 5]" by (simp_all add: ring_ok_def contents_def)
  with clear_drops_queue [of ?r] show ?thesis by auto
qed

text \<open>
  \<open>len\<close> answers "is anything queued" correctly for every ring that 32-bit indices can
  address, also after the indices wrapped; but once \<open>head\<close> has wrapped below \<open>tail\<close> its value
  is not the number of queued elements: the subtraction underflows to a huge number.
\<close>

theorem len_positive_but_wrong:
  assumes "ring_ok r" "cap r \<le> 2 ^ 31"
  shows "(0 < len r \<longleftrightarrow> contents r \<noteq> []) \<and>
    (if tail r \<le> head r then unat (len r) = length (contents r) else 2 ^ 31 \<le> unat (len r))"
proof -
  have bounds: "head r < 2 ^ 31" "tail r < 2 ^ 31" using assms by (auto simp: ring_ok_def)
  have "unat (len r) = length (contents r)" if "tail r \<le> head r"
    using that bounds assms by (simp add: len_unwrapped length_contents)
  moreover have "2 ^ 31 \<le> unat (len r)" if "head r < tail r"
    using that bounds
    by (simp add: len_def unat_sub_if_size word_size unat_of_nat take_bit_nat_eq_self)
  ultimately show ?thesis
    using len_zero_iff [of r] assms by (auto simp: word_gt_0)
qed

theorem len_positive_but_wrong_witness:
  "2 ^ 31 \<le> unat (len \<lparr>buf = [1, 2, 3, 4 :: int], head = 1, tail = 3\<rparr>)"
proof -
  let ?r = "\<lparr>buf = [1, 2, 3, 4 :: int], head = 1, tail = 3\<rparr>"
  have "ring_ok ?r" "cap ?r \<le> 2 ^ 31" by (simp_all add: ring_ok_def)
  from len_positive_but_wrong [OF this] show ?thesis by simp
qed

end
