(* ===== verification/Mpsc_Conc.thy ===== *)
theory Mpsc_Conc
  imports Mpsc
begin

text \<open>
  \<open>push\<close> and \<open>pop\<close> of \<open>kernel/mpsc.rs\<close> split at their accesses to shared memory. Each rule
  below is one load or store of the source, with the branch that follows it; any number of
  threads may be inside \<open>push\<close> (the abort handlers run on whichever core faulted), one thread
  runs \<open>pop\<close> (the session's worker). The steps interleave sequentially consistently, which
  the Acquire/Release pairs on \<open>head\<close> and \<open>tail\<close> grant for one producer and one consumer.

  \<open>pushed\<close> and \<open>popped\<close> are history: the elements whose \<open>push\<close> returned \<open>true\<close> and the
  elements \<open>pop\<close> returned, in that order.
\<close>

datatype 'a push_pc =
    PIdle
  | PHead 'a nat \<comment> \<open>loaded \<open>head\<close>\<close>
  | PRoom 'a nat \<comment> \<open>saw \<open>next != tail\<close>\<close>
  | PWritten 'a nat \<comment> \<open>wrote the slot\<close>

datatype 'a pop_pc =
    CIdle
  | CTail nat \<comment> \<open>loaded \<open>tail\<close>\<close>
  | CSome nat \<comment> \<open>saw \<open>tail != head\<close>\<close>
  | CRead nat 'a \<comment> \<open>read the slot\<close>

record 'a world =
  ring :: "'a ring"
  producer :: "nat \<Rightarrow> 'a push_pc"
  consumer :: "'a pop_pc"
  pushed :: "'a list"
  popped :: "'a list"

definition start :: "'a list \<Rightarrow> 'a world" where
  "start junk = \<lparr>ring = mpsc_new junk, producer = \<lambda>_. PIdle, consumer = CIdle, pushed = [], popped = []\<rparr>"

inductive mpsc_step :: "nat set \<Rightarrow> 'a world \<Rightarrow> 'a world \<Rightarrow> bool" for P where
  push_load: "p \<in> P \<Longrightarrow> producer w p = PIdle \<Longrightarrow>
    mpsc_step P w (w\<lparr>producer := (producer w)(p := PHead x (head (ring w)))\<rparr>)"
| push_full: "p \<in> P \<Longrightarrow> producer w p = PHead x h \<Longrightarrow> (h + 1) mod cap (ring w) = tail (ring w) \<Longrightarrow>
    mpsc_step P w (w\<lparr>producer := (producer w)(p := PIdle)\<rparr>)"
| push_room: "p \<in> P \<Longrightarrow> producer w p = PHead x h \<Longrightarrow> (h + 1) mod cap (ring w) \<noteq> tail (ring w) \<Longrightarrow>
    mpsc_step P w (w\<lparr>producer := (producer w)(p := PRoom x h)\<rparr>)"
| push_write: "p \<in> P \<Longrightarrow> producer w p = PRoom x h \<Longrightarrow>
    mpsc_step P w (w\<lparr>ring := (ring w)\<lparr>buf := (buf (ring w))[h := x]\<rparr>,
      producer := (producer w)(p := PWritten x h)\<rparr>)"
| push_store: "p \<in> P \<Longrightarrow> producer w p = PWritten x h \<Longrightarrow>
    mpsc_step P w (w\<lparr>ring := (ring w)\<lparr>head := (h + 1) mod cap (ring w)\<rparr>,
      producer := (producer w)(p := PIdle), pushed := pushed w @ [x]\<rparr>)"
| pop_load: "consumer w = CIdle \<Longrightarrow> mpsc_step P w (w\<lparr>consumer := CTail (tail (ring w))\<rparr>)"
| pop_empty: "consumer w = CTail t \<Longrightarrow> t = head (ring w) \<Longrightarrow> mpsc_step P w (w\<lparr>consumer := CIdle\<rparr>)"
| pop_some: "consumer w = CTail t \<Longrightarrow> t \<noteq> head (ring w) \<Longrightarrow> mpsc_step P w (w\<lparr>consumer := CSome t\<rparr>)"
| pop_read: "consumer w = CSome t \<Longrightarrow>
    mpsc_step P w (w\<lparr>consumer := CRead t (buf (ring w) ! t)\<rparr>)"
| pop_store: "consumer w = CRead t v \<Longrightarrow>
    mpsc_step P w (w\<lparr>ring := (ring w)\<lparr>tail := (t + 1) mod cap (ring w)\<rparr>,
      consumer := CIdle, popped := popped w @ [v]\<rparr>)"

inductive reachable :: "nat set \<Rightarrow> 'a list \<Rightarrow> 'a world \<Rightarrow> bool" for P junk where
  begin_run: "reachable P junk (start junk)"
| run_step: "reachable P junk w \<Longrightarrow> mpsc_step P w w' \<Longrightarrow> reachable P junk w'"

section \<open>One producer, one consumer\<close>

text \<open>What each thread knows at each point of its call.\<close>

definition producer_ok :: "'a ring \<Rightarrow> 'a push_pc \<Rightarrow> bool" where
  "producer_ok r pc = (case pc of
      PIdle \<Rightarrow> True
    | PHead x h \<Rightarrow> h = head r
    | PRoom x h \<Rightarrow> h = head r \<and> Suc h mod cap r \<noteq> tail r
    | PWritten x h \<Rightarrow> h = head r \<and> Suc h mod cap r \<noteq> tail r \<and> buf r ! h = x)"

definition consumer_ok :: "'a ring \<Rightarrow> 'a pop_pc \<Rightarrow> bool" where
  "consumer_ok r pc = (case pc of
      CIdle \<Rightarrow> True
    | CTail t \<Rightarrow> t = tail r
    | CSome t \<Rightarrow> t = tail r \<and> t \<noteq> head r
    | CRead t v \<Rightarrow> t = tail r \<and> t \<noteq> head r \<and> v = buf r ! t)"

definition spsc_inv :: "nat \<Rightarrow> nat \<Rightarrow> 'a world \<Rightarrow> bool" where
  "spsc_inv p n w \<longleftrightarrow> ring_ok (ring w) \<and> cap (ring w) = n \<and>
     producer_ok (ring w) (producer w p) \<and> (\<forall>q. q \<noteq> p \<longrightarrow> producer w q = PIdle) \<and>
     consumer_ok (ring w) (consumer w) \<and> pushed w = popped w @ contents (ring w)"

lemmas spsc_defs = spsc_inv_def producer_ok_def consumer_ok_def

text \<open>Moving one index does not meet the other one's next position.\<close>

lemma head_move: "ring_ok r \<Longrightarrow> Suc (head r) mod cap r \<noteq> tail r \<Longrightarrow>
    ring_ok (r\<lparr>head := Suc (head r) mod cap r\<rparr>)"
  by (auto simp: ring_ok_def intro: mod_below)

lemma tail_move: "ring_ok r \<Longrightarrow> ring_ok (r\<lparr>tail := Suc (tail r) mod cap r\<rparr>)"
  by (auto simp: ring_ok_def intro: mod_below)

lemma tail_move_room:
  "ring_ok r \<Longrightarrow> tail r \<noteq> head r \<Longrightarrow> Suc (head r) mod cap r \<noteq> Suc (tail r) mod cap r"
  by (auto simp: ring_ok_def ring_simps split: if_splits)

lemma contents_head_move:
  assumes "ring_ok r" "Suc (head r) mod cap r \<noteq> tail r"
  shows "contents (r\<lparr>head := Suc (head r) mod cap r\<rparr>) = contents r @ [buf r ! head r]"
  using contents_append [OF assms, of "buf r ! head r"] by simp

lemma spsc_inv_step:
  assumes "mpsc_step {p} w w'" "spsc_inv p n w"
  shows "spsc_inv p n w'"
  using assms
proof (cases rule: mpsc_step.cases)
  case (push_write q x h)
  then show ?thesis using assms(2) contents_write_free [of "ring w" x]
    by (auto simp: spsc_defs ring_ok_def split: pop_pc.splits)
next
  case (push_store q x h)
  then show ?thesis using assms(2) contents_head_move [of "ring w"] head_move [of "ring w"]
    by (auto simp: spsc_defs split: pop_pc.splits)
next
  case (pop_store t v)
  then show ?thesis
    using assms(2) contents_advance [of "ring w"] tail_move [of "ring w"] tail_move_room [of "ring w"]
    by (auto simp: spsc_defs split: push_pc.splits)
qed (auto simp: spsc_defs)

lemma spsc_inv_start: "junk \<noteq> [] \<Longrightarrow> spsc_inv p (length junk) (start junk)"
  by (auto simp: spsc_defs start_def ring_ok_new) (simp_all add: mpsc_new_def)

lemma spsc_inv_reachable:
  "reachable {p} junk w \<Longrightarrow> junk \<noteq> [] \<Longrightarrow> spsc_inv p (length junk) w"
  by (induction rule: reachable.induct) (simp_all add: spsc_inv_start spsc_inv_step)


section \<open>Running a schedule\<close>

text \<open>
  A schedule names, step by step, the thread that moves (and the element, where a producer
  begins a call); \<open>advance\<close> makes that thread's one possible step.
\<close>

datatype 'a turn = Producer nat 'a | Consumer

fun advance :: "'a turn \<Rightarrow> 'a world \<Rightarrow> 'a world" where
  "advance (Producer p x) w = (let r = ring w; at = (\<lambda>pc. (producer w)(p := pc)) in
     case producer w p of
       PIdle \<Rightarrow> w\<lparr>producer := at (PHead x (head r))\<rparr>
     | PHead y h \<Rightarrow>
         w\<lparr>producer := at (if (h + 1) mod cap r = tail r then PIdle else PRoom y h)\<rparr>
     | PRoom y h \<Rightarrow> w\<lparr>ring := r\<lparr>buf := (buf r)[h := y]\<rparr>, producer := at (PWritten y h)\<rparr>
     | PWritten y h \<Rightarrow> w\<lparr>ring := r\<lparr>head := (h + 1) mod cap r\<rparr>, producer := at PIdle,
         pushed := pushed w @ [y]\<rparr>)"
| "advance Consumer w = (let r = ring w in
     case consumer w of
       CIdle \<Rightarrow> w\<lparr>consumer := CTail (tail r)\<rparr>
     | CTail t \<Rightarrow> w\<lparr>consumer := (if t = head r then CIdle else CSome t)\<rparr>
     | CSome t \<Rightarrow> w\<lparr>consumer := CRead t (buf r ! t)\<rparr>
     | CRead t v \<Rightarrow> w\<lparr>ring := r\<lparr>tail := (t + 1) mod cap r\<rparr>, consumer := CIdle,
         popped := popped w @ [v]\<rparr>)"

fun allowed :: "nat set \<Rightarrow> 'a turn \<Rightarrow> bool" where
  "allowed P (Producer p x) \<longleftrightarrow> p \<in> P"
| "allowed P Consumer \<longleftrightarrow> True"

lemma advance_step: "allowed P a \<Longrightarrow> mpsc_step P w (advance a w)"
proof (cases a)
  case (Producer p x)
  assume "allowed P a"
  with Producer show ?thesis
    using push_load [of p P w x] push_full [of p P w] push_room [of p P w] push_write [of p P w]
      push_store [of p P w]
    by (cases "producer w p") (auto simp: Let_def)
next
  case Consumer
  then show ?thesis
    using pop_load [of w P] pop_empty [of w _ P] pop_some [of w _ P] pop_read [of w _ P]
      pop_store [of w _ _ P]
    by (cases "consumer w") (auto simp: Let_def)
qed

lemma schedule_reachable:
  "\<forall>a \<in> set sched. allowed P a \<Longrightarrow> reachable P junk w \<Longrightarrow> reachable P junk (fold advance sched w)"
  by (induction sched arbitrary: w) (auto intro: run_step advance_step)

lemmas run_schedule = schedule_reachable [OF _ begin_run]

section \<open>Properties\<close>

text \<open>
  C10: With one producer and one consumer, under every interleaving of the individual loads
  and stores, the elements \<open>pop\<close> returned followed by those still in the ring are exactly the
  elements \<open>push\<close> accepted, in order; fewer than \<open>CAP\<close> are in flight, and what the consumer has
  read but not yet released is the oldest one.
\<close>

theorem spsc_loses_nothing:
  assumes "reachable {p} junk w" "junk \<noteq> []"
  shows "pushed w = popped w @ contents (ring w) \<and> length (contents (ring w)) < length junk \<and>
    (\<forall>t v. consumer w = CRead t v \<longrightarrow> (\<exists>rest. contents (ring w) = v # rest))"
proof -
  have inv: "spsc_inv p (length junk) w" using assms by (rule spsc_inv_reachable)
  then have ok: "ring_ok (ring w)" "cap (ring w) = length junk" by (simp_all add: spsc_inv_def)
  have "contents (ring w) = v # contents ((ring w)\<lparr>tail := Suc t mod cap (ring w)\<rparr>)"
    if "consumer w = CRead t v" for t v
    using that inv contents_advance [OF ok(1)] by (auto simp: spsc_defs)
  with inv ok show ?thesis
    using count_less_cap [OF ok(1)] by (auto simp: spsc_inv_def length_contents)
qed

theorem spsc_loses_nothing_witness:
  "\<exists>w. reachable {3} [0, 0, 0 :: int] w \<and> pushed w = [7, 9] \<and> popped w = [7] \<and>
     pushed w = popped w @ contents (ring w)"
proof -
  let ?w = "fold advance (replicate 4 (Producer 3 7) @ replicate 2 Consumer @ replicate 4 (Producer 3 9) @
    replicate 2 Consumer) (start [0, 0, 0 :: int])"
  have r: "reachable {3} [0, 0, 0] ?w" by (rule run_schedule) simp
  have "pushed ?w = [7, 9]" "popped ?w = [7]"
    by code_simp+
  with r spsc_loses_nothing [OF r] show ?thesis by blast
qed

text \<open>
  C33: With two producers the ring loses an event, although its name promises several: both
  calls return \<open>true\<close>, nothing has been popped, every thread has finished, and only the second
  element is in the ring. Both producers load the same \<open>head\<close>, write the same slot and store
  the same next index. In the stub this is a debug event of one of two cores that fault
  together: the worker never learns of a stopped thread.
\<close>

theorem two_producers_lose_an_event:
  "\<exists>w. reachable {0, 1} (x # y # zs) w \<and> (\<forall>p. producer w p = PIdle) \<and> consumer w = CIdle \<and>
     pushed w = [a, b] \<and> popped w = [] \<and> contents (ring w) = [b]"
proof -
  let ?A = "Producer 0 a" and ?B = "Producer 1 b"
  let ?w = "fold advance [?A, ?B, ?A, ?B, ?A, ?A, ?B, ?B] (start (x # y # zs))"
  have r: "reachable {0, 1} (x # y # zs) ?w" by (rule run_schedule) simp
  have "(\<forall>p. producer ?w p = PIdle) \<and> consumer ?w = CIdle \<and> pushed ?w = [a, b] \<and> popped ?w = [] \<and>
      contents (ring ?w) = [b]"
    by (simp add: start_def mpsc_new_def contents_def)
  with r show ?thesis by blast
qed

end
