(* ===== verification/Next_Pc.thy ===== *)
theory Next_Pc
  imports Vg_Prelude
begin

text \<open>
  \<open>arm-next-pc/src/lib.rs\<close>: given a thread's registers and a way to read its memory, where
  does it execute next? The single-step support plants a breakpoint at the answer.

  The instruction decoder (crate \<open>yaxpeax-arm\<close>) is a parameter: \<open>isa\<close> holds its decoding
  function and the two functions on register names the code calls. Its enumerations appear
  with the variants the source names; every other variant is \<open>OtherOpcode\<close> or \<open>OtherOperand\<close>
  with its name, which the source treats alike in its wildcard arms.
\<close>

section \<open>The decoder's types, as far as the source names them\<close>

datatype opcode =
    OpB | OpBL | OpBLX | OpBX | OpBXJ | OpCBZ | OpCBNZ
  | OpAND | OpEOR | OpSUB | OpRSB | OpADD | OpADC | OpSBC | OpRSC | OpORR | OpMOV | OpBIC | OpMVN
  | OpLSL | OpLSR | OpASR | OpRRX | OpROR | OpADR
  | OpLDR | OpLDRT | OpLDM bool bool bool bool | OpPOP | OpTBB | OpTBH
  | OtherOpcode string

datatype condition_code =
  EQ | NE | HS | LO | MI | PL | VS | VC | HI | LS | GE | LT | GT | LE | AL

datatype 'r operand =
    Reg 'r | RegWBack 'r bool | RegList u16
  | BranchOffset i32 | BranchThumbOffset i32
  | Imm12 u16 | Imm32 u32
  | RegDeref 'r
  | RegDerefPreindexOffset 'r u16 bool bool
  | RegDerefPostindexOffset 'r u16 bool bool
  | RegDerefPreindexReg 'r 'r bool bool
  | Nothing
  | OtherOperand string

type_synonym 'r operands = "'r operand \<times> 'r operand \<times> 'r operand \<times> 'r operand"

record 'r insn =
  i_opcode :: opcode
  i_condition :: condition_code
  i_operands :: "'r operands"
  i_thumb :: bool
  i_wide :: bool

record ('r, 'e) isa =
  decode :: "bool \<Rightarrow> u8 list \<Rightarrow> 'e + 'r insn"
  number :: "'r \<Rightarrow> u8"
  from_u8 :: "u8 \<Rightarrow> 'r"

section \<open>Memory readers\<close>

text \<open>
  The trait \<open>MemReader\<close>: its one required method fills a caller's buffer of \<open>n\<close> zero bytes
  from an address and says whether that worked; the buffer's contents are the value here.
\<close>

type_synonym mem_read = "u32 \<Rightarrow> nat \<Rightarrow> u8 list option"

datatype 'e next_pc_error = MemoryRead | DecodeError 'e

definition read_u8 :: "mem_read \<Rightarrow> u32 \<Rightarrow> ('e next_pc_error, u8) res" where
  "read_u8 read addr =
     and_then (ok_or MemoryRead (read addr 1)) (\<lambda>bytes. index bytes 0)"

definition read_u16 :: "mem_read \<Rightarrow> u32 \<Rightarrow> ('e next_pc_error, u16) res" where
  "read_u16 read addr =
     and_then (ok_or MemoryRead (read addr 2)) (\<lambda>bytes. Ok (from_le bytes))"

definition read_u32 :: "mem_read \<Rightarrow> u32 \<Rightarrow> ('e next_pc_error, u32) res" where
  "read_u32 read addr =
     and_then (ok_or MemoryRead (read addr 4)) (\<lambda>bytes. Ok (from_le bytes))"

text \<open>What every implementation gives: a buffer keeps its length.\<close>

locale mem_reader =
  fixes read :: mem_read
  assumes read_length: "read a n = Some bs \<Longrightarrow> length bs = n"
begin

lemma read_u8_cases:
  "read_u8 read a = (case read a 1 of None \<Rightarrow> Err MemoryRead | Some bs \<Rightarrow> Ok (bs ! 0))"
  using read_length [of a 1] by (simp add: read_u8_def split: option.split)

lemma read_u8_no_panic: "read_u8 read a \<noteq> panic"
  by (simp add: read_u8_cases split: option.split)

lemma read_u16_holds: "read a 2 = Some (to_le 2 v) \<Longrightarrow> read_u16 read a = Ok v"
  by (simp add: read_u16_def from_le_to_le)

lemma read_u32_holds: "read_u32 read a = Ok v \<longleftrightarrow> read a 4 = Some (to_le 4 v)"
  using read_length [of a 4]
  by (cases "read a 4") (auto simp: read_u32_def)

end

section \<open>Register contexts\<close>

record reg_context =
  rc_r :: "u32 list"
  rc_sp :: u32
  rc_lr :: u32
  rc_pc :: u32
  rc_cpsr :: u32

definition default_context :: reg_context where
  "default_context = \<lparr>rc_r = replicate 13 0, rc_sp = 0, rc_lr = 0, rc_pc = 0, rc_cpsr = 0\<rparr>"

definition thumb :: "reg_context \<Rightarrow> bool" where
  "thumb regs \<longleftrightarrow> drop_bit 5 (rc_cpsr regs) AND 1 \<noteq> 0"

definition reg :: "('r, 'e) isa \<Rightarrow> reg_context \<Rightarrow> 'r \<Rightarrow> ('x, u32) res" where
  "reg A regs x = (let idx = unat (number A x) in
     if idx < 13 then index (rc_r regs) idx
     else if idx = 13 then Ok (rc_sp regs)
     else if idx = 14 then Ok (rc_lr regs)
     else if idx = 15 then Ok (rc_pc regs)
     else panic)"

definition cond_flags :: "reg_context \<Rightarrow> bool \<times> bool \<times> bool \<times> bool" where
  "cond_flags regs =
     (rc_cpsr regs AND push_bit 31 1 \<noteq> 0, rc_cpsr regs AND push_bit 30 1 \<noteq> 0,
      rc_cpsr regs AND push_bit 29 1 \<noteq> 0, rc_cpsr regs AND push_bit 28 1 \<noteq> 0)"

definition eval_cond :: "condition_code \<Rightarrow> reg_context \<Rightarrow> bool" where
  "eval_cond cond regs = (let (n, z, c, v) = cond_flags regs in
     case cond of
       EQ \<Rightarrow> z | NE \<Rightarrow> \<not> z | HS \<Rightarrow> c | LO \<Rightarrow> \<not> c | MI \<Rightarrow> n | PL \<Rightarrow> \<not> n | VS \<Rightarrow> v | VC \<Rightarrow> \<not> v
     | HI \<Rightarrow> c \<and> \<not> z | LS \<Rightarrow> \<not> c \<or> z | GE \<Rightarrow> n = v | LT \<Rightarrow> n \<noteq> v
     | GT \<Rightarrow> \<not> z \<and> n = v | LE \<Rightarrow> z \<or> n \<noteq> v | AL \<Rightarrow> True)"

section \<open>Operands\<close>

definition is_pc_destination :: "('r, 'e) isa \<Rightarrow> 'r operand \<Rightarrow> bool" where
  "is_pc_destination A opnd = (case opnd of Reg x \<Rightarrow> number A x = 15 | _ \<Rightarrow> False)"

definition value_of :: "('r, 'e) isa \<Rightarrow> 'r operand \<Rightarrow> reg_context \<Rightarrow> ('x, u32) res" where
  "value_of A opnd regs = (case opnd of
     Reg x \<Rightarrow> reg A regs x
   | Imm12 v \<Rightarrow> Ok (ucast v)
   | Imm32 v \<Rightarrow> Ok v
   | _ \<Rightarrow> panic)"

definition effective_address :: "('r, 'e) isa \<Rightarrow> 'r operand \<Rightarrow> reg_context \<Rightarrow> ('x, u32) res" where
  "effective_address A opnd regs = (case opnd of
     RegDeref base \<Rightarrow> reg A regs base
   | RegDerefPreindexOffset base offset add _ \<Rightarrow>
       and_then (reg A regs base) (\<lambda>b. Ok (if add then b + ucast offset else b - ucast offset))
   | RegDerefPostindexOffset base _ _ _ \<Rightarrow> reg A regs base
   | _ \<Rightarrow> panic)"

definition table_branch_address ::
  "('r, 'e) isa \<Rightarrow> 'r operands \<Rightarrow> reg_context \<Rightarrow> ('x, u32 \<times> u32) res" where
  "table_branch_address A operands regs = (case operands of (o0, o1, _, _) \<Rightarrow>
     and_then
       (case (o0, o1) of
          (Reg base, Reg idx) \<Rightarrow> Ok (base, idx)
        | (RegDerefPreindexReg base idx _ _, Nothing) \<Rightarrow> Ok (base, idx)
        | _ \<Rightarrow> panic)
       (\<lambda>(base, idx). and_then (reg A regs base) (\<lambda>base_val.
          and_then (reg A regs idx) (\<lambda>index_val. Ok (base_val, index_val)))))"

definition thumb_branch_target :: "condition_code \<Rightarrow> i32 \<Rightarrow> reg_context \<Rightarrow> u32" where
  "thumb_branch_target condition offset regs =
     (let base = (if condition = AL then rc_pc regs + 4 else rc_pc regs - 4)
      in base + push_bit 1 offset)"

text \<open>Number of set bits (\<open>count_ones\<close>).\<close>

definition count_ones :: "'a::len word \<Rightarrow> nat" where
  "count_ones w = length (filter (bit w) [0..<LENGTH('a)])"

section \<open>Arithmetic\<close>

definition lsl :: "u32 \<Rightarrow> u32 \<Rightarrow> u32" where
  "lsl first shift = (if shift = 0 then first else if shift \<le> 31 then push_bit (unat shift) first else 0)"

definition lsr :: "u32 \<Rightarrow> u32 \<Rightarrow> u32" where
  "lsr first shift = (if shift = 0 then first else if shift \<le> 31 then drop_bit (unat shift) first else 0)"

definition asr :: "u32 \<Rightarrow> u32 \<Rightarrow> u32" where
  "asr first shift = (if shift = 0 then first
     else if shift \<le> 31 then signed_drop_bit (unat shift) first
     else if first AND push_bit 31 1 \<noteq> 0 then 0xFFFFFFFF else 0)"

definition ror :: "u32 \<Rightarrow> u32 \<Rightarrow> u32" where
  "ror first shift = (let s = shift AND 31 in if s = 0 then first else word_rotr (unat s) first)"

definition eval_binary :: "opcode \<Rightarrow> u32 \<Rightarrow> u32 \<Rightarrow> u32 \<Rightarrow> ('x, u32) res" where
  "eval_binary opc first second carry = (let shift = second AND 0xFF in case opc of
     OpADD \<Rightarrow> Ok (first + second)
   | OpADC \<Rightarrow> Ok (first + second + carry)
   | OpSUB \<Rightarrow> Ok (first - second)
   | OpRSB \<Rightarrow> Ok (second - first)
   | OpSBC \<Rightarrow> Ok (first - second - (1 - carry))
   | OpRSC \<Rightarrow> Ok (second - first - (1 - carry))
   | OpAND \<Rightarrow> Ok (first AND second)
   | OpEOR \<Rightarrow> Ok (first XOR second)
   | OpORR \<Rightarrow> Ok (first OR second)
   | OpBIC \<Rightarrow> Ok (first AND NOT second)
   | OpLSL \<Rightarrow> Ok (lsl first shift)
   | OpLSR \<Rightarrow> Ok (lsr first shift)
   | OpASR \<Rightarrow> Ok (asr first shift)
   | OpROR \<Rightarrow> Ok (ror first shift)
   | _ \<Rightarrow> panic)"

definition eval_alu :: "('r, 'e) isa \<Rightarrow> opcode \<Rightarrow> 'r operands \<Rightarrow> reg_context \<Rightarrow> ('x, u32) res" where
  "eval_alu A opc operands regs = (case operands of (_, o1, o2, _) \<Rightarrow>
     and_then (value_of A o1 regs) (\<lambda>first.
     let carry = (case cond_flags regs of (_, _, c, _) \<Rightarrow> if c then 1 else 0) in
     case opc of
       OpMOV \<Rightarrow> Ok first
     | OpADR \<Rightarrow> Ok first
     | OpMVN \<Rightarrow> Ok (NOT first)
     | OpRRX \<Rightarrow> Ok (drop_bit 1 first OR push_bit 31 carry)
     | _ \<Rightarrow> and_then (value_of A o2 regs) (\<lambda>second. eval_binary opc first second carry)))"

section \<open>The next program counter\<close>

text \<open>
  Each definition is one arm of the source's \<open>match insn.opcode\<close>. Where the arm can only
  answer \<open>unreachable!()\<close> the model panics. A result is the next address and whether the
  processor executes it in Thumb state.
\<close>

type_synonym target = "u32 \<times> bool"

definition interwork :: "u32 \<Rightarrow> target" where
  "interwork value = (value AND NOT 1, value AND 1 = 1)"

definition branch_arm :: "reg_context \<Rightarrow> 'r insn \<Rightarrow> ('x, target) res" where
  "branch_arm regs insn = (case fst (i_operands insn) of
     BranchOffset offset \<Rightarrow> Ok (rc_pc regs + push_bit 2 (offset - 2), False)
   | BranchThumbOffset offset \<Rightarrow> Ok (thumb_branch_target (i_condition insn) offset regs, True)
   | _ \<Rightarrow> panic)"

definition blx_arm :: "('r, 'e) isa \<Rightarrow> reg_context \<Rightarrow> 'r insn \<Rightarrow> ('x, target) res" where
  "blx_arm A regs insn = (case fst (i_operands insn) of
     BranchOffset offset \<Rightarrow> Ok (rc_pc regs + push_bit 2 offset, True)
   | BranchThumbOffset offset \<Rightarrow> Ok (rc_pc regs + push_bit 1 offset, False)
   | Reg x \<Rightarrow> and_then (reg A regs x) (\<lambda>value. Ok (interwork value))
   | _ \<Rightarrow> panic)"

definition bx_arm :: "('r, 'e) isa \<Rightarrow> reg_context \<Rightarrow> 'r insn \<Rightarrow> ('x, target) res" where
  "bx_arm A regs insn = (case fst (i_operands insn) of
     Reg x \<Rightarrow> and_then (reg A regs x) (\<lambda>value. Ok (interwork value))
   | _ \<Rightarrow> panic)"

definition cbz_arm ::
  "('r, 'e) isa \<Rightarrow> (u32 \<Rightarrow> bool) \<Rightarrow> reg_context \<Rightarrow> target \<Rightarrow> 'r insn \<Rightarrow> ('x, target) res" where
  "cbz_arm A test regs fallthrough insn = (case i_operands insn of
     (Reg x, Imm32 imm, _, _) \<Rightarrow>
       and_then (reg A regs x) (\<lambda>value. Ok (if test value then interwork imm else fallthrough))
   | _ \<Rightarrow> panic)"

definition alu_arm :: "('r, 'e) isa \<Rightarrow> reg_context \<Rightarrow> target \<Rightarrow> 'r insn \<Rightarrow> ('x, target) res" where
  "alu_arm A regs fallthrough insn =
     (if is_pc_destination A (fst (i_operands insn))
      then and_then (eval_alu A (i_opcode insn) (i_operands insn) regs)
             (\<lambda>tgt. Ok (tgt AND NOT 3, i_thumb insn))
      else Ok fallthrough)"

definition ldr_arm ::
  "('r, 'e) isa \<Rightarrow> reg_context \<Rightarrow> mem_read \<Rightarrow> target \<Rightarrow> 'r insn \<Rightarrow> ('e next_pc_error, target) res" where
  "ldr_arm A regs mem fallthrough insn = (case i_operands insn of (o0, o1, _, _) \<Rightarrow>
     if is_pc_destination A o0
     then and_then (effective_address A o1 regs) (\<lambda>address.
          and_then (read_u32 mem address) (\<lambda>tgt. Ok (interwork tgt)))
     else Ok fallthrough)"

text \<open>Base register and register list of a block load.\<close>

definition ldm_operands :: "('r, 'e) isa \<Rightarrow> 'r insn \<Rightarrow> ('x, 'r \<times> u16) res" where
  "ldm_operands A insn = (case i_operands insn of
     (Reg b, RegList l, _, _) \<Rightarrow> Ok (b, l)
   | (RegWBack b _, RegList l, _, _) \<Rightarrow> Ok (b, l)
   | (_, RegList l, _, _) \<Rightarrow> if i_opcode insn = OpPOP then Ok (from_u8 A 13, l) else panic
   | _ \<Rightarrow> panic)"

definition ldm_pc_addr :: "opcode \<Rightarrow> u32 \<Rightarrow> u16 \<Rightarrow> ('x, u32) res" where
  "ldm_pc_addr opc base_addr list =
     (let before_pc = of_nat (count_ones (list AND 0x7FFF)); total_regs = of_nat (count_ones list)
      in case opc of
        OpLDM True False _ _ \<Rightarrow> Ok (base_addr + before_pc * 4)
      | OpPOP \<Rightarrow> Ok (base_addr + before_pc * 4)
      | OpLDM True True _ _ \<Rightarrow> Ok (base_addr + (before_pc + 1) * 4)
      | OpLDM False False _ _ \<Rightarrow> Ok (base_addr - (total_regs - 1 - before_pc) * 4)
      | OpLDM False True _ _ \<Rightarrow> Ok (base_addr - (total_regs - before_pc) * 4)
      | _ \<Rightarrow> panic)"

definition ldm_arm ::
  "('r, 'e) isa \<Rightarrow> reg_context \<Rightarrow> mem_read \<Rightarrow> target \<Rightarrow> 'r insn \<Rightarrow> ('e next_pc_error, target) res" where
  "ldm_arm A regs mem fallthrough insn = and_then (ldm_operands A insn) (\<lambda>(base_reg, list).
     if list AND push_bit 15 1 = 0 then Ok fallthrough
     else and_then (reg A regs base_reg) (\<lambda>base_addr.
          and_then (ldm_pc_addr (i_opcode insn) base_addr list) (\<lambda>pc_addr.
          and_then (read_u32 mem pc_addr) (\<lambda>tgt. Ok (interwork tgt)))))"

definition tbb_arm ::
  "('r, 'e) isa \<Rightarrow> reg_context \<Rightarrow> mem_read \<Rightarrow> 'r insn \<Rightarrow> ('e next_pc_error, target) res" where
  "tbb_arm A regs mem insn = and_then (table_branch_address A (i_operands insn) regs)
     (\<lambda>(base_val, index_val). and_then (read_u8 mem (base_val + index_val))
       (\<lambda>offset. Ok (rc_pc regs + push_bit 1 (ucast offset), i_thumb insn)))"

definition tbh_arm ::
  "('r, 'e) isa \<Rightarrow> reg_context \<Rightarrow> mem_read \<Rightarrow> 'r insn \<Rightarrow> ('e next_pc_error, target) res" where
  "tbh_arm A regs mem insn = and_then (table_branch_address A (i_operands insn) regs)
     (\<lambda>(base_val, index_val). and_then (read_u16 mem (base_val + push_bit 2 index_val))
       (\<lambda>offset. Ok (rc_pc regs + push_bit 1 (ucast offset), i_thumb insn)))"

definition taken ::
  "('r, 'e) isa \<Rightarrow> reg_context \<Rightarrow> mem_read \<Rightarrow> target \<Rightarrow> 'r insn \<Rightarrow> ('e next_pc_error, target) res" where
  "taken A regs mem fallthrough insn = (case i_opcode insn of
     OpB \<Rightarrow> branch_arm regs insn
   | OpBL \<Rightarrow> branch_arm regs insn
   | OpBLX \<Rightarrow> blx_arm A regs insn
   | OpBX \<Rightarrow> bx_arm A regs insn
   | OpBXJ \<Rightarrow> bx_arm A regs insn
   | OpCBZ \<Rightarrow> cbz_arm A (\<lambda>v. v = 0) regs fallthrough insn
   | OpCBNZ \<Rightarrow> cbz_arm A (\<lambda>v. v \<noteq> 0) regs fallthrough insn
   | OpLDR \<Rightarrow> ldr_arm A regs mem fallthrough insn
   | OpLDRT \<Rightarrow> ldr_arm A regs mem fallthrough insn
   | OpLDM _ _ _ _ \<Rightarrow> ldm_arm A regs mem fallthrough insn
   | OpPOP \<Rightarrow> ldm_arm A regs mem fallthrough insn
   | OpTBB \<Rightarrow> tbb_arm A regs mem insn
   | OpTBH \<Rightarrow> tbh_arm A regs mem insn
   | OtherOpcode _ \<Rightarrow> Ok fallthrough
   | _ \<Rightarrow> alu_arm A regs fallthrough insn)"

definition insn_addr :: "reg_context \<Rightarrow> u32" where
  "insn_addr regs = (if thumb regs then rc_pc regs - 4 else rc_pc regs - 8)"

definition fallthrough_of :: "u32 \<Rightarrow> 'r insn \<Rightarrow> target" where
  "fallthrough_of addr insn = (addr + (if i_thumb insn \<and> \<not> i_wide insn then 2 else 4), i_thumb insn)"

definition fetch :: "('r, 'e) isa \<Rightarrow> reg_context \<Rightarrow> mem_read \<Rightarrow> ('e next_pc_error, 'r insn) res" where
  "fetch A regs mem = and_then (ok_or MemoryRead (mem (insn_addr regs) 4)) (\<lambda>bytes.
     case decode A (thumb regs) bytes of Inl e \<Rightarrow> Err (DecodeError e) | Inr insn \<Rightarrow> Ok insn)"

definition next_pc ::
  "('r, 'e) isa \<Rightarrow> reg_context \<Rightarrow> mem_read \<Rightarrow> ('e next_pc_error, target) res" where
  "next_pc A regs mem = and_then (fetch A regs mem) (\<lambda>insn.
     let fallthrough = fallthrough_of (insn_addr regs) insn in
     if eval_cond (i_condition insn) regs then taken A regs mem fallthrough insn
     else Ok fallthrough)"

lemmas arm_defs = branch_arm_def blx_arm_def bx_arm_def cbz_arm_def alu_arm_def ldr_arm_def
  ldm_arm_def tbb_arm_def tbh_arm_def

end
