(* ===== verification/Next_Pc_Props.thy ===== *)
theory Next_Pc_Props
  imports Next_Pc
begin

text \<open>
  What \<open>next_pc\<close> computes, against the ARMv7 architecture where the source's own operands
  fix the meaning: condition codes, the arithmetic of instructions that write the program
  counter, block loads, table branches, and the rules for writing the program counter.
\<close>

section \<open>Bits\<close>

named_theorems bit_tests \<open>mask tests as bit tests\<close>

lemma and_bit_zero [bit_tests]: "w AND push_bit n 1 = 0 \<longleftrightarrow> \<not> bit w n" for w :: "'a::len word"
  by (simp add: push_bit_eq_mult and_exp_eq_0_iff_not_bit)

lemma and_one_eq_one [bit_tests]: "w AND 1 = 1 \<longleftrightarrow> odd w" for w :: "'a::len word"
  by (simp add: and_one_eq odd_iff_mod_2_eq_one)

lemma thumb_bit: "thumb regs \<longleftrightarrow> bit (rc_cpsr regs) 5"
  by (simp add: thumb_def and_one_eq mod_2_eq_odd bit_iff_odd_drop_bit)

lemma cond_flags_bits:
  "cond_flags regs =
     (bit (rc_cpsr regs) 31, bit (rc_cpsr regs) 30, bit (rc_cpsr regs) 29, bit (rc_cpsr regs) 28)"
  by (simp only: cond_flags_def and_bit_zero not_not)

section \<open>Condition codes\<close>

text \<open>
  The architecture numbers the conditions; \<open>ConditionHolds\<close> tests one of eight predicates by
  the upper three bits of the number and inverts it by the lowest bit.
\<close>

fun condition_number :: "condition_code \<Rightarrow> nat" where
  "condition_number EQ = 0" | "condition_number NE = 1" | "condition_number HS = 2"
| "condition_number LO = 3" | "condition_number MI = 4" | "condition_number PL = 5"
| "condition_number VS = 6" | "condition_number VC = 7" | "condition_number HI = 8"
| "condition_number LS = 9" | "condition_number GE = 10" | "condition_number LT = 11"
| "condition_number GT = 12" | "condition_number LE = 13" | "condition_number AL = 14"

definition condition_holds :: "nat \<Rightarrow> u32 \<Rightarrow> bool" where
  "condition_holds cond cpsr =
     (let n = bit cpsr 31; z = bit cpsr 30; c = bit cpsr 29; v = bit cpsr 28;
          base = [z, c, n, v, c \<and> \<not> z, n = v, n = v \<and> \<not> z, True] ! (cond div 2)
      in if odd cond \<and> cond \<noteq> 15 then \<not> base else base)"

text \<open>
  \<open>eval_cond\<close> decides every condition code as the architecture's \<open>ConditionHolds\<close> does from
  the code's number, so the two codes of each pair are opposites and \<open>AL\<close> always holds.
\<close>

theorem eval_cond_is_condition_holds:
  "eval_cond c regs = condition_holds (condition_number c) (rc_cpsr regs)"
  by (cases c) (auto simp: eval_cond_def cond_flags_bits condition_holds_def)

section \<open>Arithmetic\<close>

definition add_with_carry :: "u32 \<Rightarrow> u32 \<Rightarrow> bool \<Rightarrow> u32" where
  "add_with_carry x y carry = word_of_int (uint x + uint y + of_bool carry)"

text \<open>The result of each data-processing operation on two values, in the manual's terms.\<close>

definition alu_result :: "opcode \<Rightarrow> bool \<Rightarrow> u32 \<Rightarrow> u32 \<Rightarrow> u32 option" where
  "alu_result opc c x y = (let n = unat y mod 256 in case opc of
     OpADD \<Rightarrow> Some (add_with_carry x y False)
   | OpADC \<Rightarrow> Some (add_with_carry x y c)
   | OpSUB \<Rightarrow> Some (add_with_carry x (NOT y) True)
   | OpSBC \<Rightarrow> Some (add_with_carry x (NOT y) c)
   | OpRSB \<Rightarrow> Some (add_with_carry (NOT x) y True)
   | OpRSC \<Rightarrow> Some (add_with_carry (NOT x) y c)
   | OpAND \<Rightarrow> Some (x AND y)
   | OpEOR \<Rightarrow> Some (x XOR y)
   | OpORR \<Rightarrow> Some (x OR y)
   | OpBIC \<Rightarrow> Some (x AND NOT y)
   | OpLSL \<Rightarrow> Some (word_of_int (uint x * 2 ^ n))
   | OpLSR \<Rightarrow> Some (word_of_int (uint x div 2 ^ n))
   | OpASR \<Rightarrow> Some (word_of_int (sint x div 2 ^ n))
   | OpROR \<Rightarrow> Some (word_rotr n x)
   | _ \<Rightarrow> None)"

lemma low_byte: "unat (y AND 0xFF) = unat y mod 256" for y :: u32
proof -
  have "y AND 0xFF = take_bit 8 y" by (simp add: take_bit_eq_mask mask_eq_exp_minus_1)
  then have "y AND 0xFF = y mod 256" by (simp only: take_bit_eq_mod) simp
  then show ?thesis by (simp add: unat_mod)
qed

lemma low_five: "unat (s AND 31) = unat s mod 32" for s :: u32
proof -
  have "s AND 31 = take_bit 5 s" by (simp add: take_bit_eq_mask mask_eq_exp_minus_1)
  then have "s AND 31 = s mod 32" by (simp only: take_bit_eq_mod) simp
  then show ?thesis by (simp add: unat_mod)
qed

lemma lsl_math: "lsl x s = word_of_int (uint x * 2 ^ unat s)"
proof -
  have "word_of_int (uint x * 2 ^ unat s) = push_bit (unat s) x"
    by (simp add: push_bit_eq_mult)
  moreover have "push_bit (unat s) x = 0" if "\<not> s \<le> 31"
    by (rule bit_word_eqI) (use that in \<open>simp add: bit_simps word_le_nat_alt\<close>)
  ultimately show ?thesis by (auto simp: lsl_def)
qed

lemma lsr_math: "lsr x s = word_of_int (uint x div 2 ^ unat s)"
proof -
  have "word_of_int (uint x div 2 ^ unat s) = drop_bit (unat s) x"
    by (rule bit_word_eqI) (simp add: bit_simps flip: drop_bit_eq_div)
  moreover have "drop_bit (unat s) x = 0" if "\<not> s \<le> 31"
    by (rule bit_word_eqI)
      (use that in \<open>auto simp: bit_simps word_le_nat_alt dest: bit_imp_le_length\<close>)
  ultimately show ?thesis by (auto simp: lsr_def)
qed

lemma signed_drop_bit_math: "signed_drop_bit n x = word_of_int (sint x div 2 ^ n)" for x :: u32
proof (rule bit_word_eqI)
  fix k assume "k < LENGTH(32)"
  moreover from this have "n + k < 31 \<or> n + k = 31 \<or> 31 < n + k" by linarith
  ultimately show "bit (signed_drop_bit n x) k = bit (word_of_int (sint x div 2 ^ n) :: u32) k"
    by (elim disjE) (auto simp: bit_simps min_def simp flip: drop_bit_eq_div)
qed

lemma asr_math: "asr x s = word_of_int (sint x div 2 ^ unat s)"
proof -
  have "signed_drop_bit (unat s) x = (if bit x 31 then - 1 else 0)" if "\<not> s \<le> 31"
    by (rule bit_word_eqI) (use that in \<open>auto simp: bit_simps word_le_nat_alt\<close>)
  moreover have "(0xFFFFFFFF :: u32) = - 1" by simp
  ultimately show ?thesis
    by (simp only: asr_def signed_drop_bit_math [symmetric] bit_tests) auto
qed

lemma ror_math: "ror x s = word_rotr (unat s) x"
proof -
  have "word_rotr (unat s mod 32) x = word_rotr (unat s) x"
    by (rule bit_word_eqI) (simp add: bit_simps mod_add_right_eq)
  moreover have "word_rotr 0 x = x" by (rule bit_word_eqI) (simp add: bit_simps)
  moreover have "s AND 31 = 0 \<longleftrightarrow> unat s mod 32 = 0"
    by (simp add: low_five [symmetric] unat_eq_zero)
  ultimately show ?thesis
    by (auto simp: ror_def Let_def low_five)
qed


lemma add_with_carry_math: "add_with_carry x y c = x + y + of_bool c"
  by (simp add: add_with_carry_def)

lemma not_math: "NOT x = - x - 1" for x :: u32
  by (simp add: not_eq_complement)

text \<open>
  C24: Every two-operand operation the source evaluates gives the manual's result: additions
  and subtractions are \<open>AddWithCarry\<close> with the operand or its complement, shifts by a
  register use its low byte and are multiplication, division (rounding down, signed for
  \<open>ASR\<close>) and rotation for all 256 amounts, also those of 32 and more that the source treats
  case by case. Every other opcode panics.
\<close>

theorem eval_binary_is_alu_result:
  "eval_binary opc x y (if c then 1 else 0) =
     (case alu_result opc c x y of None \<Rightarrow> panic | Some v \<Rightarrow> Ok v)"
  by (cases opc)
    (auto simp: eval_binary_def alu_result_def Let_def add_with_carry_math not_math lsl_math lsr_math
      asr_math ror_math low_byte)

section \<open>Writing the program counter\<close>

text \<open>
  \<open>BXWritePC\<close>, \<open>BranchWritePC\<close> and \<open>ALUWritePC\<close> of ARMv7; \<open>None\<close> is the unpredictable case.
\<close>

definition bx_write_pc :: "u32 \<Rightarrow> target option" where
  "bx_write_pc address = (if bit address 0 then Some (address AND NOT 1, True)
     else if \<not> bit address 1 then Some (address, False) else None)"

definition alu_write_pc :: "bool \<Rightarrow> u32 \<Rightarrow> target option" where
  "alu_write_pc in_thumb address =
     (if in_thumb then Some (address AND NOT 1, True) else bx_write_pc address)"

lemma interwork_is_bx_write_pc: "bx_write_pc v = Some t \<Longrightarrow> interwork v = t"
proof -
  have "v AND NOT 1 = v" if "\<not> bit v 0"
    by (rule bit_word_eqI) (use that in \<open>auto simp: bit_simps intro: gr0I\<close>)
  then show "bx_write_pc v = Some t \<Longrightarrow> interwork v = t"
    by (auto simp: interwork_def bx_write_pc_def and_one_eq_one bit_0 split: if_splits)
qed


lemma bit_and_not_low:
  "bit (v AND NOT 1) n \<longleftrightarrow> bit v n \<and> n \<noteq> 0" "bit (v AND NOT 3) n \<longleftrightarrow> bit v n \<and> 2 \<le> n"
  for v :: u32
proof -
  have "bit (v AND NOT (mask 2)) n \<longleftrightarrow> bit v n \<and> 2 \<le> n"
    by (auto simp: bit_simps dest: bit_imp_le_length)
  moreover have "(3 :: u32) = mask 2" by (simp add: mask_eq_exp_minus_1)
  ultimately show "bit (v AND NOT 3) n \<longleftrightarrow> bit v n \<and> 2 \<le> n" by (simp only:)
  show "bit (v AND NOT 1) n \<longleftrightarrow> bit v n \<and> n \<noteq> 0"
    by (auto simp: bit_simps simp del: not_one_eq dest: bit_imp_le_length)
qed

lemma and_not_low_eq: "v AND NOT 3 = v AND NOT 1 \<longleftrightarrow> \<not> bit v 1" for v :: u32
proof
  assume "v AND NOT 3 = v AND NOT 1"
  then have "bit (v AND NOT 3) 1 \<longleftrightarrow> bit (v AND NOT 1) 1" by (simp only:)
  then show "\<not> bit v 1" by (simp only: bit_and_not_low) simp
next
  assume v: "\<not> bit v 1"
  show "v AND NOT 3 = v AND NOT 1"
  proof (rule bit_word_eqI)
    fix n show "bit (v AND NOT 3) n = bit (v AND NOT 1) n"
      unfolding bit_and_not_low using v by (cases "n = 0 \<or> n = 1") auto
  qed
qed

lemma and_not_low_id: "\<not> bit v 0 \<Longrightarrow> \<not> bit v 1 \<Longrightarrow> v AND NOT 3 = v" for v :: u32
proof (rule bit_word_eqI)
  fix n assume "\<not> bit v 0" "\<not> bit v 1"
  then show "bit (v AND NOT 3) n = bit v n"
    unfolding bit_and_not_low by (cases "n = 0 \<or> n = 1") auto
qed

text \<open>
  Where the architecture defines what an arithmetic instruction writing the program
  counter does, the source's answer is right exactly when, in Thumb code, bit 1 of the result
  is clear and, in ARM code, bit 0 is clear. Otherwise it is wrong: it clears bit 1 of a Thumb
  target (landing two bytes early) and ignores that an ARM-state write with bit 0 set
  switches to Thumb.
\<close>

theorem alu_write_pc_agrees_iff:
  assumes "is_pc_destination A (fst (i_operands insn))"
    and "(eval_alu A (i_opcode insn) (i_operands insn) regs :: ('x, u32) res) = Ok v"
    and "alu_write_pc (i_thumb insn) v = Some t"
  shows "(alu_arm A regs fallthrough insn :: ('x, target) res) = Ok t \<longleftrightarrow> \<not> bit v (if i_thumb insn then 1 else 0)"
  using assms and_not_low_eq [of v] and_not_low_id [of v]
  by (auto simp: alu_arm_def alu_write_pc_def bx_write_pc_def split: if_splits)

text \<open>A concrete decoder for the examples: register names are their numbers.\<close>

definition demo_isa :: "u8 insn \<Rightarrow> (u8, unit) isa" where
  "demo_isa i = \<lparr>decode = \<lambda>_ _. Inr i, number = id, from_u8 = id\<rparr>"

definition demo_insn :: "opcode \<Rightarrow> u8 operands \<Rightarrow> bool \<Rightarrow> u8 insn" where
  "demo_insn opc ops t =
     \<lparr>i_opcode = opc, i_condition = AL, i_operands = ops, i_thumb = t, i_wide = False\<rparr>"

definition demo_mov :: "u8 insn" where
  "demo_mov = demo_insn OpMOV (Reg 15, Reg 0, Nothing, Nothing) True"

text \<open>\<open>mov pc, r0\<close> in Thumb state with \<open>r0 = 0x1002\<close> is answered \<open>0x1000\<close>.\<close>

theorem alu_write_pc_agrees_iff_witness:
  "(alu_arm (demo_isa demo_mov) (default_context\<lparr>rc_r := replicate 13 0x1002\<rparr>) (0x804, True)
     (demo_insn OpMOV (Reg 15, Reg 0, Nothing, Nothing) True) :: (unit, target) res) \<noteq> Ok (0x1002, True)"
proof -
  let ?A = "demo_isa demo_mov" and ?regs = "default_context\<lparr>rc_r := replicate 13 0x1002\<rparr>"
    and ?insn = "demo_insn OpMOV (Reg 15, Reg 0, Nothing, Nothing) True"
  have "is_pc_destination ?A (fst (i_operands ?insn))"
    "(eval_alu ?A (i_opcode ?insn) (i_operands ?insn) ?regs :: (unit, u32) res) = Ok 0x1002"
    "alu_write_pc (i_thumb ?insn) 0x1002 = Some (0x1002, True)"
    by (simp_all add: is_pc_destination_def demo_insn_def demo_isa_def eval_alu_def value_of_def
        reg_def alu_write_pc_def cond_flags_def)
  from alu_write_pc_agrees_iff [OF this, of "(0x804, True)"] show ?thesis
    by (simp add: demo_insn_def)
qed

section \<open>Alignment\<close>

lemma even_and_not [simp]: "even (v AND - 2)" "even (v AND - 4)" for v :: u32
  by (simp_all add: even_and_iff)

lemma even_interwork: "interwork v = (a, t) \<Longrightarrow> even a"
  by (auto simp: interwork_def)

lemma taken_even:
  assumes "taken A regs mem ft insn = Ok (a, t)" "even (rc_pc regs)" "even (fst ft)"
  shows "even a"
proof (cases "i_opcode insn")
qed (use assms in \<open>auto simp: taken_def arm_defs thumb_branch_target_def and_then_Ok_iff
      split: operand.splits prod.splits if_splits dest!: even_interwork\<close>)

text \<open>
  From a halfword-aligned program counter, every address \<open>next_pc\<close> answers is halfword
  aligned, for every instruction and whatever the memory and the registers hold: the state
  bit never leaks into the address a breakpoint is written to.
\<close>

theorem next_pc_halfword_aligned:
  assumes "next_pc A regs mem = Ok (a, t)" "even (rc_pc regs)"
  shows "even a"
proof -
  obtain insn where step: "(if eval_cond (i_condition insn) regs
      then taken A regs mem (fallthrough_of (insn_addr regs) insn) insn
      else Ok (fallthrough_of (insn_addr regs) insn)) = Ok (a, t)"
    using assms(1) by (auto simp: next_pc_def and_then_Ok_iff Let_def)
  have "even (fst (fallthrough_of (insn_addr regs) insn))"
    using assms(2) by (simp add: fallthrough_of_def insn_addr_def)
  with step assms(2) taken_even [of A regs mem "fallthrough_of (insn_addr regs) insn" insn a t]
  show ?thesis by (cases "eval_cond (i_condition insn) regs") auto
qed

text \<open>\<open>ldr pc, [r0]\<close> of the word \<open>0x1235\<close>: Thumb at \<open>0x1234\<close>.\<close>

definition demo_ldr :: "u8 insn" where
  "demo_ldr = demo_insn OpLDR (Reg 15, RegDeref 0, Nothing, Nothing) False"

theorem next_pc_halfword_aligned_witness:
  "next_pc (demo_isa demo_ldr) (default_context\<lparr>rc_pc := 0x1008\<rparr>) (\<lambda>_ n. Some (to_le n (0x1235 :: u32)))
     = Ok (0x1234, True) \<and> even (0x1234 :: u32)"
proof -
  have n: "next_pc (demo_isa demo_ldr) (default_context\<lparr>rc_pc := 0x1008\<rparr>)
      (\<lambda>_ n. Some (to_le n (0x1235 :: u32))) = Ok (0x1234, True)"
    by (simp add: next_pc_def fetch_def demo_isa_def demo_ldr_def demo_insn_def taken_def ldr_arm_def
        eval_cond_def cond_flags_def is_pc_destination_def effective_address_def reg_def read_u32_def
        interwork_def default_context_def)
  with next_pc_halfword_aligned [OF n] show ?thesis by (simp add: default_context_def)
qed


section \<open>Block loads\<close>

text \<open>
  The architecture stores the listed registers in ascending order at ascending addresses
  from a start address that depends on the addressing mode; the program counter, register
  15, is always the last.
\<close>

definition block_start :: "bool \<Rightarrow> bool \<Rightarrow> u32 \<Rightarrow> nat \<Rightarrow> u32" where
  "block_start add pre base n =
     (if add then (if pre then base + 4 else base)
      else (if pre then base - 4 * of_nat n else base - 4 * of_nat n + 4))"

definition block_slot :: "bool \<Rightarrow> bool \<Rightarrow> u32 \<Rightarrow> u16 \<Rightarrow> nat \<Rightarrow> u32" where
  "block_slot add pre base list i =
     block_start add pre base (count_ones list) + 4 * of_nat (card {j. j < i \<and> bit list j})"

lemma count_ones_card: "count_ones w = card {j. j < LENGTH('a) \<and> bit w j}" for w :: "'a::len word"
proof -
  have "set (filter (bit w) [0..<LENGTH('a)]) = {j. j < LENGTH('a) \<and> bit w j}" by auto
  then show ?thesis
    unfolding count_ones_def by (metis distinct_card distinct_filter distinct_upt)
qed

lemma before_pc: "count_ones (list AND 0x7FFF) = card {j. j < 15 \<and> bit list j}" for list :: u16
proof -
  have "(0x7FFF :: u16) = mask 15" by (simp add: mask_eq_exp_minus_1)
  then have "count_ones (list AND 0x7FFF) = card {j. j < 16 \<and> bit (list AND mask 15) j}"
    by (simp only: count_ones_card) simp
  also have "{j. j < 16 \<and> bit (list AND mask 15) j} = {j. j < 15 \<and> bit list j}"
    by (auto simp: bit_simps)
  finally show ?thesis .
qed

lemma count_with_pc:
  "bit list 15 \<Longrightarrow> count_ones list = Suc (card {j. j < 15 \<and> bit list j})" for list :: u16
proof -
  assume "bit list 15"
  then have "{j. j < 16 \<and> bit list j} = insert 15 {j. j < 15 \<and> bit list j}"
    by (auto simp: less_Suc_eq numeral_eq_Suc)
  then show ?thesis by (simp add: count_ones_card)
qed

text \<open>
  For each of the four addressing modes and for \<open>POP\<close>, if the list names the program
  counter, the address the source loads the new program counter from is the architecture's
  slot of register 15.
\<close>

theorem ldm_loads_pc_slot:
  assumes "bit list 15"
  shows "ldm_pc_addr (OpLDM add pre w u) base list = Ok (block_slot add pre base list 15) \<and>
    ldm_pc_addr OpPOP base list = Ok (block_slot True False base list 15)"
  using count_with_pc [OF assms]
  by (cases add; cases pre) (simp_all add: ldm_pc_addr_def before_pc block_slot_def block_start_def)

text \<open>\<open>ldmdb r0, {r1, pc}\<close> with \<open>r0 = 0x2008\<close> loads the program counter from \<open>0x2004\<close>.\<close>

theorem ldm_loads_pc_slot_witness:
  "(ldm_pc_addr (OpLDM False True False False) 0x2008 0x8002 :: (unit, u32) res) = Ok 0x2004"
proof -
  have "bit (0x8002 :: u16) 15" by simp
  from ldm_loads_pc_slot [OF this, where add = False and pre = True and w = False and u = False and base = "0x2008"]
  have "(ldm_pc_addr (OpLDM False True False False) 0x2008 0x8002 :: (unit, u32) res) =
      Ok (block_slot False True 0x2008 0x8002 15)" by blast
  moreover have "card {j. j < 15 \<and> bit (0x8002 :: u16) j} = 1"
    by (simp only: before_pc [symmetric]) code_simp
  moreover have "count_ones (0x8002 :: u16) = 2" by code_simp
  ultimately show ?thesis by (simp add: block_slot_def block_start_def)
qed

section \<open>Table branches\<close>

text \<open>
  The manual: \<open>TBB\<close> reads a byte at base plus index, \<open>TBH\<close> a halfword at base plus twice the
  index.
\<close>

definition table_entry_addr :: "bool \<Rightarrow> u32 \<Rightarrow> u32 \<Rightarrow> u32" where
  "table_entry_addr half base idx = base + (if half then push_bit 1 idx else idx)"

definition table_target :: "reg_context \<Rightarrow> 'r insn \<Rightarrow> u32 \<Rightarrow> target" where
  "table_target regs insn entry = (rc_pc regs + 2 * entry, i_thumb insn)"

lemma push_bit_two: "push_bit (Suc 0) v = 2 * v" "push_bit 2 v = 4 * v" for v :: u32
  by (simp_all add: push_bit_eq_mult)

lemma double_zero_iff: "2 * v = 0 \<longleftrightarrow> v AND 0x7FFFFFFF = 0" for v :: u32
proof -
  have "push_bit 1 v = 0 \<longleftrightarrow> v AND mask 31 = 0"
  proof
    assume z: "push_bit 1 v = 0"
    show "v AND mask 31 = 0"
    proof (rule bit_word_eqI)
      fix n
      have "bit (push_bit 1 v) (Suc n) \<longleftrightarrow> n < 31 \<and> bit v n"
        unfolding bit_push_bit_iff by (auto dest: bit_imp_le_length)
      then have "\<not> (n < 31 \<and> bit v n)" by (simp only: z) simp
      then show "bit (v AND mask 31) n = bit 0 n" by (auto simp: bit_simps)
    qed
  next
    assume z: "v AND mask 31 = 0"
    show "push_bit 1 v = 0"
    proof (rule bit_word_eqI)
      fix n assume "n < LENGTH(32)"
      then have "bit (push_bit 1 v) n \<Longrightarrow> bit (v AND mask 31) (n - 1)"
        unfolding bit_push_bit_iff by (auto simp: bit_simps)
      with z show "bit (push_bit 1 v) n = bit 0 n" by auto
    qed
  qed
  moreover have "(0x7FFFFFFF :: u32) = mask 31" by (simp add: mask_eq_exp_minus_1)
  ultimately show ?thesis by (simp add: push_bit_eq_mult mult.commute)
qed

text \<open>
  \<open>TBB\<close> jumps by the table entry the architecture names. \<open>TBH\<close> does not: the source
  shifts the index by two, so it reads the halfword at base plus four times the index, and
  that is the architecture's entry only for an index whose low 31 bits are zero.
\<close>

theorem table_branch_entry:
  fixes A :: "('r, 'e) isa"
  assumes "(table_branch_address A (i_operands insn) regs :: ('e next_pc_error, u32 \<times> u32) res) = Ok (base, idx)"
  shows "tbb_arm A regs mem insn =
      and_then (read_u8 mem (table_entry_addr False base idx)) (\<lambda>b. Ok (table_target regs insn (ucast b)))
    \<and> tbh_arm A regs mem insn =
      and_then (read_u16 mem (base + 4 * idx)) (\<lambda>h. Ok (table_target regs insn (ucast h)))
    \<and> (base + 4 * idx = table_entry_addr True base idx \<longleftrightarrow> idx AND 0x7FFFFFFF = 0)"
proof -
  have "4 * idx = 2 * idx \<longleftrightarrow> 2 * idx = 0" by (auto simp: algebra_simps)
  also have "2 * idx = 0 \<longleftrightarrow> idx AND 0x7FFFFFFF = 0" by (rule double_zero_iff)
  finally show ?thesis
    using assms
    by (simp add: tbb_arm_def tbh_arm_def table_entry_addr_def table_target_def push_bit_two
        mult.commute)
qed


theorem table_branch_entry_witness:
  "tbh_arm (demo_isa demo_mov) (default_context\<lparr>rc_r := (replicate 13 0)[0 := 0x1000, 1 := 3], rc_pc := 0x804\<rparr>)
     (\<lambda>a n. if a = table_entry_addr True 0x1000 3 then Some [8, 0] else None)
     (demo_insn OpTBH (Reg 0, Reg 1, Nothing, Nothing) True) = (Err MemoryRead :: (unit next_pc_error, target) res)"
proof -
  let ?A = "demo_isa demo_mov" and ?insn = "demo_insn OpTBH (Reg 0, Reg 1, Nothing, Nothing) True"
    and ?regs = "default_context\<lparr>rc_r := (replicate 13 0)[0 := 0x1000, 1 := 3], rc_pc := 0x804\<rparr>"
  have "(table_branch_address ?A (i_operands ?insn) ?regs :: (unit next_pc_error, u32 \<times> u32) res) =
      Ok (0x1000, 3)"
    by (simp add: table_branch_address_def demo_insn_def demo_isa_def reg_def)
  from table_branch_entry [OF this] show ?thesis
    by (simp add: read_u16_def table_entry_addr_def)
qed


section \<open>Errors\<close>

text \<open>Where an instruction loads its target from: address and size, if it loads one.\<close>

definition ok_value :: "('x, 'a) res \<Rightarrow> 'a option" where
  "ok_value m = (case m of Inr x \<Rightarrow> Some x | Inl _ \<Rightarrow> None)"

definition target_load :: "('r, 'e) isa \<Rightarrow> reg_context \<Rightarrow> 'r insn \<Rightarrow> (u32 \<times> nat) option" where
  "target_load A regs insn = (case i_operands insn of (o0, o1, _, _) \<Rightarrow>
     let ldr = (if is_pc_destination A o0
            then ok_value (and_then (effective_address A o1 regs) (\<lambda>a. Ok (a, 4) :: ('e next_pc_error, _) res)) else None);
         ldm = ok_value (and_then (ldm_operands A insn) (\<lambda>(b, list).
            if bit list 15
            then and_then (reg A regs b) (\<lambda>base.
                 and_then (ldm_pc_addr (i_opcode insn) base list) (\<lambda>a. Ok (a, 4) :: ('e next_pc_error, _) res))
            else panic));
         table = (\<lambda>half. ok_value (and_then (table_branch_address A (i_operands insn) regs)
            (\<lambda>(b, i). Ok (if half then (b + push_bit 2 i, 2) else (b + i, 1)) :: ('e next_pc_error, _) res)))
     in case i_opcode insn of
       OpLDR \<Rightarrow> ldr | OpLDRT \<Rightarrow> ldr | OpLDM _ _ _ _ \<Rightarrow> ldm | OpPOP \<Rightarrow> ldm
     | OpTBB \<Rightarrow> table False | OpTBH \<Rightarrow> table True | _ \<Rightarrow> None)"

text \<open>Computations that use no memory can only succeed or panic.\<close>

lemma reg_no_error: "reg A regs x \<noteq> Err e"
  by (simp add: reg_def Let_def index_def)

lemma value_of_no_error: "value_of A opnd regs \<noteq> Err e"
  by (simp add: value_of_def reg_no_error split: operand.split)

lemma eval_alu_no_error: "eval_alu A opc ops regs \<noteq> Err e"
  by (cases ops, cases opc)
    (auto simp: eval_alu_def and_then_Inl_iff value_of_no_error eval_binary_def Let_def)

lemma effective_address_no_error: "effective_address A opnd regs \<noteq> Err e"
  by (auto simp: effective_address_def reg_no_error and_then_Inl_iff split: operand.split)

lemma table_branch_no_error: "table_branch_address A ops regs \<noteq> Err e"
  by (auto simp: table_branch_address_def reg_no_error and_then_Inl_iff split: operand.splits prod.splits)

lemma ldm_operands_no_error: "ldm_operands A insn \<noteq> Err e"
  by (auto simp: ldm_operands_def split: operand.splits prod.splits if_splits)

lemma ldm_pc_addr_no_error: "ldm_pc_addr opc b l \<noteq> Err e"
  by (auto simp: ldm_pc_addr_def Let_def split: opcode.splits bool.splits)

lemmas no_errors = reg_no_error value_of_no_error eval_alu_no_error effective_address_no_error
  table_branch_no_error ldm_operands_no_error ldm_pc_addr_no_error

lemma read_errors:
  "read_u32 mem a = Err e \<longleftrightarrow> e = MemoryRead \<and> mem a 4 = None"
  "read_u16 mem a = Err e \<longleftrightarrow> e = MemoryRead \<and> mem a 2 = None"
  "read_u8 mem a = Err e \<longleftrightarrow> e = MemoryRead \<and> mem a 1 = None"
  by (cases "mem a 4"; cases "mem a 2"; cases "mem a 1";
      auto simp: read_u32_def read_u16_def read_u8_def index_def)+


lemma ok_value_simps [simp]:
  "ok_value (Inr x) = Some x" "ok_value (Inl e) = None"
  by (simp_all add: ok_value_def)

lemma ok_value_Some: "ok_value m = Some x \<longleftrightarrow> m = Inr x"
  by (cases m) simp_all

lemmas load_facts = taken_def ldr_arm_def ldm_arm_def tbb_arm_def tbh_arm_def target_load_def
  and_then_Inl_iff and_then_Ok_iff no_errors read_errors ok_value_Some Let_def

lemma taken_error:
  fixes A :: "('r, 'e) isa"
  shows "taken A regs mem ft insn = Err e \<longleftrightarrow>
    e = MemoryRead \<and> (\<exists>a n. target_load A regs insn = Some (a, n) \<and> mem a n = None)"
proof -
  obtain o0 o1 o2 o3 where ops: "i_operands insn = (o0, o1, o2, o3)" by (cases "i_operands insn")
  show ?thesis
  proof (cases "i_opcode insn")
    case OpLDR
    then show ?thesis by (auto simp: load_facts ops)
  next
    case OpLDRT
    then show ?thesis by (auto simp: load_facts ops)
  next
    case OpTBB
    then show ?thesis by (auto simp: load_facts ops)
  next
    case OpTBH
    then show ?thesis by (auto simp: load_facts ops)
  next
    case (OpLDM x1 x2 x3 x4)
    then show ?thesis
      by (auto simp: load_facts ops bit_tests simp del: push_bit_of_1 split: if_splits) blast
  next
    case OpPOP
    then show ?thesis
      by (auto simp: load_facts ops bit_tests simp del: push_bit_of_1 split: if_splits) blast
  qed (auto simp: taken_def branch_arm_def blx_arm_def bx_arm_def cbz_arm_def alu_arm_def
      target_load_def ops and_then_Inl_iff no_errors Let_def split: operand.splits if_splits)
qed


text \<open>
  C23: \<open>next_pc\<close> reports a memory error exactly when the four bytes of the instruction cannot be
  read, or when the decoded instruction executes, loads its target from memory and that load
  cannot be read; it reports a decoding error exactly when the decoder refuses the bytes. An
  instruction whose condition fails, or which does not load, needs no memory of its own.
\<close>

theorem next_pc_error_iff:
  "next_pc A regs mem = Err e \<longleftrightarrow> (case e of
     MemoryRead \<Rightarrow> mem (insn_addr regs) 4 = None \<or>
       (\<exists>insn a n. fetch A regs mem = Ok insn \<and> eval_cond (i_condition insn) regs \<and>
          target_load A regs insn = Some (a, n) \<and> mem a n = None)
   | DecodeError d \<Rightarrow> \<exists>bs. mem (insn_addr regs) 4 = Some bs \<and> decode A (thumb regs) bs = Inl d)"
proof (cases "mem (insn_addr regs) 4")
  case None
  then show ?thesis by (cases e) (simp_all add: next_pc_def fetch_def)
next
  case (Some bs)
  show ?thesis
  proof (cases "decode A (thumb regs) bs")
    case (Inl d)
    with Some show ?thesis by (cases e) (auto simp: next_pc_def fetch_def)
  next
    case (Inr insn)
    with Some have "fetch A regs mem = Ok insn" by (simp add: fetch_def)
    with Some Inr show ?thesis
      by (cases e) (auto simp: next_pc_def Let_def taken_error)
  qed
qed

section \<open>Panics\<close>

text \<open>
  The operand shapes the source has an answer for; every other shape of an instruction that
  executes ends in \<open>unreachable!()\<close>.
\<close>

definition plain_value :: "'r operand \<Rightarrow> bool" where
  "plain_value opnd = (case opnd of Reg _ \<Rightarrow> True | Imm12 _ \<Rightarrow> True | Imm32 _ \<Rightarrow> True | _ \<Rightarrow> False)"

definition plain_address :: "'r operand \<Rightarrow> bool" where
  "plain_address opnd = (case opnd of RegDeref _ \<Rightarrow> True | RegDerefPreindexOffset _ _ _ _ \<Rightarrow> True
     | RegDerefPostindexOffset _ _ _ _ \<Rightarrow> True | _ \<Rightarrow> False)"

definition is_reg :: "'r operand \<Rightarrow> bool" where
  "is_reg opnd = (case opnd of Reg _ \<Rightarrow> True | _ \<Rightarrow> False)"

definition is_reg_list :: "'r operand \<Rightarrow> bool" where
  "is_reg_list opnd = (case opnd of RegList _ \<Rightarrow> True | _ \<Rightarrow> False)"

definition is_offset :: "'r operand \<Rightarrow> bool" where
  "is_offset opnd = (case opnd of BranchOffset _ \<Rightarrow> True | BranchThumbOffset _ \<Rightarrow> True | _ \<Rightarrow> False)"

definition unary :: "opcode \<Rightarrow> bool" where
  "unary opc \<longleftrightarrow> opc \<in> {OpMOV, OpADR, OpMVN, OpRRX}"

definition answerable :: "('r, 'e) isa \<Rightarrow> 'r insn \<Rightarrow> bool" where
  "answerable A insn = (case i_operands insn of (o0, o1, o2, _) \<Rightarrow>
     let block = is_reg_list o1 \<and> (is_reg o0 \<or> (\<exists>b w. o0 = RegWBack b w));
         load = is_pc_destination A o0 \<longrightarrow> plain_address o1;
         table = is_reg o0 \<and> is_reg o1 \<or> (\<exists>b i x y. o0 = RegDerefPreindexReg b i x y) \<and> o1 = Nothing;
         cmp = is_reg o0 \<and> (\<exists>v. o1 = Imm32 v)
     in case i_opcode insn of
       OpB \<Rightarrow> is_offset o0 | OpBL \<Rightarrow> is_offset o0
     | OpBLX \<Rightarrow> is_offset o0 \<or> is_reg o0 | OpBX \<Rightarrow> is_reg o0 | OpBXJ \<Rightarrow> is_reg o0
     | OpCBZ \<Rightarrow> cmp | OpCBNZ \<Rightarrow> cmp
     | OpLDR \<Rightarrow> load | OpLDRT \<Rightarrow> load
     | OpLDM _ _ _ _ \<Rightarrow> block | OpPOP \<Rightarrow> is_reg_list o1
     | OpTBB \<Rightarrow> table | OpTBH \<Rightarrow> table
     | OtherOpcode _ \<Rightarrow> True
     | opc \<Rightarrow> is_pc_destination A o0 \<longrightarrow> plain_value o1 \<and> (unary opc \<or> plain_value o2))"

lemmas shape_defs = plain_value_def plain_address_def is_reg_def is_reg_list_def is_offset_def

text \<open>Register numbers are below 16 and the context has its thirteen registers.\<close>

definition wf_isa :: "('r, 'e) isa \<Rightarrow> bool" where
  "wf_isa A \<longleftrightarrow> (\<forall>x. unat (number A x) < 16)"

definition wf_context :: "reg_context \<Rightarrow> bool" where
  "wf_context regs \<longleftrightarrow> length (rc_r regs) = 13"

lemma reg_total: "wf_isa A \<Longrightarrow> wf_context regs \<Longrightarrow> \<exists>v. reg A regs x = Ok v"
proof -
  assume "wf_isa A" "wf_context regs"
  then have "unat (number A x) < 16" "length (rc_r regs) = 13" by (simp_all add: wf_isa_def wf_context_def)
  then show ?thesis by (auto simp: reg_def Let_def)
qed

lemma reg_never_panics:
  assumes "wf_isa A" "wf_context regs"
  shows "(reg A regs x :: ('x, u32) res) \<noteq> panic"
proof -
  from reg_total [OF assms] obtain v where "(reg A regs x :: ('x, u32) res) = Ok v" by blast
  then show ?thesis by simp
qed

lemma effective_address_panic:
  "wf_isa A \<Longrightarrow> wf_context regs \<Longrightarrow> effective_address A opnd regs = panic \<longleftrightarrow> \<not> plain_address opnd"
  by (auto simp: effective_address_def plain_address_def reg_never_panics and_then_Inl_iff split: operand.split)


lemma value_of_not_plain: "\<not> plain_value opnd \<Longrightarrow> value_of A opnd regs = panic"
  by (auto simp: value_of_def plain_value_def split: operand.splits)

lemma value_of_total:
  "wf_isa A \<Longrightarrow> wf_context regs \<Longrightarrow> plain_value opnd \<Longrightarrow> \<exists>v. value_of A opnd regs = Ok v"
  by (auto simp: value_of_def plain_value_def reg_total split: operand.splits)

lemma eval_alu_panic:
  assumes "wf_isa A" "wf_context regs"
  shows "(eval_alu A opc (o0, o1, o2, o3) regs :: ('x, u32) res) = panic \<longleftrightarrow>
    \<not> (plain_value o1 \<and> (unary opc \<or> plain_value o2 \<and> alu_result opc True 0 0 \<noteq> None))"
proof (cases "plain_value o1")
  case False
  then show ?thesis by (simp add: eval_alu_def value_of_not_plain)
next
  case True
  then obtain x where x: "(value_of A o1 regs :: ('x, u32) res) = Ok x"
    using value_of_total [OF assms] by blast
  show ?thesis
  proof (cases "plain_value o2")
    case False
    with x True show ?thesis
      by (cases opc) (simp_all add: eval_alu_def unary_def Let_def value_of_not_plain)
  next
    case y2: True
    then obtain y where "(value_of A o2 regs :: ('x, u32) res) = Ok y"
      using value_of_total [OF assms] by blast
    with x True y2 show ?thesis
      by (cases opc) (simp_all add: eval_alu_def unary_def eval_binary_def alu_result_def Let_def)
  qed
qed

lemma table_branch_panic:
  assumes "wf_isa A" "wf_context regs"
  shows "table_branch_address A (o0, o1, o2, o3) regs = panic \<longleftrightarrow>
    \<not> (is_reg o0 \<and> is_reg o1 \<or> (\<exists>b i x y. o0 = RegDerefPreindexReg b i x y) \<and> o1 = Nothing)"
  by (auto simp: table_branch_address_def is_reg_def and_then_Inl_iff reg_never_panics [OF assms]
      split: operand.splits)

lemma wide_read_never_panics: "read_u32 mem a \<noteq> panic" "read_u16 mem a \<noteq> panic"
  by (simp_all add: read_u32_def read_u16_def and_then_Inl_iff ok_or_def split: option.split)

lemma ldm_operands_panic:
  "ldm_operands A insn = panic \<longleftrightarrow> (case i_operands insn of (o0, o1, _, _) \<Rightarrow>
     \<not> (is_reg_list o1 \<and> (is_reg o0 \<or> (\<exists>b w. o0 = RegWBack b w) \<or> i_opcode insn = OpPOP)))"
  by (auto simp: ldm_operands_def shape_defs split: operand.splits prod.splits if_splits)

lemma ldm_pc_addr_panic:
  "ldm_pc_addr opc b l = panic \<longleftrightarrow> opc \<noteq> OpPOP \<and> (\<forall>x y w u. opc \<noteq> OpLDM x y w u)"
  by (auto simp: ldm_pc_addr_def Let_def split: opcode.splits bool.splits)

lemma taken_panic:
  assumes "wf_isa A" "wf_context regs" "mem_reader mem"
  shows "taken A regs mem ft insn = panic \<longleftrightarrow> \<not> answerable A insn"
proof -
  obtain o0 o1 o2 o3 where ops: "i_operands insn = (o0, o1, o2, o3)" by (cases "i_operands insn")
  note facts = taken_def arm_defs answerable_def and_then_Inl_iff Let_def ops
    reg_never_panics [OF assms(1,2)] eval_alu_panic [OF assms(1,2)]
    effective_address_panic [OF assms(1,2)] table_branch_panic [OF assms(1,2)] ldm_operands_panic
    ldm_pc_addr_panic wide_read_never_panics mem_reader.read_u8_no_panic [OF assms(3)]
  show ?thesis
  proof (cases "i_opcode insn")
    case OpB then show ?thesis by (auto simp: facts shape_defs split: operand.splits)
  next
    case OpBL then show ?thesis by (auto simp: facts shape_defs split: operand.splits)
  next
    case OpBLX then show ?thesis by (auto simp: facts shape_defs split: operand.splits)
  next
    case OpBX then show ?thesis by (auto simp: facts shape_defs split: operand.splits)
  next
    case OpBXJ then show ?thesis by (auto simp: facts shape_defs split: operand.splits)
  next
    case OpCBZ then show ?thesis by (auto simp: facts shape_defs split: operand.splits)
  next
    case OpCBNZ then show ?thesis by (auto simp: facts shape_defs split: operand.splits)
  qed (auto simp: facts alu_result_def unary_def split: if_splits)
qed

text \<open>
  C34: On well-formed register contexts and memory readers, \<open>next_pc\<close> panics exactly when it
  decodes an instruction whose condition holds and whose operands are not of the shapes the
  source has an arm for. In particular a computed jump \<open>ldr pc, [rn, rm]\<close> or an addition of a
  shifted register to the program counter reaches \<open>unreachable!()\<close>, which in the plugin stops
  the console's kernel thread for good.
\<close>

theorem next_pc_panics_iff:
  assumes "wf_isa A" "wf_context regs" "mem_reader mem"
  shows "next_pc A regs mem = panic \<longleftrightarrow>
    (\<exists>insn. fetch A regs mem = Ok insn \<and> eval_cond (i_condition insn) regs \<and> \<not> answerable A insn)"
proof -
  have "fetch A regs mem \<noteq> panic"
    by (auto simp: fetch_def and_then_Inl_iff ok_or_def split: option.split sum.split)
  then show ?thesis
    by (auto simp: next_pc_def and_then_Inl_iff Let_def taken_panic [OF assms] split: if_splits)
qed

theorem next_pc_panics_iff_witness:
  "next_pc (demo_isa (demo_insn OpLDR (Reg 15, RegDerefPreindexReg 0 1 True False, Nothing, Nothing) False))
     default_context (\<lambda>_ n. Some (replicate n 0)) = panic"
proof -
  let ?i = "demo_insn OpLDR (Reg 15, RegDerefPreindexReg 0 1 True False, Nothing, Nothing) False"
    and ?mem = "\<lambda>_ n. Some (replicate n 0)"
  let ?A = "(demo_isa ?i)\<lparr>number := \<lambda>x. x AND 15\<rparr>"
  have "unat (x AND 15) < 16" for x :: u8
    using word_and_le1 [of x 15] by (simp add: word_le_nat_alt)
  then have wf: "wf_isa ?A" "wf_context default_context" "mem_reader ?mem"
    by (simp_all add: wf_isa_def wf_context_def default_context_def mem_reader_def)
  have "fetch ?A default_context ?mem = Ok ?i" "eval_cond (i_condition ?i) default_context"
    "\<not> answerable ?A ?i"
    by (simp_all add: fetch_def demo_isa_def demo_insn_def eval_cond_def cond_flags_def answerable_def
        is_pc_destination_def plain_address_def)
  with next_pc_panics_iff [OF wf] have "next_pc ?A default_context ?mem = panic" by blast
  then show ?thesis
    by (simp add: next_pc_def fetch_def demo_isa_def demo_insn_def taken_def ldr_arm_def
        is_pc_destination_def effective_address_def eval_cond_def cond_flags_def)
qed

end
