(* ===== verification/Armv7.thy ===== *)
theory Armv7
  imports Vg_Prelude
begin

text \<open>
  \<open>vita-gdb/src/gdb/armv7.rs\<close>: the register file GDB is told about. The target description
  is kept as its rows (register name and width in bits, in the order of the XML document);
  the register numbers, their sizes and the byte string of all registers have to agree with
  it, since GDB finds a register by its position alone.
\<close>

section \<open>Target description\<close>

definition core_feature :: "(string \<times> nat) list" where
  "core_feature =
     [(''r0'', 32), (''r1'', 32), (''r2'', 32), (''r3'', 32), (''r4'', 32), (''r5'', 32),
      (''r6'', 32), (''r7'', 32), (''r8'', 32), (''r9'', 32), (''r10'', 32), (''r11'', 32),
      (''r12'', 32), (''sp'', 32), (''lr'', 32), (''pc'', 32), (''cpsr'', 32)]"

definition vfp_feature :: "(string \<times> nat) list" where
  "vfp_feature =
     [(''d0'', 64), (''d1'', 64), (''d2'', 64), (''d3'', 64), (''d4'', 64), (''d5'', 64),
      (''d6'', 64), (''d7'', 64), (''d8'', 64), (''d9'', 64), (''d10'', 64), (''d11'', 64),
      (''d12'', 64), (''d13'', 64), (''d14'', 64), (''d15'', 64), (''d16'', 64), (''d17'', 64),
      (''d18'', 64), (''d19'', 64), (''d20'', 64), (''d21'', 64), (''d22'', 64), (''d23'', 64),
      (''d24'', 64), (''d25'', 64), (''d26'', 64), (''d27'', 64), (''d28'', 64), (''d29'', 64),
      (''d30'', 64), (''d31'', 64), (''fpscr'', 32)]"

definition neon_feature :: "(string \<times> nat) list" where
  "neon_feature = []"

definition target_description :: "(string \<times> nat) list" where
  "target_description = core_feature @ vfp_feature @ neon_feature"

section \<open>Register numbers\<close>

datatype reg_id = Gpr nat | Sp | Lr | Pc | Cpsr | Dpr nat | Fpscr

definition from_raw_id :: "nat \<Rightarrow> (reg_id \<times> nat option) option" where
  "from_raw_id n =
     (let reg = (if n \<le> 12 then Some (Gpr n)
            else if n = 13 then Some Sp
            else if n = 14 then Some Lr
            else if n = 15 then Some Pc
            else if n = 16 then Some Cpsr
            else if n \<le> 48 then Some (Dpr (n - 17))
            else if n = 49 then Some Fpscr
            else None)
      in map_option (\<lambda>reg. (reg, Some (case reg of Dpr _ \<Rightarrow> 8 | _ \<Rightarrow> 4))) reg)"

section \<open>The register file\<close>

record armv7_regs =
  ar_r :: "u32 list"
  ar_sp :: u32
  ar_lr :: u32
  ar_pc :: u32
  ar_cpsr :: u32
  ar_d :: "u64 list"
  ar_fpscr :: u32

definition default_regs :: armv7_regs where
  "default_regs = \<lparr>ar_r = replicate 13 0, ar_sp = 0, ar_lr = 0, ar_pc = 0, ar_cpsr = 0,
     ar_d = replicate 32 0, ar_fpscr = 0\<rparr>"

definition wf_regs :: "armv7_regs \<Rightarrow> bool" where
  "wf_regs s \<longleftrightarrow> length (ar_r s) = 13 \<and> length (ar_d s) = 32"

text \<open>Every byte handed to GDB's callback is a known one (\<open>Some\<close>).\<close>

definition gdb_serialize :: "armv7_regs \<Rightarrow> u8 option list" where
  "gdb_serialize s = map Some
     (concat (map (to_le 4) (ar_r s)) @
      to_le 4 (ar_sp s) @ to_le 4 (ar_lr s) @ to_le 4 (ar_pc s) @ to_le 4 (ar_cpsr s) @
      concat (map (to_le 8) (ar_d s)) @
      to_le 4 (ar_fpscr s))"

definition next_u32 :: "u8 list \<Rightarrow> (u32 \<times> u8 list) option" where
  "next_u32 bs = (if length bs < 4 then None else Some (from_le (take 4 bs), drop 4 bs))"

definition next_u64 :: "u8 list \<Rightarrow> (u64 \<times> u8 list) option" where
  "next_u64 bs = (if length bs < 8 then None else Some (from_le (take 8 bs), drop 8 bs))"

text \<open>
  Deserialising assigns field after field and stops at the first failure, leaving what it
  assigned. A step is one assignment from the front of the remaining bytes.
\<close>

type_synonym load = "armv7_regs \<times> u8 list \<Rightarrow> bool \<times> (armv7_regs \<times> u8 list)"

definition load32 :: "(u32 \<Rightarrow> armv7_regs \<Rightarrow> armv7_regs) \<Rightarrow> load" where
  "load32 assign = (\<lambda>(s, bs). case next_u32 bs of
     None \<Rightarrow> (False, (s, bs)) | Some (v, bs') \<Rightarrow> (True, (assign v s, bs')))"

definition load64 :: "(u64 \<Rightarrow> armv7_regs \<Rightarrow> armv7_regs) \<Rightarrow> load" where
  "load64 assign = (\<lambda>(s, bs). case next_u64 bs of
     None \<Rightarrow> (False, (s, bs)) | Some (v, bs') \<Rightarrow> (True, (assign v s, bs')))"

fun loads :: "load list \<Rightarrow> load" where
  "loads [] st = (True, st)"
| "loads (f # fs) st = (case f st of (False, st') \<Rightarrow> (False, st') | (True, st') \<Rightarrow> loads fs st')"

definition load_r :: "nat \<Rightarrow> load" where
  "load_r i = load32 (\<lambda>v s. s\<lparr>ar_r := (ar_r s)[i := v]\<rparr>)"

definition load_d :: "nat \<Rightarrow> load" where
  "load_d i = load64 (\<lambda>v s. s\<lparr>ar_d := (ar_d s)[i := v]\<rparr>)"

definition expected_len :: nat where
  "expected_len = 17 * 4 + 32 * 8 + 1 * 4"

definition gdb_deserialize :: "armv7_regs \<Rightarrow> u8 list \<Rightarrow> bool \<times> armv7_regs" where
  "gdb_deserialize s bs =
     (if length bs \<noteq> expected_len then (False, s)
      else case loads
         (map load_r [0..<13] @
          [load32 (\<lambda>v s. s\<lparr>ar_sp := v\<rparr>), load32 (\<lambda>v s. s\<lparr>ar_lr := v\<rparr>),
           load32 (\<lambda>v s. s\<lparr>ar_pc := v\<rparr>), load32 (\<lambda>v s. s\<lparr>ar_cpsr := v\<rparr>)] @
          map load_d [0..<32] @
          [load32 (\<lambda>v s. s\<lparr>ar_fpscr := v\<rparr>)]) (s, bs)
       of (ok, (s', rest)) \<Rightarrow> (ok \<and> rest = [], s'))"

section \<open>Deserialising what was serialised\<close>

lemma loads_append:
  "loads (fs @ gs) st = (case loads fs st of (False, st') \<Rightarrow> (False, st') | (True, st') \<Rightarrow> loads gs st')"
  by (induction fs arbitrary: st) (auto split: prod.splits bool.splits)

lemma load32_step [simp]: "load32 f (s, to_le 4 v @ rest) = (True, (f v s, rest))"
  by (simp add: load32_def next_u32_def)

lemma load64_step [simp]: "load64 f (s, to_le 8 v @ rest) = (True, (f v s, rest))"
  by (simp add: load64_def next_u64_def)

lemma loads_r:
  "length (ar_r s) = i + length vs \<Longrightarrow>
     loads (map load_r [i..<i + length vs]) (s, concat (map (to_le 4) vs) @ rest) =
       (True, (s\<lparr>ar_r := take i (ar_r s) @ vs\<rparr>, rest))"
proof (induction vs arbitrary: i s)
  case Nil
  then show ?case by simp
next
  case (Cons v vs)
  from Cons.prems have "[i..<i + length (v # vs)] = i # [Suc i..<Suc i + length vs]"
    by (simp add: upt_conv_Cons del: upt_Suc)
  with Cons.prems Cons.IH [of "s\<lparr>ar_r := (ar_r s)[i := v]\<rparr>" "Suc i"] show ?case
    by (simp add: load_r_def take_Suc_conv_app_nth)
qed

lemma loads_d:
  "length (ar_d s) = i + length vs \<Longrightarrow>
     loads (map load_d [i..<i + length vs]) (s, concat (map (to_le 8) vs) @ rest) =
       (True, (s\<lparr>ar_d := take i (ar_d s) @ vs\<rparr>, rest))"
proof (induction vs arbitrary: i s)
  case Nil
  then show ?case by simp
next
  case (Cons v vs)
  from Cons.prems have "[i..<i + length (v # vs)] = i # [Suc i..<Suc i + length vs]"
    by (simp add: upt_conv_Cons del: upt_Suc)
  with Cons.prems Cons.IH [of "s\<lparr>ar_d := (ar_d s)[i := v]\<rparr>" "Suc i"] show ?case
    by (simp add: load_d_def take_Suc_conv_app_nth)
qed

lemma length_concat_le: "length (concat (map (to_le k) vs)) = length vs * k"
  by (induction vs) simp_all

definition wire :: "armv7_regs \<Rightarrow> u8 list" where
  "wire s = concat (map (to_le 4) (ar_r s)) @
      to_le 4 (ar_sp s) @ to_le 4 (ar_lr s) @ to_le 4 (ar_pc s) @ to_le 4 (ar_cpsr s) @
      concat (map (to_le 8) (ar_d s)) @ to_le 4 (ar_fpscr s)"

lemma serialize_wire: "gdb_serialize s = map Some (wire s)"
  by (simp add: gdb_serialize_def wire_def)

lemma length_wire: "wf_regs s \<Longrightarrow> length (wire s) = expected_len"
  by (simp add: wire_def wf_regs_def length_concat_le expected_len_def)

lemma deserialize_wire:
  assumes "wf_regs s0" "wf_regs s"
  shows "gdb_deserialize s0 (wire s) = (True, s)"
proof -
  have "loads (map load_r [0..<13]) (s0, concat (map (to_le 4) (ar_r s)) @ rest) =
      (True, (s0\<lparr>ar_r := ar_r s\<rparr>, rest))" for rest
    using assms loads_r [of s0 0 "ar_r s" rest] by (simp add: wf_regs_def)
  moreover have "loads (map load_d [0..<32]) (q, concat (map (to_le 8) (ar_d s)) @ rest) =
      (True, (q\<lparr>ar_d := ar_d s\<rparr>, rest))" if "length (ar_d q) = 32" for rest q
    using that assms loads_d [of q 0 "ar_d s" rest] by (simp add: wf_regs_def)
  moreover have "load32 f (q, to_le 4 v) = (True, (f v q, []))" for f q v
    using load32_step [of f q v "[]"] by simp
  ultimately show ?thesis
    using assms length_wire [OF assms(2)]
    by (simp add: gdb_deserialize_def wire_def loads_append wf_regs_def del: upt_rec_numeral)
qed


section \<open>Every register packet is some register file\<close>

definition parse_wire :: "u8 list \<Rightarrow> armv7_regs" where
  "parse_wire bs = (let word32 = (\<lambda>off. from_le (take 4 (drop off bs))) in
     \<lparr>ar_r = map (\<lambda>i. word32 (i * 4)) [0..<13],
      ar_sp = word32 52, ar_lr = word32 56, ar_pc = word32 60, ar_cpsr = word32 64,
      ar_d = map (\<lambda>i. from_le (take 8 (drop (i * 8) (drop 68 bs)))) [0..<32],
      ar_fpscr = word32 324\<rparr>)"

lemma le_chunks:
  assumes "n * k \<le> length bs" "LENGTH('a) = 8 * k"
  shows "concat (map (to_le k) (map (\<lambda>i. from_le (take k (drop (i * k) bs)) :: 'a::len word) [0..<n]))
    = take (n * k) bs"
proof -
  have "to_le k (from_le (take k (drop (i * k) bs)) :: 'a word) = take k (drop (i * k) bs)" if "i < n" for i
  proof -
    from that have "i * k + k \<le> n * k" by (metis Suc_leI mult_Suc add.commute mult_le_mono1)
    with assms show ?thesis by (intro to_le_from_le) simp_all
  qed
  then have "map (to_le k) (map (\<lambda>i. from_le (take k (drop (i * k) bs)) :: 'a word) [0..<n]) =
      map (\<lambda>i. take k (drop (i * k) bs)) [0..<n]" by simp
  then show ?thesis by (simp only: concat_chunks)
qed

lemma wire_parse:
  assumes "length bs = expected_len"
  shows "wire (parse_wire bs) = bs" "wf_regs (parse_wire bs)"
proof -
  have len: "length bs = 328" using assms by (simp add: expected_len_def)
  have "bs = take 52 bs @ take 4 (drop 52 bs) @ take 4 (drop 56 bs) @ take 4 (drop 60 bs) @
      take 4 (drop 64 bs) @ take 256 (drop 68 bs) @ take 4 (drop 324 bs)"
    using len by (simp add: take_add [symmetric] flip: append_assoc)
  moreover have "concat (map (to_le 4) (ar_r (parse_wire bs))) = take 52 bs"
    using le_chunks [of 13 4 bs, where 'a = 32] len by (simp add: parse_wire_def Let_def)
  moreover have "concat (map (to_le 8) (ar_d (parse_wire bs))) = take 256 (drop 68 bs)"
    using le_chunks [of 32 8 "drop 68 bs", where 'a = 64] len
    by (simp add: parse_wire_def Let_def del: drop_drop)
  ultimately show "wire (parse_wire bs) = bs"
    using len by (simp add: wire_def) (simp add: parse_wire_def Let_def)
  show "wf_regs (parse_wire bs)" by (simp add: wf_regs_def parse_wire_def Let_def)
qed

section \<open>Properties\<close>

text \<open>
  C26: The register packet and the register file determine each other. What \<open>gdb_serialize\<close>
  writes, \<open>gdb_deserialize\<close> reads back into any register file; it accepts exactly the packets
  of 328 bytes, a refused packet changes no register, and an accepted one serialises to the
  same bytes again.
\<close>

theorem register_packet_roundtrip:
  assumes "wf_regs s0" "wf_regs s"
  shows "gdb_serialize s = map Some (wire s) \<and> gdb_deserialize s0 (wire s) = (True, s) \<and>
    (case gdb_deserialize s0 bs of (ok, s') \<Rightarrow> ok = (length bs = 328) \<and>
       (if ok then wf_regs s' \<and> gdb_serialize s' = map Some bs else s' = s0))"
proof (cases "length bs = expected_len")
  case True
  with deserialize_wire [OF assms(1) wire_parse(2) [OF True]] wire_parse [OF True]
    deserialize_wire [OF assms]
  show ?thesis by (simp add: serialize_wire expected_len_def)
next
  case False
  with deserialize_wire [OF assms] show ?thesis
    by (simp add: serialize_wire gdb_deserialize_def expected_len_def)
qed

theorem register_packet_roundtrip_witness:
  "gdb_deserialize default_regs (wire (default_regs\<lparr>ar_pc := 0x81000000\<rparr>)) =
     (True, default_regs\<lparr>ar_pc := 0x81000000\<rparr>)"
proof -
  have "wf_regs default_regs" "wf_regs (default_regs\<lparr>ar_pc := 0x81000000\<rparr>)"
    by (simp_all add: wf_regs_def default_regs_def)
  from register_packet_roundtrip [OF this] show ?thesis by blast
qed

text \<open>The bytes of one register, by its number.\<close>

definition reg_bytes :: "armv7_regs \<Rightarrow> reg_id \<Rightarrow> u8 list" where
  "reg_bytes s reg = (case reg of
     Gpr n \<Rightarrow> to_le 4 (ar_r s ! n) | Sp \<Rightarrow> to_le 4 (ar_sp s) | Lr \<Rightarrow> to_le 4 (ar_lr s)
   | Pc \<Rightarrow> to_le 4 (ar_pc s) | Cpsr \<Rightarrow> to_le 4 (ar_cpsr s) | Dpr n \<Rightarrow> to_le 8 (ar_d s ! n)
   | Fpscr \<Rightarrow> to_le 4 (ar_fpscr s))"

lemma upt_50: "[0..<50] = [0..<13] @ [13, 14, 15, 16] @ map (\<lambda>i. i + 17) [0..<32] @ [49 :: nat]"
  by code_simp

lemma from_raw_id_cases:
  "i < 13 \<Longrightarrow> from_raw_id i = Some (Gpr i, Some 4)"
  "from_raw_id 13 = Some (Sp, Some 4)" "from_raw_id 14 = Some (Lr, Some 4)"
  "from_raw_id 15 = Some (Pc, Some 4)" "from_raw_id 16 = Some (Cpsr, Some 4)"
  "i < 32 \<Longrightarrow> from_raw_id (i + 17) = Some (Dpr i, Some 8)"
  "from_raw_id 49 = Some (Fpscr, Some 4)"
  "50 \<le> i \<Longrightarrow> from_raw_id i = None"
  by (simp_all add: from_raw_id_def)

text \<open>
  The three descriptions of the register file agree. Register number \<open>i\<close> exists for
  exactly the rows of the target description, has the width the row promises, and the register
  packet is the registers' bytes in the order of their numbers.
\<close>

theorem register_layout_agrees:
  assumes "wf_regs s"
  shows "map (\<lambda>i. map_option snd (from_raw_id i)) [0..<50] =
      map (\<lambda>(name, bits). Some (Some (bits div 8))) target_description \<and>
    from_raw_id (50 + k) = None \<and>
    gdb_serialize s = map Some (concat (map (\<lambda>i. reg_bytes s (fst (the (from_raw_id i)))) [0..<50]))"
proof -
  have "map (\<lambda>i. map_option snd (from_raw_id i)) [0..<50] =
      map (\<lambda>(name, bits). Some (Some (bits div 8))) target_description"
    by code_simp
  moreover have "map (\<lambda>i. reg_bytes s (fst (the (from_raw_id i)))) [0..<13] = map (to_le 4) (ar_r s)"
    using assms by (intro nth_equalityI) (simp_all add: wf_regs_def from_raw_id_cases reg_bytes_def)
  moreover have "map (\<lambda>i. reg_bytes s (fst (the (from_raw_id (i + 17))))) [0..<32] = map (to_le 8) (ar_d s)"
    using assms by (intro nth_equalityI) (simp_all add: wf_regs_def from_raw_id_cases reg_bytes_def)
  ultimately show ?thesis
    by (simp only: upt_50 map_append concat_append list.map map_map comp_def from_raw_id_cases)
      (simp add: serialize_wire wire_def reg_bytes_def from_raw_id_cases)
qed

theorem register_layout_agrees_witness:
  "from_raw_id 50 = None \<and> wf_regs default_regs"
  using register_layout_agrees [of default_regs 0] by (simp add: wf_regs_def default_regs_def)

end
