(* ===== verification/Writers.thy ===== *)
theory Writers
  imports Vg_Prelude
begin

text \<open>
  The byte-level helpers of \<open>vita-gdb/src/kernel/utils.rs\<close>: \<open>StreamWriter\<close> (a window into
  text that is produced again for every request), \<open>ArgvWriter\<close>, \<open>TitleId\<close> and
  \<open>name_to_str\<close>, with \<open>DebugWriter\<close> of \<open>kernel/printf.rs\<close> as the other implementation of
  \<open>fmt::Write\<close>. Text is a list of bytes; \<open>bytes\<close> reads a literal.
\<close>

definition bytes :: "string \<Rightarrow> u8 list" where
  "bytes s = map of_char s"

section \<open>UTF-8\<close>

text \<open>\<open>core::str::from_utf8\<close> accepts exactly these byte sequences.\<close>

definition cont :: "u8 \<Rightarrow> bool" where
  "cont b \<longleftrightarrow> 0x80 \<le> b \<and> b \<le> 0xBF"

fun utf8_ok :: "u8 list \<Rightarrow> bool" where
  "utf8_ok [] = True"
| "utf8_ok (a # s) =
     (if a < 0x80 then utf8_ok s
      else case s of
        [] \<Rightarrow> False
      | b # s1 \<Rightarrow>
          if 0xC2 \<le> a \<and> a \<le> 0xDF then cont b \<and> utf8_ok s1
          else (case s1 of
            [] \<Rightarrow> False
          | c # s2 \<Rightarrow>
              if a = 0xE0 then 0xA0 \<le> b \<and> b \<le> 0xBF \<and> cont c \<and> utf8_ok s2
              else if a = 0xED then 0x80 \<le> b \<and> b \<le> 0x9F \<and> cont c \<and> utf8_ok s2
              else if 0xE1 \<le> a \<and> a \<le> 0xEF then cont b \<and> cont c \<and> utf8_ok s2
              else (case s2 of
                [] \<Rightarrow> False
              | d # s3 \<Rightarrow>
                  (if a = 0xF0 then 0x90 \<le> b \<and> b \<le> 0xBF
                   else if a = 0xF4 then 0x80 \<le> b \<and> b \<le> 0x8F
                   else 0xF1 \<le> a \<and> a \<le> 0xF3 \<and> cont b) \<and>
                  cont c \<and> cont d \<and> utf8_ok s3)))"

lemma utf8_ascii: "\<forall>b \<in> set s. b < 0x80 \<Longrightarrow> utf8_ok s"
  by (induction s) auto

section \<open>The interface: \<open>fmt::Write\<close>\<close>

text \<open>
  \<open>write_str\<close> consumes a string and may fail. \<open>write!\<close> hands it the pieces of a format string
  one by one and stops at the first failure.
\<close>

fun write_pieces :: "('w \<Rightarrow> u8 list \<Rightarrow> bool \<times> 'w) \<Rightarrow> 'w \<Rightarrow> u8 list list \<Rightarrow> bool \<times> 'w" where
  "write_pieces write_str w [] = (True, w)"
| "write_pieces write_str w (p # ps) =
     (case write_str w p of
        (False, w') \<Rightarrow> (False, w')
      | (True, w') \<Rightarrow> write_pieces write_str w' ps)"

text \<open>Several \<open>write!\<close> calls whose results are ignored (\<open>let _ = write!(..)\<close>).\<close>

fun write_ignoring :: "('w \<Rightarrow> u8 list \<Rightarrow> bool \<times> 'w) \<Rightarrow> 'w \<Rightarrow> u8 list list list \<Rightarrow> 'w" where
  "write_ignoring write_str w [] = w"
| "write_ignoring write_str w (c # cs) = write_ignoring write_str (snd (write_pieces write_str w c)) cs"

locale fmt_write =
  fixes write_str :: "'w \<Rightarrow> u8 list \<Rightarrow> bool \<times> 'w"
  assumes write_nil: "write_str w [] = (True, w)"
    and write_append: "write_str w (s @ t) =
      (if fst (write_str w s) then write_str (snd (write_str w s)) t else write_str w s)"
    and write_stuck: "\<not> fst (write_str w s) \<Longrightarrow>
      snd (write_str (snd (write_str w s)) t) = snd (write_str w s)"
begin

lemma pieces_concat: "write_pieces write_str w ps = write_str w (concat ps)"
proof (induction ps arbitrary: w)
  case Nil
  then show ?case by (simp add: write_nil)
next
  case (Cons p ps)
  then show ?case by (auto simp: write_append split: prod.splits bool.splits)
qed

text \<open>Ignoring failures writes what one write of the whole text would have written.\<close>

lemma ignoring_concat: "write_ignoring write_str w cs = snd (write_str w (concat (concat cs)))"
proof (induction cs arbitrary: w)
  case Nil
  then show ?case by (simp add: write_nil)
next
  case (Cons c cs)
  then show ?case
    using write_stuck [of w "concat c"] by (simp add: pieces_concat write_append)
qed

end

section \<open>\<open>StreamWriter\<close>\<close>

record stream_writer =
  sw_buf :: "u8 list"
  sw_skip :: nat
  sw_written :: nat

definition stream_new :: "u8 list \<Rightarrow> nat \<Rightarrow> stream_writer" where
  "stream_new buf skip = \<lparr>sw_buf = buf, sw_skip = skip, sw_written = 0\<rparr>"

fun stream_write_str :: "stream_writer \<Rightarrow> u8 list \<Rightarrow> bool \<times> stream_writer" where
  "stream_write_str w [] = (True, w)"
| "stream_write_str w (byte # s) =
     (if sw_skip w > 0 then stream_write_str (w\<lparr>sw_skip := sw_skip w - 1\<rparr>) s
      else if sw_written w < length (sw_buf w)
      then stream_write_str
        (w\<lparr>sw_buf := (sw_buf w)[sw_written w := byte], sw_written := sw_written w + 1\<rparr>) s
      else (False, w))"

datatype cstr_error = BufferTooSmall | InvalidNul

text \<open>
  \<open>into_cstr\<close> terminates what was written and hands out the bytes up to the terminator;
  \<open>CStr::from_bytes_with_nul\<close> refuses a byte string with a zero before its end.
\<close>

definition into_cstr :: "stream_writer \<Rightarrow> cstr_error + u8 list" where
  "into_cstr w =
     (if sw_written w < length (sw_buf w)
      then (let buf = (sw_buf w)[sw_written w := 0]; s = take (sw_written w) buf
            in if 0 \<in> set s then Inl InvalidNul else Inr s)
      else Inl BufferTooSmall)"

lemma stream_append:
  "stream_write_str w (s @ t) =
     (if fst (stream_write_str w s) then stream_write_str (snd (stream_write_str w s)) t
      else stream_write_str w s)"
  by (induction w s rule: stream_write_str.induct) simp_all

lemma stream_stuck:
  "\<not> fst (stream_write_str w s) \<Longrightarrow>
     snd (stream_write_str (snd (stream_write_str w s)) t) = snd (stream_write_str w s)"
proof (induction w s rule: stream_write_str.induct)
  case (2 w byte s)
  then show ?case by (cases t) auto
qed simp

interpretation stream: fmt_write stream_write_str
  by unfold_locales (simp_all add: stream_append stream_stuck)

text \<open>\<open>DebugWriter\<close> puts every byte on the debug port and never fails; the port is a byte log.\<close>

definition debug_write_str :: "u8 list \<Rightarrow> u8 list \<Rightarrow> bool \<times> u8 list" where
  "debug_write_str port value = (True, port @ value)"

interpretation debug: fmt_write debug_write_str
  by unfold_locales (simp_all add: debug_write_str_def)

text \<open>
  What one write does: skip first, then fill the buffer, then fail. \<open>sw_window\<close> is the part of
  the text that lands in the buffer.
\<close>

definition sw_window :: "stream_writer \<Rightarrow> u8 list \<Rightarrow> u8 list" where
  "sw_window w s = take (length (sw_buf w) - sw_written w) (drop (sw_skip w) s)"

definition sw_ok :: "stream_writer \<Rightarrow> bool" where
  "sw_ok w \<longleftrightarrow> sw_written w \<le> length (sw_buf w)"

lemma stream_write_effect:
  assumes "sw_ok w"
  shows "snd (stream_write_str w s) =
    \<lparr>sw_buf = take (sw_written w) (sw_buf w) @ sw_window w s @
        drop (sw_written w + length (sw_window w s)) (sw_buf w),
     sw_skip = sw_skip w - length s, sw_written = sw_written w + length (sw_window w s)\<rparr>"
  using assms
proof (induction w s rule: stream_write_str.induct)
  case (1 w)
  then show ?case by (simp add: sw_window_def)
next
  case (2 w byte s)
  show ?case
  proof (cases "sw_skip w > 0")
    case True
    then have "sw_window (w\<lparr>sw_skip := sw_skip w - 1\<rparr>) s = sw_window w (byte # s)"
      by (cases "sw_skip w") (simp_all add: sw_window_def)
    with True "2.IH"(1) "2.prems" show ?thesis by (simp add: sw_ok_def)
  next
    case no_skip: False
    show ?thesis
    proof (cases "sw_written w < length (sw_buf w)")
      case True
      let ?w' = "w\<lparr>sw_buf := (sw_buf w)[sw_written w := byte], sw_written := sw_written w + 1\<rparr>"
      have win: "sw_window w (byte # s) = byte # sw_window ?w' s"
        using True no_skip by (simp add: sw_window_def Suc_diff_Suc [symmetric])
      have "snd (stream_write_str w (byte # s)) = snd (stream_write_str ?w' s)"
        using True no_skip by simp
      with "2.IH"(2) True no_skip win show ?thesis
        by (simp add: sw_ok_def take_Suc_conv_app_nth)
    next
      case False
      with no_skip "2.prems" show ?thesis by (simp add: sw_window_def sw_ok_def)
    qed
  qed
qed


text \<open>The bytes a fresh writer holds after any number of \<open>write!\<close> calls.\<close>

definition produced :: "nat \<Rightarrow> nat \<Rightarrow> u8 list list list \<Rightarrow> u8 list" where
  "produced sz offset calls =
     (let w = write_ignoring stream_write_str (stream_new (replicate sz 0) offset) calls
      in take (sw_written w) (sw_buf w))"

lemma stream_fresh:
  fixes buf skip cs
  defines "w \<equiv> write_ignoring stream_write_str (stream_new buf skip) cs"
    and "chunk \<equiv> take (length buf) (drop skip (concat (concat cs)))"
  shows "sw_written w = length chunk" "sw_buf w = chunk @ drop (length chunk) buf"
    "length (sw_buf w) = length buf"
  using stream_write_effect [of "stream_new buf skip" "concat (concat cs)"]
  by (auto simp: assms stream.ignoring_concat stream_new_def sw_ok_def sw_window_def)

text \<open>
  A \<open>StreamWriter\<close> is a window. However the text is cut into \<open>write!\<close> calls and pieces,
  and although every failure is ignored, the buffer ends up holding exactly the bytes of the
  text from the offset on that fit, and \<open>written\<close> is their number; asking window after window
  gives back the text without gap or overlap.
\<close>

theorem stream_writer_window:
  "produced sz offset calls = take sz (drop offset (concat (concat calls))) \<and>
   concat (map (\<lambda>i. produced sz (i * sz) calls) [0..<n]) = take (n * sz) (concat (concat calls))"
proof -
  have window: "produced sz off calls = take sz (drop off (concat (concat calls)))" for off
    by (auto simp: produced_def Let_def stream_fresh min_def)
  then show ?thesis by (simp add: concat_chunks)
qed

text \<open>
  A path written from the start of a buffer comes back as a C string exactly if it is
  shorter than the buffer and has no zero byte; a path that fills the buffer or more is
  refused, never truncated.
\<close>

theorem into_cstr_of_path:
  "into_cstr (write_ignoring stream_write_str (stream_new buf 0) calls) =
     (let path = concat (concat calls) in
      if length buf \<le> length path then Inl BufferTooSmall
      else if 0 \<in> set path then Inl InvalidNul else Inr path)"
  by (simp add: into_cstr_def stream_fresh Let_def)

section \<open>\<open>ArgvWriter\<close>\<close>

record argv_writer =
  av_buf :: "u8 list"
  av_offset :: nat

definition argv_new :: argv_writer where
  "argv_new = \<lparr>av_buf = replicate 32 0, av_offset = 0\<rparr>"

definition copy_at :: "'a list \<Rightarrow> nat \<Rightarrow> 'a list \<Rightarrow> 'a list" where
  "copy_at buf off data = take off buf @ data @ drop (off + length data) buf"

definition argv_append :: "argv_writer \<Rightarrow> u8 list \<Rightarrow> bool \<times> argv_writer" where
  "argv_append w data =
     (if av_offset w + length data \<ge> length (av_buf w) then (False, w)
      else (True, w\<lparr>av_buf := copy_at (av_buf w) (av_offset w) data,
                    av_offset := av_offset w + (length data + 1)\<rparr>))"

definition argv_add :: "argv_writer \<Rightarrow> u8 list \<Rightarrow> u8 list \<Rightarrow> bool \<times> argv_writer" where
  "argv_add w name val = (case argv_append w name of
     (False, w1) \<Rightarrow> (False, w1)
   | (True, w1) \<Rightarrow> (case argv_append w1 val of
       (False, w2) \<Rightarrow> (False, w2)
     | (True, w2) \<Rightarrow> (True, w2)))"

text \<open>\<open>to_slice\<close> panics if the offset is beyond the buffer.\<close>

definition argv_slice :: "argv_writer \<Rightarrow> ('e, u8 list) res" where
  "argv_slice w = (if av_offset w \<le> length (av_buf w) then Ok (take (av_offset w) (av_buf w)) else panic)"

text \<open>The writer holds some arguments, each terminated by a zero, and zeros after them.\<close>

definition holds_args :: "argv_writer \<Rightarrow> u8 list list \<Rightarrow> bool" where
  "holds_args w args \<longleftrightarrow> (let text = concat (map (\<lambda>a. a @ [0]) args) in
     length text \<le> 32 \<and> av_offset w = length text \<and> av_buf w = text @ replicate (32 - length text) 0)"

lemma holds_new: "holds_args argv_new []"
  by (simp add: holds_args_def argv_new_def)

lemma holds_append:
  assumes "holds_args w args"
  shows "if av_offset w + length data < 32
    then fst (argv_append w data) \<and> holds_args (snd (argv_append w data)) (args @ [data])
    else argv_append w data = (False, w)"
proof -
  let ?text = "concat (map (\<lambda>a. a @ [0]) args)"
  have w: "av_offset w = length ?text" "av_buf w = ?text @ replicate (32 - length ?text) 0"
    "length ?text \<le> 32" using assms by (simp_all add: holds_args_def Let_def)
  have "replicate (32 - (length ?text + length data)) (0 :: u8) =
      0 # replicate (31 - (length ?text + length data)) 0" if "length ?text + length data < 32"
    using that by (simp add: replicate_Suc [symmetric] Suc_diff_le del: replicate_Suc)
  with w show ?thesis
    by (auto simp: argv_append_def holds_args_def copy_at_def)
qed


text \<open>
  \<open>ArgvWriter\<close> never writes outside its 32 bytes and never panics in \<open>to_slice\<close>: if the
  name and the value with their terminators fit, \<open>add\<close> appends exactly both; if only the name
  fits, \<open>add\<close> answers false but the name stays in; otherwise nothing changes.
\<close>

theorem argv_add_effect:
  assumes "holds_args w args"
  shows "case argv_add w name val of (ok, w') \<Rightarrow>
    let free = 32 - av_offset w;
        args' = (if length name + 1 + length val + 1 \<le> free then args @ [name, val]
                 else if length name + 1 \<le> free then args @ [name] else args)
    in ok = (length name + 1 + length val + 1 \<le> free) \<and> holds_args w' args' \<and>
       (argv_slice w' :: ('e, u8 list) res) = Ok (concat (map (\<lambda>a. a @ [0]) args'))"
proof -
  have slice: "holds_args v as \<Longrightarrow> (argv_slice v :: ('e, u8 list) res) = Ok (concat (map (\<lambda>a. a @ [0]) as))" for v as
    by (auto simp: holds_args_def argv_slice_def Let_def)
  have off: "holds_args v as \<Longrightarrow> av_offset v = length (concat (map (\<lambda>a. a @ [0]) as))" for v as
    by (simp add: holds_args_def Let_def)
  let ?w1 = "snd (argv_append w name)"
  show ?thesis
  proof (cases "av_offset w + length name < 32")
    case False
    with holds_append [OF assms, of name] slice [OF assms] assms show ?thesis
      by (auto simp: argv_add_def Let_def)
  next
    case True
    with holds_append [OF assms, of name]
    have h1: "fst (argv_append w name)" "holds_args ?w1 (args @ [name])" by simp_all
    moreover have "av_offset ?w1 = av_offset w + length name + 1"
      using off [OF h1(2)] off [OF assms] by simp
    ultimately show ?thesis
      using holds_append [OF h1(2), of val] True slice [OF h1(2)]
        slice [of "snd (argv_append ?w1 val)" "args @ [name, val]"]
      by (cases "argv_append w name"; cases "argv_append ?w1 val")
        (auto simp: argv_add_def Let_def split: if_splits)
  qed
qed

theorem argv_add_effect_witness:
  "argv_slice (snd (argv_add argv_new (bytes ''-titleid'') (bytes ''MLCL05505''))) =
     (Ok (bytes ''-titleid'' @ [0] @ bytes ''MLCL05505'' @ [0]) :: (unit, u8 list) res)"
  using argv_add_effect [OF holds_new, where 'e = unit and name = "bytes ''-titleid''" and
      val = "bytes ''MLCL05505''"]
  by (simp add: argv_new_def bytes_def split: prod.splits)

section \<open>Names\<close>

definition until_nul :: "u8 list \<Rightarrow> u8 list" where
  "until_nul xs = take (case position (\<lambda>b. b = 0) xs of None \<Rightarrow> length xs | Some n \<Rightarrow> n) xs"

definition name_to_str :: "u8 list \<Rightarrow> u8 list" where
  "name_to_str name = until_nul name"

text \<open>A title id is an array of 16 bytes; a name that is not UTF-8 reads as empty.\<close>

definition titleid_new :: "u8 list" where
  "titleid_new = replicate 16 0"

definition titleid_as_str :: "u8 list \<Rightarrow> u8 list" where
  "titleid_as_str t = (let s = until_nul t in if utf8_ok s then s else [])"

definition titleid_eq_str :: "u8 list \<Rightarrow> u8 list \<Rightarrow> bool" where
  "titleid_eq_str t other \<longleftrightarrow> titleid_as_str t = other"

definition titleid_from_cstr :: "u8 list \<Rightarrow> u8 list" where
  "titleid_from_cstr value = (let len = min (length value) 16 in take len value @ replicate (16 - len) 0)"

lemma until_nul_takeWhile: "until_nul xs = takeWhile (\<lambda>b. b \<noteq> 0) xs"
proof (induction xs)
  case (Cons x xs)
  then show ?case by (auto simp: until_nul_def split: option.splits)
qed (simp add: until_nul_def)

lemma titleid_roundtrip:
  "length s \<le> 16 \<Longrightarrow> 0 \<notin> set s \<Longrightarrow> utf8_ok s \<Longrightarrow> titleid_as_str (titleid_from_cstr s) = s"
proof -
  assume s: "length s \<le> 16" "0 \<notin> set s" "utf8_ok s"
  then have "takeWhile (\<lambda>b. b \<noteq> 0) (s @ replicate (16 - length s) 0) = s"
    by (subst takeWhile_append2) (auto simp: takeWhile_replicate)
  with s show ?thesis by (simp add: titleid_as_str_def titleid_from_cstr_def until_nul_takeWhile Let_def)
qed

end
