(* ===== verification/Spinlock.thy ===== *)
theory Spinlock
  imports Writers
begin

text \<open>
  \<open>kernel/spinlock.rs\<close> and the lock around \<open>println!\<close> (\<open>kernel/printf.rs\<close>). The kernel's two
  lock calls are a parameter; the cores then run their locked sections access by access, in any
  interleaving. What comes out is what the session models rely on: a section runs undisturbed,
  sections take effect in the order in which they got the lock, and interrupts come back as
  they were.
\<close>

section \<open>The lock\<close>

text \<open>
  \<open>low_lock\<close> answers \<open>None\<close> while it would spin; otherwise the new lock word, whether the core
  takes interrupts now, and the interrupt status to give back to \<open>low_unlock\<close>.
\<close>

record lock_calls =
  low_lock :: "i32 \<Rightarrow> bool \<Rightarrow> (i32 \<times> bool \<times> i32) option"
  low_unlock :: "i32 \<Rightarrow> i32 \<Rightarrow> i32 \<times> bool"

record 'a spinlock =
  sl_lock :: i32
  sl_data :: 'a

record spinlock_guard =
  g_intr_status :: i32

definition spinlock_new :: "'a \<Rightarrow> 'a spinlock" where
  "spinlock_new val = \<lparr>sl_lock = 0, sl_data = val\<rparr>"

definition spinlock_lock ::
  "lock_calls \<Rightarrow> bool \<Rightarrow> 'a spinlock \<Rightarrow> (spinlock_guard \<times> bool \<times> 'a spinlock) option" where
  "spinlock_lock L irq s = (case low_lock L (sl_lock s) irq of
     None \<Rightarrow> None
   | Some (l, irq, intr_status) \<Rightarrow> Some (\<lparr>g_intr_status = intr_status\<rparr>, irq, s\<lparr>sl_lock := l\<rparr>))"

definition guard_deref :: "'a spinlock \<Rightarrow> 'a" where
  "guard_deref s = sl_data s"

definition guard_deref_mut :: "('a \<Rightarrow> 'a) \<Rightarrow> 'a spinlock \<Rightarrow> 'a spinlock" where
  "guard_deref_mut f s = s\<lparr>sl_data := f (guard_deref s)\<rparr>"

definition guard_drop :: "lock_calls \<Rightarrow> spinlock_guard \<Rightarrow> 'a spinlock \<Rightarrow> bool \<times> 'a spinlock" where
  "guard_drop L g s = (case low_unlock L (sl_lock s) (g_intr_status g) of (l, irq) \<Rightarrow> (irq, s\<lparr>sl_lock := l\<rparr>))"

text \<open>What the two calls promise: only a free lock is taken, and giving it back undoes taking it.\<close>

definition lock_laws :: "lock_calls \<Rightarrow> bool" where
  "lock_laws L \<longleftrightarrow> (\<forall>l irq. case low_lock L l irq of
     None \<Rightarrow> l \<noteq> 0
   | Some (l', irq', st) \<Rightarrow> l = 0 \<and> l' \<noteq> 0 \<and> \<not> irq' \<and> low_unlock L l' st = (0, irq))"

lemma spinlock_lock_cases:
  assumes "lock_laws L" "spinlock_lock L irq s = Some (g, irq', s')"
  shows "sl_lock s = 0 \<and> sl_lock s' \<noteq> 0 \<and> \<not> irq' \<and> sl_data s' = sl_data s \<and>
    low_unlock L (sl_lock s') (g_intr_status g) = (0, irq)"
proof -
  obtain l st where low: "low_lock L (sl_lock s) irq = Some (l, irq', st)"
      and res: "g = \<lparr>g_intr_status = st\<rparr>" "s' = s\<lparr>sl_lock := l\<rparr>"
    using assms(2) by (auto simp: spinlock_lock_def split: option.splits)
  show ?thesis using assms(1) low res unfolding lock_laws_def
    by (auto dest!: spec [of _ "sl_lock s"] spec [of _ irq])
qed

lemma low_lock_free:
  assumes "lock_laws L" shows "\<exists>l st. low_lock L 0 irq = Some (l, False, st)"
proof (cases "low_lock L 0 irq")
  case None
  with assms show ?thesis unfolding lock_laws_def by (auto dest!: spec [of _ 0] spec [of _ irq])
next
  case (Some r)
  with assms show ?thesis unfolding lock_laws_def by (cases r) (auto dest!: spec [of _ 0] spec [of _ irq])
qed

section \<open>Cores running locked sections\<close>

text \<open>
  A section is the list of its accesses to the data. A core is outside of every section, or
  inside one with its guard and the accesses it has still to make; \<open>before\<close> remembers whether it
  took interrupts when it asked for the lock. \<open>entered\<close> is history: the sections in the order
  in which they got the lock.
\<close>

datatype 'a core = Outside | Inside spinlock_guard (before: bool) (todo: "('a \<Rightarrow> 'a) list")

record 'a cores =
  shared :: "'a spinlock"
  core :: "nat \<Rightarrow> 'a core"
  irqs :: "nat \<Rightarrow> bool"
  entered :: "('a \<Rightarrow> 'a) list list"

definition cores_start :: "'a \<Rightarrow> (nat \<Rightarrow> bool) \<Rightarrow> 'a cores" where
  "cores_start val irq = \<lparr>shared = spinlock_new val, core = \<lambda>_. Outside, irqs = irq, entered = []\<rparr>"

inductive spin_step :: "lock_calls \<Rightarrow> 'a cores \<Rightarrow> 'a cores \<Rightarrow> bool" for L where
  enter: "core w c = Outside \<Longrightarrow> spinlock_lock L (irqs w c) (shared w) = Some (g, irq, s) \<Longrightarrow>
    spin_step L w (w\<lparr>shared := s, core := (core w)(c := Inside g (irqs w c) fs),
      irqs := (irqs w)(c := irq), entered := entered w @ [fs]\<rparr>)"
| access: "core w c = Inside g b (f # fs) \<Longrightarrow>
    spin_step L w (w\<lparr>shared := guard_deref_mut f (shared w), core := (core w)(c := Inside g b fs)\<rparr>)"
| leave: "core w c = Inside g b [] \<Longrightarrow> guard_drop L g (shared w) = (irq, s) \<Longrightarrow>
    spin_step L w (w\<lparr>shared := s, core := (core w)(c := Outside), irqs := (irqs w)(c := irq)\<rparr>)"
| irq_change: "core w c = Outside \<Longrightarrow> spin_step L w (w\<lparr>irqs := (irqs w)(c := x)\<rparr>)"

inductive spin_reachable :: "lock_calls \<Rightarrow> 'a \<Rightarrow> 'a cores \<Rightarrow> bool" for L val where
  spin_begin: "spin_reachable L val (cores_start val irq)"
| spin_run: "spin_reachable L val w \<Longrightarrow> spin_step L w w' \<Longrightarrow> spin_reachable L val w'"

definition run_section :: "('a \<Rightarrow> 'a) list \<Rightarrow> 'a \<Rightarrow> 'a" where
  "run_section fs = fold (\<lambda>f. f) fs"

lemma run_section_simps [simp]: "run_section [] x = x" "run_section (f # fs) x = run_section fs (f x)"
  by (simp_all add: run_section_def)

text \<open>
  The invariant. At most one core is inside; while one is, the lock is taken, the core takes no
  interrupts, its guard brings the interrupts back, and finishing its section gives what
  running all entered sections one after the other gives.
\<close>

definition inside_ok :: "lock_calls \<Rightarrow> 'a \<Rightarrow> 'a cores \<Rightarrow> nat \<Rightarrow> bool" where
  "inside_ok L val w c \<longleftrightarrow> (case core w c of Outside \<Rightarrow> True | Inside g b fs \<Rightarrow>
     sl_lock (shared w) \<noteq> 0 \<and> \<not> irqs w c \<and> low_unlock L (sl_lock (shared w)) (g_intr_status g) = (0, b) \<and>
     (\<forall>d. d \<noteq> c \<longrightarrow> core w d = Outside) \<and>
     run_section fs (sl_data (shared w)) = fold run_section (entered w) val)"

definition spin_inv :: "lock_calls \<Rightarrow> 'a \<Rightarrow> 'a cores \<Rightarrow> bool" where
  "spin_inv L val w \<longleftrightarrow> (\<forall>c. inside_ok L val w c) \<and>
     ((\<forall>c. core w c = Outside) \<longrightarrow> sl_lock (shared w) = 0 \<and> sl_data (shared w) = fold run_section (entered w) val)"

lemma spin_inv_outside:
  assumes "spin_inv L val w" "sl_lock (shared w) = 0" shows "core w c = Outside"
  using assms by (cases "core w c") (auto simp: spin_inv_def inside_ok_def dest!: spec [of _ c])

lemma spin_inv_inside:
  assumes "spin_inv L val w" "core w c = Inside g b fs"
  shows "sl_lock (shared w) \<noteq> 0" "\<not> irqs w c" "low_unlock L (sl_lock (shared w)) (g_intr_status g) = (0, b)"
    "d \<noteq> c \<Longrightarrow> core w d = Outside"
    "run_section fs (sl_data (shared w)) = fold run_section (entered w) val"
  using assms by (auto simp: spin_inv_def inside_ok_def dest!: spec [of _ c])

lemma spin_inv_step:
  assumes "spin_step L w w'" "spin_inv L val w" "lock_laws L"
  shows "spin_inv L val w'"
  using assms(1)
proof (cases rule: spin_step.cases)
  case (enter c g irq s fs)
  note lock = spinlock_lock_cases [OF assms(3) enter(3)]
  then have "core w d = Outside" for d using spin_inv_outside [OF assms(2)] by simp
  with lock enter(1) assms(2) show ?thesis by (simp add: spin_inv_def inside_ok_def)
next
  case (access c g b f fs)
  note ins = spin_inv_inside [OF assms(2) access(2)]
  show ?thesis using ins unfolding spin_inv_def inside_ok_def access(1)
    by (auto simp: guard_deref_mut_def guard_deref_def)
next
  case (leave c g b irq s)
  note ins = spin_inv_inside [OF assms(2) leave(2)]
  show ?thesis using ins leave(3) unfolding spin_inv_def inside_ok_def leave(1)
    by (auto simp: guard_drop_def)
next
  case (irq_change c x)
  have "inside_ok L val w' d" for d
    using assms(2) irq_change by (cases "core w d") (auto simp: inside_ok_def spin_inv_def dest!: spec [of _ d])
  moreover have "core w' = core w" "shared w' = shared w" "entered w' = entered w" by (simp_all add: irq_change(1))
  ultimately show ?thesis using assms(2) by (simp add: spin_inv_def)
qed

lemma spin_inv_reachable:
  assumes "spin_reachable L val w" "lock_laws L" shows "spin_inv L val w"
  using assms
proof (induction rule: spin_reachable.induct)
  case (spin_begin irq)
  show ?case by (simp add: spin_inv_def inside_ok_def cores_start_def spinlock_new_def)
next
  case (spin_run w w')
  show ?case by (rule spin_inv_step [OF spin_run(2) spin_run.IH [OF spin_run.prems] spin_run.prems])
qed

text \<open>A core inside can always finish its section; the lock is free then.\<close>

lemma section_ends:
  assumes "core w c = Inside g b fs" "spin_inv L val w" "lock_laws L"
  shows "\<exists>w'. (spin_step L)\<^sup>*\<^sup>* w w' \<and> core w' = (core w)(c := Outside) \<and> irqs w' = (irqs w)(c := b) \<and>
    entered w' = entered w \<and> sl_lock (shared w') = 0"
  using assms
proof (induction fs arbitrary: w)
  case Nil
  have "guard_drop L g (shared w) = (b, (shared w)\<lparr>sl_lock := 0\<rparr>)"
    using spin_inv_inside(3) [OF Nil(2,1)] by (simp add: guard_drop_def)
  from spin_step.leave [OF Nil(1) this] show ?case by (intro exI [of _ "w\<lparr>shared := (shared w)\<lparr>sl_lock := 0\<rparr>,
    core := (core w)(c := Outside), irqs := (irqs w)(c := b)\<rparr>"]) (simp add: r_into_rtranclp)
next
  case (Cons f fs)
  let ?w = "w\<lparr>shared := guard_deref_mut f (shared w), core := (core w)(c := Inside g b fs)\<rparr>"
  have step: "spin_step L w ?w" using Cons.prems(1) by (rule spin_step.access)
  have "core ?w c = Inside g b fs" by simp
  from Cons.IH [OF this spin_inv_step [OF step Cons.prems(2,3)] Cons.prems(3)]
  obtain w' where w': "(spin_step L)\<^sup>*\<^sup>* ?w w'" "core w' = (core ?w)(c := Outside)" "irqs w' = (irqs ?w)(c := b)"
      "entered w' = entered ?w" "sl_lock (shared w') = 0" by blast
  from step w'(1) have "(spin_step L)\<^sup>*\<^sup>* w w'" by (rule converse_rtranclp_into_rtranclp)
  with w' show ?case by (intro exI [of _ w']) simp
qed

section \<open>Properties\<close>

text \<open>
  C16: Locked sections serialise. At most one core is inside, and it takes no interrupts; it can
  always finish, which frees the lock and gives the core its interrupts back as they were when
  it asked; and whenever no core is inside, the data is what running all the sections one
  after the other, in the order in which they got the lock, makes of the initial value.
\<close>

theorem locked_sections_serialise:
  assumes "lock_laws L" "spin_reachable L val w"
  shows "(core w c = Inside g b fs \<longrightarrow> \<not> irqs w c \<and> (\<forall>d. d \<noteq> c \<longrightarrow> core w d = Outside) \<and>
      (\<exists>w'. (spin_step L)\<^sup>*\<^sup>* w w' \<and> core w' = (\<lambda>_. Outside) \<and> irqs w' = (irqs w)(c := b) \<and>
        sl_lock (shared w') = 0)) \<and>
    ((\<forall>d. core w d = Outside) \<longrightarrow>
      guard_deref (shared w) = fold run_section (entered w) val \<and>
      (\<exists>g' s. spinlock_lock L (irqs w c) (shared w) = Some (g', False, s)))"
proof (intro conjI impI)
  note inv = spin_inv_reachable [OF assms(2,1)]
  assume ins: "core w c = Inside g b fs"
  show "\<not> irqs w c" "\<forall>d. d \<noteq> c \<longrightarrow> core w d = Outside" using spin_inv_inside [OF inv ins] by simp_all
  then have "(core w)(c := Outside) = (\<lambda>_. Outside)" by auto
  with section_ends [OF ins inv assms(1)]
  show "\<exists>w'. (spin_step L)\<^sup>*\<^sup>* w w' \<and> core w' = (\<lambda>_. Outside) \<and> irqs w' = (irqs w)(c := b) \<and>
      sl_lock (shared w') = 0" by auto
next
  assume out: "\<forall>d. core w d = Outside"
  with spin_inv_reachable [OF assms(2,1)]
  show "guard_deref (shared w) = fold run_section (entered w) val" by (simp add: spin_inv_def guard_deref_def)
  have "sl_lock (shared w) = 0" using out spin_inv_reachable [OF assms(2,1)] by (simp add: spin_inv_def)
  then show "\<exists>g' s. spinlock_lock L (irqs w c) (shared w) = Some (g', False, s)"
    using low_lock_free [OF assms(1), of "irqs w c"] by (auto simp: spinlock_lock_def)
qed

text \<open>A lock word of one bit; the status is the interrupt bit.\<close>

definition bit_lock :: lock_calls where
  "bit_lock = \<lparr>low_lock = (\<lambda>l irq. if l = 0 then Some (1, False, of_bool irq) else None),
     low_unlock = (\<lambda>l st. (0, st = 1))\<rparr>"

lemma bit_lock_laws: "lock_laws bit_lock"
  by (simp add: lock_laws_def bit_lock_def)

definition one_inside :: "nat cores" where
  "one_inside = (cores_start 5 (\<lambda>_. True))\<lparr>shared := \<lparr>sl_lock = 1, sl_data = 6\<rparr>,
     core := (\<lambda>_. Outside)(0 := Inside \<lparr>g_intr_status = 1\<rparr> True [(*) 2]), irqs := (\<lambda>_. True)(0 := False),
     entered := [[(+) 1, (*) 2]]\<rparr>"

theorem locked_sections_serialise_witness:
  "spin_reachable bit_lock 5 one_inside \<and> \<not> irqs one_inside 0 \<and>
   (\<exists>w'. (spin_step bit_lock)\<^sup>*\<^sup>* one_inside w' \<and> core w' = (\<lambda>_. Outside) \<and> irqs w' 0)"
proof -
  let ?w = "cores_start (5 :: nat) (\<lambda>_. True)"
  have take: "spinlock_lock bit_lock (irqs ?w 0) (shared ?w) = Some (\<lparr>g_intr_status = 1\<rparr>, False, \<lparr>sl_lock = 1, sl_data = 5\<rparr>)"
    by (simp add: spinlock_lock_def bit_lock_def cores_start_def spinlock_new_def)
  note e = spin_step.enter [OF _ take, of "[(+) 1, (*) 2]"]
  let ?v = "?w\<lparr>shared := \<lparr>sl_lock = 1, sl_data = 5\<rparr>, core := (core ?w)(0 := Inside \<lparr>g_intr_status = 1\<rparr> (irqs ?w 0) [(+) 1, (*) 2]),
      irqs := (irqs ?w)(0 := False), entered := entered ?w @ [[(+) 1, (*) 2]]\<rparr>"
  have "spin_reachable bit_lock 5 ?v" by (rule spin_run [OF spin_begin e]) (simp add: cores_start_def)
  moreover have "spin_step bit_lock ?v one_inside"
    using spin_step.access [of ?v 0 "\<lparr>g_intr_status = 1\<rparr>" True "(+) 1" "[(*) 2]" bit_lock]
    by (simp add: cores_start_def one_inside_def guard_deref_mut_def guard_deref_def)
  ultimately have r: "spin_reachable bit_lock 5 one_inside" by (rule spin_run)
  have "core one_inside 0 = Inside \<lparr>g_intr_status = 1\<rparr> True [(*) 2]" by (simp add: one_inside_def)
  note * = mp [OF conjunct1 [OF locked_sections_serialise [OF bit_lock_laws r]] this]
  then obtain w' where w': "(spin_step bit_lock)\<^sup>*\<^sup>* one_inside w'" "core w' = (\<lambda>_. Outside)"
      "irqs w' = (irqs one_inside)(0 := True)" by blast
  with * r show ?thesis by (intro conjI exI [of _ w']) simp_all
qed

section \<open>\<open>println!\<close>\<close>

text \<open>
  \<open>println!\<close> takes a lock of its own, writes the line byte by byte to the debug port and a
  newline, and gives the lock back. The lock is a bare word; the port is what it protects.
\<close>

definition lock_println :: "lock_calls \<Rightarrow> bool \<Rightarrow> i32 \<Rightarrow> (i32 \<times> bool \<times> i32) option" where
  "lock_println L irq l = low_lock L l irq"

definition println_drop :: "lock_calls \<Rightarrow> i32 \<Rightarrow> i32 \<Rightarrow> i32 \<times> bool" where
  "println_drop L intr_status l = low_unlock L l intr_status"

definition println_section :: "u8 list \<Rightarrow> (u8 list \<Rightarrow> u8 list) list" where
  "println_section line = map (\<lambda>b port. snd (debug_write_str port [b])) (line @ [10])"

lemma println_lock_is_spinlock:
  "spinlock_lock L irq s = map_option (\<lambda>(l, irq, st). (\<lparr>g_intr_status = st\<rparr>, irq, s\<lparr>sl_lock := l\<rparr>)) (lock_println L irq (sl_lock s))"
  "guard_drop L g s = (case println_drop L (g_intr_status g) (sl_lock s) of (l, irq) \<Rightarrow> (irq, s\<lparr>sl_lock := l\<rparr>))"
  by (auto simp: spinlock_lock_def lock_println_def guard_drop_def println_drop_def split: option.splits)

lemma run_println: "run_section (println_section line) port = port @ line @ [10]"
proof -
  have "run_section (map (\<lambda>b port. snd (debug_write_str port [b])) bs) port = port @ bs" for bs port
    by (induction bs arbitrary: port) (simp_all add: debug_write_str_def)
  from this [of "line @ [10]"] show ?thesis by (simp add: println_section_def del: map_append)
qed

text \<open>Lines of different cores never mix.\<close>

lemma println_lines_whole:
  assumes "lock_laws L" "spin_reachable L [] w" "entered w = map println_section lines" "\<forall>c. core w c = Outside"
  shows "guard_deref (shared w) = concat (map (\<lambda>line. line @ [10]) lines)"
proof -
  have "fold run_section (map println_section lines) port = port @ concat (map (\<lambda>line. line @ [10]) lines)" for port
    by (induction lines arbitrary: port) (simp_all add: run_println)
  then show ?thesis
    using spin_inv_reachable [OF assms(2,1)] assms(3,4) by (simp add: spin_inv_def guard_deref_def)
qed

end
