(* ===== verification/Kernel.thy ===== *)
theory Kernel
  imports Writers
begin

text \<open>
  The console's kernel as the stub sees it, and \<open>vita-gdb/src/kernel/utils.rs\<close>,
  \<open>event_flag.rs\<close> on top of it.

  The system calls are not part of the repository: \<open>'w kernel\<close> is a record of them, a
  parameter of every definition that uses one, over an unknown world \<open>'w\<close>. A call takes the
  arguments the source passes and answers its return code, the contents of the memory it was
  given to fill, and the next world. Nothing is assumed about them except where a lemma says so.
\<close>

section \<open>Errors and calls\<close>

datatype sce_error = SceError (code: i32) (func: string)

type_synonym ('w, 'a) act = "'w \<Rightarrow> 'a \<times> 'w"
type_synonym ('w, 'a) sce_act = "'w \<Rightarrow> (sce_error, 'a) res \<times> 'w"
type_synonym ('w, 'o) syscall = "'w \<Rightarrow> (i32 \<times> 'o) \<times> 'w"

text \<open>
  \<open>seq\<close> continues with a value and stops at an error or a panic (the operator \<open>?\<close>); \<open>run\<close>
  sequences calls that cannot fail, or whose failure is ignored.
\<close>

definition seq :: "('s \<Rightarrow> ('e, 'a) res \<times> 's) \<Rightarrow> ('a \<Rightarrow> 's \<Rightarrow> ('e, 'b) res \<times> 's) \<Rightarrow> 's \<Rightarrow> ('e, 'b) res \<times> 's" where
  "seq m f s = (case m s of (Inl e, s') \<Rightarrow> (Inl e, s') | (Inr x, s') \<Rightarrow> f x s')"

definition run :: "('s \<Rightarrow> 'a \<times> 's) \<Rightarrow> ('a \<Rightarrow> 's \<Rightarrow> 'b \<times> 's) \<Rightarrow> 's \<Rightarrow> 'b \<times> 's" where
  "run m f s = (case m s of (x, s') \<Rightarrow> f x s')"

definition ret :: "'a \<Rightarrow> 's \<Rightarrow> ('e, 'a) res \<times> 's" where
  "ret x s = (Ok x, s)"

definition throw :: "('e, 'a) res \<Rightarrow> 's \<Rightarrow> ('e, 'a) res \<times> 's" where
  "throw e s = (e, s)"

text \<open>The macro \<open>sce_call!\<close>: a negative return code is an error that names the function.\<close>

definition sce_call :: "string \<Rightarrow> ('w, 'o) syscall \<Rightarrow> ('w, i32 \<times> 'o) sce_act" where
  "sce_call name call w = (case call w of ((r, out), w') \<Rightarrow>
     (if sint r < 0 then Err (SceError r name) else Ok (r, out), w'))"

named_theorems act_simps \<open>unfolding of sequenced actions\<close>

lemma act_unfold [act_simps]:
  "seq m f s = (case m s of (Inl e, s') \<Rightarrow> (Inl e, s') | (Inr x, s') \<Rightarrow> f x s')"
  "run m g s = (case m s of (x, s') \<Rightarrow> g x s')"
  "ret x s = (Ok x, s)"
  "throw e s = (e, s)"
  by (simp_all add: seq_def run_def ret_def throw_def)

text \<open>A checked call followed by the rest, in one step.\<close>

named_theorems call_simps \<open>stepping through checked calls\<close>

lemma seq_call [call_simps]:
  "seq (sce_call name call) f w =
     (if sint (fst (fst (call w))) < 0 then (Err (SceError (fst (fst (call w))) name), snd (call w))
      else f (fst (call w)) (snd (call w)))"
  by (simp add: seq_def sce_call_def split_beta)

lemma run_step [call_simps]: "run m g s = g (fst (m s)) (snd (m s))"
  by (simp add: run_def split_beta)

lemma final_step [call_simps]: "ret x s = (Ok x, s)" "throw e s = (e, s)"
  by (simp_all add: ret_def throw_def)

lemma sce_call_ok: "call w = ((r, out), w') \<Longrightarrow> 0 \<le> sint r \<Longrightarrow> sce_call name call w = (Ok (r, out), w')"
  by (simp add: sce_call_def)

lemma sce_call_err:
  "call w = ((r, out), w') \<Longrightarrow> sint r < 0 \<Longrightarrow> sce_call name call w = (Err (SceError r name), w')"
  by (simp add: sce_call_def)

section \<open>The system calls\<close>

record cpu_regs =
  cr_r :: "u32 list"
  cr_sp :: u32
  cr_lr :: u32
  cr_pc :: u32
  cr_cpsr :: u32
  cr_fpscr :: u32

record thread_info =
  ti_name :: "u8 list"
  ti_initPriority :: u32
  ti_status :: u32

record segment =
  seg_size :: u32
  seg_vaddr :: u32

record module_info =
  mi_module_name :: "u8 list"
  mi_path :: "u8 list"
  mi_state :: u32
  mi_segments :: "segment list"

text \<open>An address-space context is opaque to the stub.\<close>

type_synonym proc_ctx = "u32 list"

record 'w kernel =
  ksceKernelGetUIDProcessClass :: "('w, u32) act"
  ksceGUIDGetUIDVectorByClass :: "u32 \<Rightarrow> i32 \<Rightarrow> nat \<Rightarrow> ('w, sce_uid list \<times> u32) syscall"
  ksceKernelGetThreadIdList :: "sce_uid \<Rightarrow> nat \<Rightarrow> ('w, sce_uid list \<times> i32) syscall"
  ksceKernelGetModuleList :: "sce_uid \<Rightarrow> i32 \<Rightarrow> i32 \<Rightarrow> nat \<Rightarrow> ('w, sce_uid list \<times> u32) syscall"
  ksceKernelGetThreadInfo :: "sce_uid \<Rightarrow> ('w, thread_info) syscall"
  ksceKernelGetModuleInfo :: "sce_uid \<Rightarrow> sce_uid \<Rightarrow> ('w, module_info) syscall"
  ksceKernelGetModuleIdByPid :: "sce_uid \<Rightarrow> ('w, unit) syscall"
  ksceKernelGetProcessStatus :: "sce_uid \<Rightarrow> ('w, i32) syscall"
  ksceKernelGetThreadContextInfo :: "('w, sce_uid \<times> sce_uid) syscall"
  ksceKernelSysrootGetProcessTitleId :: "sce_uid \<Rightarrow> nat \<Rightarrow> ('w, u8 list) syscall"
  ksceKernelSuspendProcess :: "sce_uid \<Rightarrow> i32 \<Rightarrow> ('w, unit) syscall"
  ksceKernelResumeProcess :: "sce_uid \<Rightarrow> ('w, unit) syscall"
  ksceKernelGetProcessMainThread :: "sce_uid \<Rightarrow> ('w, unit) syscall"
  ksceKernelChangeThreadSuspendStatus :: "sce_uid \<Rightarrow> i32 \<Rightarrow> ('w, unit) syscall"
  ksceKernelDelayThread :: "u32 \<Rightarrow> 'w \<Rightarrow> 'w"
  ksceKernelGetThreadCpuRegisters :: "sce_uid \<Rightarrow> ('w, cpu_regs \<times> cpu_regs) syscall"
  ksceKernelSetThreadCpuRegisters :: "sce_uid \<Rightarrow> cpu_regs \<Rightarrow> u32 \<Rightarrow> ('w, unit) syscall"
  ksceKernelGetVfpRegisterForDebugger :: "sce_uid \<Rightarrow> ('w, u64 list) syscall"
  ksceKernelSetVfpRegisterForDebugger :: "sce_uid \<Rightarrow> u64 list \<Rightarrow> ('w, unit) syscall"
  ksceKernelCopyFromUserProc :: "sce_uid \<Rightarrow> u32 \<Rightarrow> nat \<Rightarrow> ('w, u8 list) syscall"
  ksceKernelCopyToUserProcTextDomain :: "sce_uid \<Rightarrow> u32 \<Rightarrow> u8 list \<Rightarrow> ('w, unit) syscall"
  ksceKernelCpuSuspendIntr :: "('w, i32) act"
  ksceKernelCpuResumeIntr :: "i32 \<Rightarrow> ('w, i32) act"
  ksceKernelProcessGetContext :: "sce_uid \<Rightarrow> ('w, proc_ctx) syscall"
  ksceKernelProcessSwitchContext :: "proc_ctx \<Rightarrow> ('w, proc_ctx) syscall"
  ksceKernelL1IcacheInvalidateEntireAllCore :: "'w \<Rightarrow> 'w"
  sceKernelSetPHBP :: "sce_uid \<Rightarrow> u32 \<Rightarrow> u32 \<Rightarrow> u32 \<Rightarrow> ('w, unit) syscall"
  sceKernelSetPHWP :: "sce_uid \<Rightarrow> u32 \<Rightarrow> u32 \<Rightarrow> u32 \<Rightarrow> ('w, unit) syscall"
  ksceKernelCheckDipsw :: "u32 \<Rightarrow> ('w, i32) act"
  ksceKernelCreateEventFlag :: "string \<Rightarrow> u32 \<Rightarrow> u32 \<Rightarrow> ('w, unit) syscall"
  ksceKernelDeleteEventFlag :: "sce_uid \<Rightarrow> ('w, unit) syscall"
  ksceKernelSetEventFlag :: "sce_uid \<Rightarrow> u32 \<Rightarrow> ('w, unit) syscall"
  ksceKernelClearEventFlag :: "sce_uid \<Rightarrow> u32 \<Rightarrow> ('w, unit) syscall"
  ksceKernelWaitEventFlag :: "sce_uid \<Rightarrow> u32 \<Rightarrow> u32 \<Rightarrow> u32 option \<Rightarrow> ('w, u32) syscall"
  ksceKernelAllocMemBlock :: "string \<Rightarrow> nat \<Rightarrow> u32 \<Rightarrow> ('w, unit) syscall"
  ksceKernelGetMemBlockBase :: "sce_uid \<Rightarrow> ('w, u32) syscall"
  ksceKernelFreeMemBlock :: "sce_uid \<Rightarrow> ('w, unit) syscall"
  ksceAppMgrKillProcess :: "sce_uid \<Rightarrow> ('w, unit) syscall"
  ksceAppMgrLaunchAppByPath :: "u8 list \<Rightarrow> u8 list \<Rightarrow> u32 \<Rightarrow> u32 \<Rightarrow> ('w, unit) syscall"
  read_volatile :: "u32 \<Rightarrow> ('w, u32) act"
  write_volatile :: "u32 \<Rightarrow> u32 \<Rightarrow> 'w \<Rightarrow> 'w"
  wait_timeout_code :: i32

section \<open>Queries\<close>

definition get_process_ids :: "'w kernel \<Rightarrow> ('w, sce_uid list) sce_act" where
  "get_process_ids K = run (ksceKernelGetUIDProcessClass K) (\<lambda>cls.
     seq (sce_call ''ksceGUIDGetUIDVectorByClass'' (ksceGUIDGetUIDVectorByClass K cls 8 16))
       (\<lambda>(_, uids, num). ret (take (unat num) (fill_prefix (replicate 16 0) uids))))"

text \<open>The count is an \<open>i32\<close>; as \<open>usize\<close> a negative one is huge, and the assertion fails.\<close>

definition get_thread_ids :: "'w kernel \<Rightarrow> sce_uid \<Rightarrow> ('w, sce_uid list) sce_act" where
  "get_thread_ids K pid =
     seq (sce_call ''ksceKernelGetThreadIdList'' (ksceKernelGetThreadIdList K pid 64))
       (\<lambda>(_, ids, n). if unat n < 64 then ret (take (unat n) (fill_prefix (replicate 64 0) ids))
          else throw panic)"

definition get_module_ids :: "'w kernel \<Rightarrow> sce_uid \<Rightarrow> ('w, sce_uid list) sce_act" where
  "get_module_ids K pid =
     seq (sce_call ''ksceKernelGetModuleList'' (ksceKernelGetModuleList K pid 0x7fffffff 1 64))
       (\<lambda>(_, ids, n). ret (take (unat n) (fill_prefix (replicate 64 0) ids)))"

definition get_thread_info :: "'w kernel \<Rightarrow> sce_uid \<Rightarrow> ('w, thread_info) sce_act" where
  "get_thread_info K tid =
     seq (sce_call ''ksceKernelGetThreadInfo'' (ksceKernelGetThreadInfo K tid)) (\<lambda>(_, info). ret info)"

definition get_module_info :: "'w kernel \<Rightarrow> sce_uid \<Rightarrow> sce_uid \<Rightarrow> ('w, module_info) sce_act" where
  "get_module_info K pid modid =
     seq (sce_call ''ksceKernelGetModuleInfo'' (ksceKernelGetModuleInfo K pid modid)) (\<lambda>(_, info). ret info)"

definition get_process_status :: "'w kernel \<Rightarrow> sce_uid \<Rightarrow> ('w, u32) sce_act" where
  "get_process_status K pid =
     seq (sce_call ''ksceKernelGetProcessStatus'' (ksceKernelGetProcessStatus K pid))
       (\<lambda>(_, status). ret status)"

text \<open>The current process and thread; the return code is ignored.\<close>

definition get_thread_context_info :: "'w kernel \<Rightarrow> ('w, sce_uid \<times> sce_uid) act" where
  "get_thread_context_info K w = (case ksceKernelGetThreadContextInfo K w of ((_, ids), w') \<Rightarrow> (ids, w'))"

definition get_process_titleid :: "'w kernel \<Rightarrow> sce_uid \<Rightarrow> ('w, u8 list option) act" where
  "get_process_titleid K pid w =
     (if pid = 0x10005 then (Some (titleid_from_cstr (bytes ''kernel'')), w)
      else case sce_call ''ksceKernelSysrootGetProcessTitleId'' (ksceKernelSysrootGetProcessTitleId K pid 16) w of
        (Inl _, w') \<Rightarrow> (None, w')
      | (Inr (_, t), w') \<Rightarrow> (Some (fill_prefix titleid_new t), w'))"


section \<open>Stopping and resuming a process\<close>

definition PROCESS_HALT_STATUS :: i32 where "PROCESS_HALT_STATUS = 0x1C"
definition PROCESS_STATUS_SUSPENDED :: u32 where "PROCESS_STATUS_SUSPENDED = 0x10"

text \<open>The polling loop of \<open>halt_process\<close>; the argument is \<open>1000 - waited\<close>.\<close>

fun wait_suspended :: "'w kernel \<Rightarrow> sce_uid \<Rightarrow> nat \<Rightarrow> ('w, unit) sce_act" where
  "wait_suspended K pid 0 = ret ()"
| "wait_suspended K pid (Suc n) = seq (get_process_status K pid) (\<lambda>s.
     if s AND PROCESS_STATUS_SUSPENDED \<noteq> 0 then ret ()
     else (\<lambda>w. wait_suspended K pid n (ksceKernelDelayThread K 1000 w)))"

definition halt_process :: "'w kernel \<Rightarrow> sce_uid \<Rightarrow> ('w, sce_uid) sce_act" where
  "halt_process K pid = seq (get_process_status K pid) (\<lambda>status.
     seq (if status AND PROCESS_STATUS_SUSPENDED = 0
          then seq (sce_call ''ksceKernelSuspendProcess'' (ksceKernelSuspendProcess K pid PROCESS_HALT_STATUS))
            (\<lambda>_. wait_suspended K pid 1000)
          else ret ())
       (\<lambda>_. seq (sce_call ''ksceKernelGetProcessMainThread'' (ksceKernelGetProcessMainThread K pid))
         (\<lambda>(tid, _). ret tid)))"

text \<open>A failing thread is only logged.\<close>

fun set_suspend_status :: "'w kernel \<Rightarrow> i32 \<Rightarrow> sce_uid list \<Rightarrow> 'w \<Rightarrow> 'w" where
  "set_suspend_status K status [] w = w"
| "set_suspend_status K status (tid # tids) w =
     set_suspend_status K status tids (snd (ksceKernelChangeThreadSuspendStatus K tid status w))"

definition resume_process :: "'w kernel \<Rightarrow> sce_uid \<Rightarrow> ('w, unit) sce_act" where
  "resume_process K pid = seq (get_process_status K pid) (\<lambda>status.
     if status AND PROCESS_STATUS_SUSPENDED = 0 then ret ()
     else seq (get_thread_ids K pid) (\<lambda>tids w.
       seq (sce_call ''ksceKernelResumeProcess'' (ksceKernelResumeProcess K pid)) (\<lambda>_. ret ())
         (set_suspend_status K 2 tids w)))"

section \<open>Physical memory\<close>

definition map_paddr :: "'w kernel \<Rightarrow> string \<Rightarrow> u32 \<Rightarrow> nat \<Rightarrow> ('w, sce_uid \<times> u32) sce_act" where
  "map_paddr K name paddr n =
     seq (sce_call ''ksceKernelAllocMemBlock'' (ksceKernelAllocMemBlock K name n paddr)) (\<lambda>(uid, _).
     seq (sce_call ''ksceKernelGetMemBlockBase'' (ksceKernelGetMemBlockBase K uid)) (\<lambda>(_, base).
     ret (uid, base)))"

definition phys_read32 :: "'w kernel \<Rightarrow> u32 \<Rightarrow> ('w, u32) sce_act" where
  "phys_read32 K addr = seq (map_paddr K ''tmp'' (addr AND NOT 0xfff) 0x1000) (\<lambda>(uid, base).
     run (read_volatile K (base + (addr AND 0xfff))) (\<lambda>value.
     seq (sce_call ''ksceKernelFreeMemBlock'' (ksceKernelFreeMemBlock K uid)) (\<lambda>_. ret value)))"

definition phys_write32 :: "'w kernel \<Rightarrow> u32 \<Rightarrow> u32 \<Rightarrow> ('w, unit) sce_act" where
  "phys_write32 K addr value = seq (map_paddr K ''tmp'' (addr AND NOT 0xfff) 0x1000) (\<lambda>(uid, base) w.
     seq (sce_call ''ksceKernelFreeMemBlock'' (ksceKernelFreeMemBlock K uid)) (\<lambda>_. ret ())
       (write_volatile K (base + (addr AND 0xfff)) value w))"

section \<open>Writing a process's code\<close>

text \<open>
  After the copy the instruction cache is flushed in the process's address space, with
  interrupts off. The context of the kernel itself is saved by the first switch and restored by
  the second.
\<close>

definition write_user_text :: "'w kernel \<Rightarrow> sce_uid \<Rightarrow> u32 \<Rightarrow> u8 list \<Rightarrow> ('w, unit) sce_act" where
  "write_user_text K pid dst buf =
     seq (sce_call ''ksceKernelCopyToUserProcTextDomain'' (ksceKernelCopyToUserProcTextDomain K pid dst buf)) (\<lambda>_.
     run (ksceKernelCpuSuspendIntr K) (\<lambda>intr.
     seq (sce_call ''ksceKernelProcessGetContext'' (ksceKernelProcessGetContext K pid)) (\<lambda>(_, proc_ctx).
     seq (sce_call ''ksceKernelProcessSwitchContext'' (ksceKernelProcessSwitchContext K proc_ctx)) (\<lambda>(_, prev_context) w.
     seq (sce_call ''ksceKernelProcessSwitchContext'' (ksceKernelProcessSwitchContext K prev_context)) (\<lambda>_.
     run (ksceKernelCpuResumeIntr K intr) (\<lambda>_. ret ()))
       (ksceKernelL1IcacheInvalidateEntireAllCore K w)))))"

text \<open>Reading a process's memory into a buffer of \<open>n\<close> zero bytes.\<close>

definition copy_from_user :: "'w kernel \<Rightarrow> sce_uid \<Rightarrow> u32 \<Rightarrow> nat \<Rightarrow> ('w, u8 list) sce_act" where
  "copy_from_user K pid src n =
     seq (sce_call ''ksceKernelCopyFromUserProc'' (ksceKernelCopyFromUserProc K pid src n))
       (\<lambda>(_, data). ret (fill_prefix (replicate n 0) data))"

section \<open>Event flags\<close>

text \<open>An \<open>EventFlagRef\<close> is the id of the flag; \<open>WAITCLEAR_PAT\<close> clears the bits waited for.\<close>

definition evf_set :: "'w kernel \<Rightarrow> sce_uid \<Rightarrow> u32 \<Rightarrow> ('w, unit) sce_act" where
  "evf_set K evfid bits =
     seq (sce_call ''ksceKernelSetEventFlag'' (ksceKernelSetEventFlag K evfid bits)) (\<lambda>_. ret ())"

definition evf_clear :: "'w kernel \<Rightarrow> sce_uid \<Rightarrow> u32 \<Rightarrow> ('w, unit) sce_act" where
  "evf_clear K evfid bits =
     seq (sce_call ''ksceKernelClearEventFlag'' (ksceKernelClearEventFlag K evfid (NOT bits))) (\<lambda>_. ret ())"

definition evf_wait_timeout ::
  "'w kernel \<Rightarrow> sce_uid \<Rightarrow> u32 \<Rightarrow> u32 \<Rightarrow> u32 \<Rightarrow> ('w, u32 option) sce_act" where
  "evf_wait_timeout K evfid bits wait timeout w =
     (case sce_call ''ksceKernelWaitEventFlag'' (ksceKernelWaitEventFlag K evfid bits wait (Some timeout)) w of
        (Inr (_, out), w') \<Rightarrow> (Ok (Some out), w')
      | (Inl (Error err), w') \<Rightarrow>
          (if code err = wait_timeout_code K then Ok None else Err err, w')
      | (Inl Panicked, w') \<Rightarrow> (panic, w'))"

definition evf_wait :: "'w kernel \<Rightarrow> sce_uid \<Rightarrow> u32 \<Rightarrow> u32 \<Rightarrow> ('w, u32) sce_act" where
  "evf_wait K evfid bits wait =
     seq (sce_call ''ksceKernelWaitEventFlag'' (ksceKernelWaitEventFlag K evfid bits wait None))
       (\<lambda>(_, out). ret out)"

definition evf_new :: "'w kernel \<Rightarrow> string \<Rightarrow> ('w, sce_uid) sce_act" where
  "evf_new K name =
     seq (sce_call ''ksceKernelCreateEventFlag'' (ksceKernelCreateEventFlag K name 0x1000 0))
       (\<lambda>(evfid, _). ret evfid)"

text \<open>\<open>delete\<close> of an owning \<open>EventFlag\<close> (also its \<open>Drop\<close>): the id becomes 0 once deleted.\<close>

definition evf_delete :: "'w kernel \<Rightarrow> sce_uid \<Rightarrow> ('w, sce_uid) sce_act" where
  "evf_delete K evfid =
     (if evfid \<noteq> 0
      then seq (sce_call ''ksceKernelDeleteEventFlag'' (ksceKernelDeleteEventFlag K evfid)) (\<lambda>_. ret 0)
      else ret evfid)"

section \<open>A kernel for examples\<close>

text \<open>
  A small concrete kernel the witnesses run on: byte memory, interrupts, a process that
  reports itself suspended some ticks after it was asked to, and a set of calls that fail.
\<close>

record demo =
  d_mem :: "sce_uid \<Rightarrow> u32 \<Rightarrow> u8"
  d_irq :: bool
  d_suspend_at :: nat
  d_clock :: nat
  d_suspending :: bool
  d_flag :: u32
  d_cpu :: "sce_uid \<Rightarrow> cpu_regs"
  d_threads :: "sce_uid \<Rightarrow> i32"
  d_bp_regs :: "sce_uid \<Rightarrow> u32 \<Rightarrow> u32 \<times> u32"
  d_wp_regs :: "sce_uid \<Rightarrow> u32 \<Rightarrow> u32 \<times> u32"
  d_broken :: "string set"

definition reply :: "string \<Rightarrow> 'o \<Rightarrow> (demo \<Rightarrow> demo) \<Rightarrow> (demo, 'o) syscall" where
  "reply name out f w = (if name \<in> d_broken w then ((- 1, out), w) else ((0, out), f w))"

definition demo_status :: "demo \<Rightarrow> i32" where
  "demo_status w = (if d_suspending w \<and> d_suspend_at w \<le> d_clock w then 0x10 else 0)"

definition poke :: "(u32 \<Rightarrow> u8) \<Rightarrow> u32 \<Rightarrow> u8 list \<Rightarrow> u32 \<Rightarrow> u8" where
  "poke m a bs = (\<lambda>x. if unat (x - a) < length bs then bs ! unat (x - a) else m x)"

definition peek :: "(u32 \<Rightarrow> u8) \<Rightarrow> u32 \<Rightarrow> nat \<Rightarrow> u8 list" where
  "peek m a n = map (\<lambda>i. m (a + of_nat i)) [0..<n]"

definition empty_cpu_regs :: cpu_regs where
  "empty_cpu_regs = \<lparr>cr_r = replicate 13 0, cr_sp = 0, cr_lr = 0, cr_pc = 0, cr_cpsr = 0x10, cr_fpscr = 0\<rparr>"

definition demo_kernel :: "demo kernel" where
  "demo_kernel = \<lparr>
     ksceKernelGetUIDProcessClass = (\<lambda>w. (0, w)),
     ksceGUIDGetUIDVectorByClass = (\<lambda>_ _ _. reply ''ksceGUIDGetUIDVectorByClass'' ([0x10005], 1) id),
     ksceKernelGetThreadIdList = (\<lambda>_ _. reply ''ksceKernelGetThreadIdList'' ([7, 8], 2) id),
     ksceKernelGetModuleList = (\<lambda>_ _ _ _. reply ''ksceKernelGetModuleList'' ([], 0) id),
     ksceKernelGetThreadInfo = (\<lambda>_. reply ''ksceKernelGetThreadInfo''
       \<lparr>ti_name = replicate 32 0, ti_initPriority = 0, ti_status = 0\<rparr> id),
     ksceKernelGetModuleInfo = (\<lambda>_ _. reply ''ksceKernelGetModuleInfo''
       \<lparr>mi_module_name = replicate 28 0, mi_path = replicate 256 0, mi_state = 0, mi_segments = []\<rparr> id),
     ksceKernelGetModuleIdByPid = (\<lambda>_. reply ''ksceKernelGetModuleIdByPid'' () id),
     ksceKernelGetProcessStatus = (\<lambda>_ w. ((0, demo_status w), w)),
     ksceKernelGetThreadContextInfo = reply ''ksceKernelGetThreadContextInfo'' (5, 7) id,
     ksceKernelSysrootGetProcessTitleId = (\<lambda>_ _. reply ''ksceKernelSysrootGetProcessTitleId'' [] id),
     ksceKernelSuspendProcess = (\<lambda>_ _. reply ''ksceKernelSuspendProcess'' () (d_suspending_update (\<lambda>_. True))),
     ksceKernelResumeProcess = (\<lambda>_. reply ''ksceKernelResumeProcess'' () (d_suspending_update (\<lambda>_. False))),
     ksceKernelGetProcessMainThread = (\<lambda>_. reply ''ksceKernelGetProcessMainThread'' () id),
     ksceKernelChangeThreadSuspendStatus = (\<lambda>_ _. reply ''ksceKernelChangeThreadSuspendStatus'' () id),
     ksceKernelDelayThread = (\<lambda>_. d_clock_update Suc),
     ksceKernelGetThreadCpuRegisters = (\<lambda>tid w. reply ''ksceKernelGetThreadCpuRegisters'' (d_cpu w tid, empty_cpu_regs) id w),
     ksceKernelSetThreadCpuRegisters = (\<lambda>_ _ _. reply ''ksceKernelSetThreadCpuRegisters'' () id),
     ksceKernelGetVfpRegisterForDebugger = (\<lambda>_. reply ''ksceKernelGetVfpRegisterForDebugger'' (replicate 32 0) id),
     ksceKernelSetVfpRegisterForDebugger = (\<lambda>_ _. reply ''ksceKernelSetVfpRegisterForDebugger'' () id),
     ksceKernelCopyFromUserProc = (\<lambda>p a n w. reply ''ksceKernelCopyFromUserProc'' (peek (d_mem w p) a n) id w),
     ksceKernelCopyToUserProcTextDomain = (\<lambda>p a bs.
       reply ''ksceKernelCopyToUserProcTextDomain'' () (d_mem_update (\<lambda>m. m(p := poke (m p) a bs)))),
     ksceKernelCpuSuspendIntr = (\<lambda>w. (if d_irq w then 1 else 0, w\<lparr>d_irq := False\<rparr>)),
     ksceKernelCpuResumeIntr = (\<lambda>old w. (0, w\<lparr>d_irq := (old = 1)\<rparr>)),
     ksceKernelProcessGetContext = (\<lambda>_. reply ''ksceKernelProcessGetContext'' [1] id),
     ksceKernelProcessSwitchContext = (\<lambda>_. reply ''ksceKernelProcessSwitchContext'' [0] id),
     ksceKernelL1IcacheInvalidateEntireAllCore = id,
     sceKernelSetPHBP = (\<lambda>p i a c. reply ''sceKernelSetPHBP'' ()
       (d_bp_regs_update (\<lambda>r. r(p := (r p)(i := (a, c)))))),
     sceKernelSetPHWP = (\<lambda>p i a c. reply ''sceKernelSetPHWP'' ()
       (d_wp_regs_update (\<lambda>r. r(p := (r p)(i := (a, c)))))),
     ksceKernelCheckDipsw = (\<lambda>_ w. (1, w)),
     ksceKernelCreateEventFlag = (\<lambda>_ _ _. reply ''ksceKernelCreateEventFlag'' () id),
     ksceKernelDeleteEventFlag = (\<lambda>_. reply ''ksceKernelDeleteEventFlag'' () id),
     ksceKernelSetEventFlag = (\<lambda>_ bits. reply ''ksceKernelSetEventFlag'' () (d_flag_update (\<lambda>f. f OR bits))),
     ksceKernelClearEventFlag = (\<lambda>_ bits. reply ''ksceKernelClearEventFlag'' () (d_flag_update (\<lambda>f. f AND bits))),
     ksceKernelWaitEventFlag = (\<lambda>_ _ _ _. reply ''ksceKernelWaitEventFlag'' 0 id),
     ksceKernelAllocMemBlock = (\<lambda>_ _ _. reply ''ksceKernelAllocMemBlock'' () id),
     ksceKernelGetMemBlockBase = (\<lambda>_. reply ''ksceKernelGetMemBlockBase'' 0 id),
     ksceKernelFreeMemBlock = (\<lambda>_. reply ''ksceKernelFreeMemBlock'' () id),
     ksceAppMgrKillProcess = (\<lambda>_. reply ''ksceAppMgrKillProcess'' () id),
     ksceAppMgrLaunchAppByPath = (\<lambda>_ _ _ _. reply ''ksceAppMgrLaunchAppByPath'' () id),
     read_volatile = (\<lambda>_ w. (0, w)),
     write_volatile = (\<lambda>_ _. id),
     wait_timeout_code = - 2\<rparr>"

definition demo_world :: demo where
  "demo_world = \<lparr>d_mem = \<lambda>_ _. 0, d_irq = True, d_suspend_at = 3, d_clock = 0, d_suspending = False,
     d_flag = 0, d_cpu = \<lambda>_. empty_cpu_regs, d_threads = \<lambda>_. 2, d_bp_regs = \<lambda>_ _. (0, 0), d_wp_regs = \<lambda>_ _. (0, 0), d_broken = {}\<rparr>"

lemmas demo_defs = demo_kernel_def demo_world_def reply_def demo_status_def

text \<open>The same without failures in what reading and writing code needs.\<close>

definition sound_kernel :: "demo kernel" where
  "sound_kernel = demo_kernel\<lparr>
     ksceKernelCopyFromUserProc := \<lambda>p a n w. ((0, peek (d_mem w p) a n), w),
     ksceKernelCopyToUserProcTextDomain := \<lambda>p a bs w. ((0, ()), w\<lparr>d_mem := (d_mem w)(p := poke (d_mem w p) a bs)\<rparr>),
     ksceKernelProcessGetContext := \<lambda>_ w. ((0, [1]), w),
     ksceKernelProcessSwitchContext := \<lambda>_ w. ((0, [0]), w),
     sceKernelSetPHBP := \<lambda>_ _ _ _ w. ((0, ()), w)\<rparr>"

end
