(* ===== verification/Kernel_Props.thy ===== *)
theory Kernel_Props
  imports Kernel
begin

text \<open>
  What the helpers of \<open>kernel/utils.rs\<close> guarantee of any kernel that behaves as documented:
  the polling loop of \<open>halt_process\<close>, the interrupt state around \<open>write_user_text\<close>, and the
  effect of reading and writing a process's memory, which the breakpoint code builds on.
\<close>

section \<open>User memory\<close>

lemma length_peek [simp]: "length (peek m a n) = n"
  by (simp add: peek_def)

lemma add_of_nat_sub [simp]: "unat ((a :: u32) + of_nat i - a) = i" if "i < 2 ^ 32"
  using that by (simp add: unat_of_nat take_bit_nat_eq_self)

lemma peek_poke_same: "length bs \<le> 2 ^ 32 \<Longrightarrow> peek (poke m a bs) a (length bs) = bs"
  by (intro nth_equalityI) (simp_all add: peek_def poke_def unat_of_nat take_bit_nat_eq_self)

lemma word_offset: "a + of_nat (unat (x - a)) = x" for a x :: u32
  by simp

text \<open>Putting back the bytes that were there before undoes a write of the same size.\<close>

lemma poke_undo: "length bs = n \<Longrightarrow> poke (poke m a bs) a (peek m a n) = m"
proof
  fix x assume "length bs = n"
  then show "poke (poke m a bs) a (peek m a n) x = m x"
    by (simp add: poke_def peek_def)
qed

lemma poke_peek: "poke m a (peek m a n) = m"
  by (rule ext) (simp add: poke_def peek_def)

text \<open>
  The kernel calls that move bytes, as documented: a successful read returns the bytes of the
  process, a successful write changes exactly the addressed ones, and a failing call, like the
  other calls the stub makes around them, leaves every process's memory alone.
\<close>

definition keeps_mem :: "('w \<Rightarrow> 'm) \<Rightarrow> ('w \<Rightarrow> 'a \<times> 'w) \<Rightarrow> bool" where
  "keeps_mem mem f \<longleftrightarrow> (\<forall>w. mem (snd (f w)) = mem w)"

definition reads_mem :: "('w \<Rightarrow> sce_uid \<Rightarrow> u32 \<Rightarrow> u8) \<Rightarrow> 'w kernel \<Rightarrow> bool" where
  "reads_mem mem K \<longleftrightarrow> (\<forall>pid a n w. case ksceKernelCopyFromUserProc K pid a n w of ((r, data), w') \<Rightarrow>
     mem w' = mem w \<and> (0 \<le> sint r \<longrightarrow> data = peek (mem w pid) a n))"

definition writes_mem :: "('w \<Rightarrow> sce_uid \<Rightarrow> u32 \<Rightarrow> u8) \<Rightarrow> 'w kernel \<Rightarrow> bool" where
  "writes_mem mem K \<longleftrightarrow> (\<forall>pid a bs w. case ksceKernelCopyToUserProcTextDomain K pid a bs w of ((r, _), w') \<Rightarrow>
     mem w' = (if 0 \<le> sint r then (mem w)(pid := poke (mem w pid) a bs) else mem w))"

definition quiet_mem :: "('w \<Rightarrow> sce_uid \<Rightarrow> u32 \<Rightarrow> u8) \<Rightarrow> 'w kernel \<Rightarrow> bool" where
  "quiet_mem mem K \<longleftrightarrow>
     keeps_mem mem (ksceKernelCpuSuspendIntr K) \<and> (\<forall>i. keeps_mem mem (ksceKernelCpuResumeIntr K i)) \<and>
     (\<forall>p. keeps_mem mem (ksceKernelProcessGetContext K p)) \<and>
     (\<forall>c. keeps_mem mem (ksceKernelProcessSwitchContext K c)) \<and>
     (\<forall>w. mem (ksceKernelL1IcacheInvalidateEntireAllCore K w) = mem w) \<and>
     (\<forall>e b. keeps_mem mem (ksceKernelSetEventFlag K e b)) \<and>
     (\<forall>e b. keeps_mem mem (ksceKernelClearEventFlag K e b)) \<and>
     (\<forall>p i a c. keeps_mem mem (sceKernelSetPHBP K p i a c)) \<and>
     (\<forall>p i a c. keeps_mem mem (sceKernelSetPHWP K p i a c)) \<and>
     (\<forall>t s. keeps_mem mem (ksceKernelChangeThreadSuspendStatus K t s)) \<and>
     (\<forall>p s. keeps_mem mem (ksceKernelSuspendProcess K p s)) \<and>
     (\<forall>p. keeps_mem mem (ksceKernelResumeProcess K p)) \<and>
     (\<forall>p. keeps_mem mem (ksceKernelGetProcessStatus K p)) \<and>
     (\<forall>p n. keeps_mem mem (ksceKernelGetThreadIdList K p n)) \<and>
     (\<forall>d. keeps_mem mem (ksceKernelCheckDipsw K d))"

definition memory_laws :: "('w \<Rightarrow> sce_uid \<Rightarrow> u32 \<Rightarrow> u8) \<Rightarrow> 'w kernel \<Rightarrow> bool" where
  "memory_laws mem K \<longleftrightarrow> reads_mem mem K \<and> writes_mem mem K \<and> quiet_mem mem K"

lemmas memory_defs = memory_laws_def reads_mem_def writes_mem_def quiet_mem_def keeps_mem_def

lemma copy_from_user_effect:
  assumes "memory_laws mem K" "copy_from_user K pid a n w = (res, w')"
  shows "mem w' = mem w" "res = Ok bs \<Longrightarrow> bs = peek (mem w pid) a n"
  using assms
  by (auto simp: copy_from_user_def act_simps sce_call_def memory_laws_def reads_mem_def
      split: prod.splits sum.splits if_splits)
    (fastforce simp: split_def)+

text \<open>Memory is kept by sequences of calls that keep it.\<close>

named_theorems keeps_intros \<open>actions that leave user memory alone\<close>

lemma keeps_sce_call [keeps_intros]: "keeps_mem mem c \<Longrightarrow> keeps_mem mem (sce_call name c)"
  by (simp add: keeps_mem_def sce_call_def split_beta)

lemma keeps_run [keeps_intros]:
  "keeps_mem mem h \<Longrightarrow> (\<And>x. keeps_mem mem (g x)) \<Longrightarrow> keeps_mem mem (run h g)"
  by (simp add: keeps_mem_def run_def split_beta)

lemma keeps_seq [keeps_intros]:
  assumes "keeps_mem mem m" "\<And>x. keeps_mem mem (f x)" shows "keeps_mem mem (seq m f)"
  unfolding keeps_mem_def
proof
  fix w
  show "mem (snd (seq m f w)) = mem w"
    using assms by (cases "m w"; cases "fst (m w)") (auto simp: keeps_mem_def seq_def dest: spec [of _ w])
qed

lemma keeps_final [keeps_intros]: "keeps_mem mem (ret v)" "keeps_mem mem (throw e)"
  by (simp_all add: keeps_mem_def act_simps)

lemma quiet_calls [keeps_intros]:
  assumes "memory_laws mem K"
  shows "keeps_mem mem (ksceKernelCpuSuspendIntr K)" "keeps_mem mem (ksceKernelCpuResumeIntr K i)"
    "keeps_mem mem (ksceKernelProcessGetContext K p)"
    "keeps_mem mem (ksceKernelProcessSwitchContext K c)"
    "keeps_mem mem (ksceKernelSetEventFlag K e b)" "keeps_mem mem (ksceKernelClearEventFlag K e b)"
    "keeps_mem mem (sceKernelSetPHBP K p j a ctl)" "keeps_mem mem (sceKernelSetPHWP K p j a ctl)"
    "keeps_mem mem (ksceKernelChangeThreadSuspendStatus K t st)"
    "keeps_mem mem (ksceKernelResumeProcess K p)" "keeps_mem mem (ksceKernelGetProcessStatus K p)"
    "keeps_mem mem (ksceKernelGetThreadIdList K p n)"
    "keeps_mem mem (ksceKernelSuspendProcess K p st)" "keeps_mem mem (ksceKernelCheckDipsw K d)"
  using assms by (simp_all add: memory_laws_def quiet_mem_def)

lemma icache_keeps [simp]:
  "memory_laws mem K \<Longrightarrow> mem (ksceKernelL1IcacheInvalidateEntireAllCore K w) = mem w"
  by (simp add: memory_laws_def quiet_mem_def)

lemma keeps_after_icache [keeps_intros]:
  "memory_laws mem K \<Longrightarrow> keeps_mem mem f \<Longrightarrow>
     keeps_mem mem (\<lambda>w. f (ksceKernelL1IcacheInvalidateEntireAllCore K w))"
  by (simp add: keeps_mem_def)

lemma keeps_case_prod [keeps_intros]:
  "(\<And>x y. keeps_mem mem (f x y)) \<Longrightarrow> keeps_mem mem (case p of (x, y) \<Rightarrow> f x y)"
  by (cases p) simp

text \<open>What happens to the code bytes: either the copy failed and nothing changed, or they are in.\<close>

lemma write_user_text_effect:
  assumes "memory_laws mem K" "write_user_text K pid a bs w = (res, w')"
  shows "if sint (fst (fst (ksceKernelCopyToUserProcTextDomain K pid a bs w))) < 0
    then mem w' = mem w \<and> (\<exists>r. res = Err r)
    else mem w' = (mem w)(pid := poke (mem w pid) a bs)"
proof -
  obtain r o1 w1 where c: "ksceKernelCopyToUserProcTextDomain K pid a bs w = ((r, o1), w1)"
    by (metis prod.exhaust)
  let ?rest = "run (ksceKernelCpuSuspendIntr K) (\<lambda>intr.
     seq (sce_call ''ksceKernelProcessGetContext'' (ksceKernelProcessGetContext K pid)) (\<lambda>(_, proc_ctx).
     seq (sce_call ''ksceKernelProcessSwitchContext'' (ksceKernelProcessSwitchContext K proc_ctx)) (\<lambda>(_, prev_context) w.
     seq (sce_call ''ksceKernelProcessSwitchContext'' (ksceKernelProcessSwitchContext K prev_context)) (\<lambda>_.
     run (ksceKernelCpuResumeIntr K intr) (\<lambda>_. ret ()))
       (ksceKernelL1IcacheInvalidateEntireAllCore K w))))"
  have "keeps_mem mem ?rest" using assms(1) by (intro keeps_intros)
  then have rest: "mem (snd (?rest w1)) = mem w1" by (simp add: keeps_mem_def)
  have "mem w1 = (if 0 \<le> sint r then (mem w)(pid := poke (mem w pid) a bs) else mem w)"
    using assms(1) c unfolding memory_laws_def writes_mem_def by (metis (mono_tags, lifting) case_prod_conv)
  with rest c assms(2) show ?thesis
    by (auto simp: write_user_text_def seq_def [of "sce_call ''ksceKernelCopyToUserProcTextDomain'' _"]
        sce_call_def [of "''ksceKernelCopyToUserProcTextDomain''"] split: if_splits)
qed


section \<open>Interrupts around a code write\<close>

text \<open>
  \<open>irq w\<close>: interrupts are on. Suspending turns them off and hands out the previous state,
  resuming with that value restores it, the other calls of \<open>write_user_text\<close> do not touch it.
\<close>

definition irq_laws :: "('w \<Rightarrow> bool) \<Rightarrow> 'w kernel \<Rightarrow> bool" where
  "irq_laws irq K \<longleftrightarrow>
     (\<forall>w. case ksceKernelCpuSuspendIntr K w of (old, w') \<Rightarrow>
        \<not> irq w' \<and> (\<forall>v. irq (snd (ksceKernelCpuResumeIntr K old v)) = irq w)) \<and>
     (\<forall>pid a bs w. irq (snd (ksceKernelCopyToUserProcTextDomain K pid a bs w)) = irq w) \<and>
     (\<forall>pid w. irq (snd (ksceKernelProcessGetContext K pid w)) = irq w) \<and>
     (\<forall>c w. irq (snd (ksceKernelProcessSwitchContext K c w)) = irq w) \<and>
     (\<forall>w. irq (ksceKernelL1IcacheInvalidateEntireAllCore K w) = irq w)"

text \<open>
  C35: \<open>write_user_text\<close> leaves interrupts as they were when it succeeds and when the copy itself
  fails. When a later step fails (looking up the process's context, or either switch), it
  returns with interrupts still off: the early return of \<open>?\<close> skips the call that restores them.
\<close>

theorem write_user_text_interrupts:
  assumes "irq_laws irq K"
  shows "case write_user_text K pid a bs w of
    (Inr _, w') \<Rightarrow> irq w' = irq w
  | (Inl _, w') \<Rightarrow>
      if sint (fst (fst (ksceKernelCopyToUserProcTextDomain K pid a bs w))) < 0
      then irq w' = irq w else \<not> irq w'"
proof -
  have laws: "irq (snd (ksceKernelCopyToUserProcTextDomain K pid a bs v)) = irq v"
    "irq (snd (ksceKernelProcessGetContext K pid v)) = irq v"
    "irq (snd (ksceKernelProcessSwitchContext K c v)) = irq v"
    "irq (ksceKernelL1IcacheInvalidateEntireAllCore K v) = irq v"
    "\<not> irq (snd (ksceKernelCpuSuspendIntr K v))"
    "irq (snd (ksceKernelCpuResumeIntr K (fst (ksceKernelCpuSuspendIntr K v)) u)) = irq v" for v u c
    using assms by (simp_all add: irq_laws_def split_beta)
  show ?thesis
    by (simp add: write_user_text_def call_simps split_beta laws)
qed

theorem write_user_text_interrupts_witness:
  "\<not> d_irq (snd (write_user_text demo_kernel 5 0x81000000 [0x00, 0xbe]
     (demo_world\<lparr>d_broken := {''ksceKernelProcessGetContext''}\<rparr>)))"
proof -
  have laws: "irq_laws d_irq demo_kernel" by (simp add: irq_laws_def demo_defs)
  show ?thesis
    using write_user_text_interrupts [OF laws, where pid = 5 and a = "0x81000000" and bs = "[0x00, 0xbe]"
        and w = "demo_world\<lparr>d_broken := {''ksceKernelProcessGetContext''}\<rparr>"]
    by (simp add: write_user_text_def call_simps demo_defs)
qed

section \<open>Halting a process\<close>

text \<open>Where the status can be read without side effects, the polling loop is a search in time.\<close>

lemma wait_suspended_polls:
  assumes "\<And>w. ksceKernelGetProcessStatus K pid w = ((0, st w), w)"
  shows "\<exists>j\<le>n. wait_suspended K pid n w = (Ok (), (ksceKernelDelayThread K 1000 ^^ j) w) \<and>
    (\<forall>i<j. st ((ksceKernelDelayThread K 1000 ^^ i) w) AND PROCESS_STATUS_SUSPENDED = 0) \<and>
    (j < n \<longrightarrow> st ((ksceKernelDelayThread K 1000 ^^ j) w) AND PROCESS_STATUS_SUSPENDED \<noteq> 0)"
proof (induction n arbitrary: w)
  case 0
  then show ?case by (simp add: act_simps)
next
  case (Suc n)
  have status: "get_process_status K pid w = (Ok (st w), w)"
    by (simp add: get_process_status_def act_simps sce_call_def assms)
  show ?case
  proof (cases "st w AND PROCESS_STATUS_SUSPENDED = 0")
    case False
    then show ?thesis by (intro exI [of _ 0]) (simp add: act_simps status)
  next
    case True
    let ?w' = "ksceKernelDelayThread K 1000 w"
    obtain j where j: "j \<le> n" "wait_suspended K pid n ?w' = (Ok (), (ksceKernelDelayThread K 1000 ^^ j) ?w')"
      "\<forall>i<j. st ((ksceKernelDelayThread K 1000 ^^ i) ?w') AND PROCESS_STATUS_SUSPENDED = 0"
      "j < n \<longrightarrow> st ((ksceKernelDelayThread K 1000 ^^ j) ?w') AND PROCESS_STATUS_SUSPENDED \<noteq> 0"
      using Suc.IH [of ?w'] by blast
    have shift: "(ksceKernelDelayThread K 1000 ^^ Suc i) w = (ksceKernelDelayThread K 1000 ^^ i) ?w'" for i
      by (simp only: funpow_Suc_right comp_apply)
    have "\<forall>i<Suc j. st ((ksceKernelDelayThread K 1000 ^^ i) w) AND PROCESS_STATUS_SUSPENDED = 0"
      using j(3) True by (auto simp: less_Suc_eq_0_disj shift simp del: funpow.simps(2))
    with j True show ?thesis
      by (intro exI [of _ "Suc j"]) (simp add: act_simps status shift del: funpow.simps(2))
  qed
qed

text \<open>
  C36: Once the suspend request is accepted, \<open>halt_process\<close> polls the status once per delay,
  stops at the first poll that shows the process suspended and at the latest after 1000
  delays, and then answers with the main thread either way: running out of patience is not
  reported.
\<close>

theorem halt_process_polls:
  assumes "\<And>w. ksceKernelGetProcessStatus K pid w = ((0, st w), w)"
    and "st w AND PROCESS_STATUS_SUSPENDED = 0"
    and "ksceKernelSuspendProcess K pid PROCESS_HALT_STATUS w = ((0, ()), w1)"
  shows "\<exists>j\<le>1000. let w2 = (ksceKernelDelayThread K 1000 ^^ j) w1 in
    halt_process K pid w =
      seq (sce_call ''ksceKernelGetProcessMainThread'' (ksceKernelGetProcessMainThread K pid))
        (\<lambda>(tid, _). ret tid) w2 \<and>
    (\<forall>i<j. st ((ksceKernelDelayThread K 1000 ^^ i) w1) AND PROCESS_STATUS_SUSPENDED = 0) \<and>
    (j = 1000 \<or> st w2 AND PROCESS_STATUS_SUSPENDED \<noteq> 0)"
proof -
  obtain j where j: "j \<le> 1000" "wait_suspended K pid 1000 w1 = (Ok (), (ksceKernelDelayThread K 1000 ^^ j) w1)"
    "\<forall>i<j. st ((ksceKernelDelayThread K 1000 ^^ i) w1) AND PROCESS_STATUS_SUSPENDED = 0"
    "j < 1000 \<longrightarrow> st ((ksceKernelDelayThread K 1000 ^^ j) w1) AND PROCESS_STATUS_SUSPENDED \<noteq> 0"
    using wait_suspended_polls [of K pid st 1000 w1] assms(1) by blast
  have "get_process_status K pid w = (Ok (st w), w)"
    by (simp add: get_process_status_def act_simps sce_call_def assms(1))
  then have "halt_process K pid w =
      seq (sce_call ''ksceKernelGetProcessMainThread'' (ksceKernelGetProcessMainThread K pid))
        (\<lambda>(tid, _). ret tid) ((ksceKernelDelayThread K 1000 ^^ j) w1)"
    using assms(2,3) j(2)
    by (simp add: halt_process_def seq_def [of "get_process_status K pid"]
        seq_def [of "seq (sce_call _ _) (\<lambda>_. wait_suspended _ _ _)"]
        seq_def [of "sce_call ''ksceKernelSuspendProcess'' _"] sce_call_def [of "''ksceKernelSuspendProcess''"])
  with j show ?thesis by (intro exI [of _ j]) (auto simp: Let_def)
qed

theorem halt_process_polls_witness:
  "\<exists>j\<le>1000. halt_process demo_kernel 5 demo_world =
     seq (sce_call ''ksceKernelGetProcessMainThread'' (ksceKernelGetProcessMainThread demo_kernel 5))
       (\<lambda>(tid, _). ret tid)
       ((ksceKernelDelayThread demo_kernel 1000 ^^ j) (demo_world\<lparr>d_suspending := True\<rparr>))"
proof -
  have s: "ksceKernelGetProcessStatus demo_kernel 5 w = ((0, demo_status w), w)" for w
    by (simp add: demo_kernel_def)
  have "demo_status demo_world AND PROCESS_STATUS_SUSPENDED = 0"
    "ksceKernelSuspendProcess demo_kernel 5 PROCESS_HALT_STATUS demo_world =
       ((0, ()), demo_world\<lparr>d_suspending := True\<rparr>)"
    by (simp_all add: demo_defs)
  from halt_process_polls [OF s this] show ?thesis by (auto simp: Let_def)
qed

section \<open>The example kernel meets the memory laws\<close>

lemma sound_kernel_memory: "memory_laws d_mem sound_kernel"
  by (simp add: memory_defs sound_kernel_def demo_defs)

end
