(* ===== verification/Sessions.thy ===== *)
theory Sessions
  imports Kernel_Props Mpsc
begin

text \<open>
  \<open>vita-gdb/src/gdb/sessions.rs\<close>: the state of one attached process (breakpoints, watchpoints,
  the pending step, queued exceptions) and the pool of four such states the exception handlers
  search. A \<open>session\<close> is a \<open>GdbSessionInner\<close>; every operation takes the session and the world
  and answers its result with the new session and world. A locked section of the source runs
  undisturbed here: the locks are third-party code.
\<close>

section \<open>Data\<close>

definition PID_UNUSED :: sce_uid where "PID_UNUSED = - 1"
definition MAX_SESSIONS :: nat where "MAX_SESSIONS = 4"

definition EV_WAKE_WORKER :: u32 where "EV_WAKE_WORKER = push_bit 0 1"
definition EV_WAKE_READER :: u32 where "EV_WAKE_READER = push_bit 1 1"
definition EV_PROCESS_STARTED :: u32 where "EV_PROCESS_STARTED = push_bit 4 1"

datatype watch_kind = WatchWrite | WatchRead | WatchReadWrite

datatype arm_breakpoint_kind = Thumb16 | Thumb32 | Arm32

datatype exception_kind = Dabt | Pabt | Undef

datatype exception_event =
    HwBreak sce_uid
  | SwBreak sce_uid
  | Watch sce_uid u32 watch_kind
  | Exception sce_uid exception_kind

record hw_watchpoint =
  hw_addr :: u32
  hw_kind :: watch_kind

record hw_breakpoint =
  hb_addr :: u32

record sw_breakpoint =
  sb_addr :: u32
  sb_orig :: "u8 list"
  sb_patch_len :: nat

record session =
  s_pid :: sce_uid
  s_evflag :: "sce_uid option"
  s_hw_breakpoints :: "hw_breakpoint option list"
  s_hw_watchpoints :: "hw_watchpoint option list"
  s_sw_breakpoints :: "sw_breakpoint option list"
  s_step :: "(sce_uid \<times> u32) option"
  s_step_result :: "sce_uid option"
  s_exited :: bool
  s_exceptions :: "exception_event ring"

text \<open>\<open>junk\<close> is what the uninitialised event buffer happens to hold.\<close>

definition uninit :: "exception_event list \<Rightarrow> session" where
  "uninit junk = \<lparr>s_pid = PID_UNUSED, s_evflag = None,
     s_hw_breakpoints = replicate 6 None, s_hw_watchpoints = replicate 3 None,
     s_sw_breakpoints = replicate 16 None, s_step = None, s_step_result = None,
     s_exited = False, s_exceptions = mpsc_new junk\<rparr>"

definition session_pid :: "session \<Rightarrow> sce_uid option" where
  "session_pid s = (if s_pid s = PID_UNUSED then None else Some (s_pid s))"

text \<open>\<open>reset\<close>; \<open>None\<close> if draining the event queue does not end.\<close>

definition reset :: "'w kernel \<Rightarrow> session \<Rightarrow> 'w \<Rightarrow> (session \<times> 'w) option" where
  "reset K s w =
     (let (s1, w1) = (case s_evflag s of
          Some evflag \<Rightarrow> (s\<lparr>s_evflag := None\<rparr>, snd (evf_clear K evflag EV_WAKE_WORKER w))
        | None \<Rightarrow> (s, w));
        s2 = s1\<lparr>s_hw_breakpoints := map (\<lambda>_. None) (s_hw_breakpoints s1),
                s_hw_watchpoints := map (\<lambda>_. None) (s_hw_watchpoints s1),
                s_sw_breakpoints := map (\<lambda>_. None) (s_sw_breakpoints s1),
                s_step := None, s_exited := False\<rparr>
      in (case clear (s_exceptions s2) of
          None \<Rightarrow> None
        | Some (dropped, ring) \<Rightarrow> Some (s2\<lparr>s_exceptions := ring, s_pid := PID_UNUSED\<rparr>, w1)))"

section \<open>Events\<close>

definition push_excp :: "'w kernel \<Rightarrow> exception_event \<Rightarrow> session \<Rightarrow> 'w \<Rightarrow> session \<times> 'w" where
  "push_excp K event s w = (case s_evflag s of
     None \<Rightarrow> (s, w)
   | Some evflag \<Rightarrow>
       (s\<lparr>s_exceptions := snd (push (s_exceptions s) event)\<rparr>, snd (evf_set K evflag EV_WAKE_WORKER w)))"

definition pop_excp :: "session \<Rightarrow> exception_event option \<times> session" where
  "pop_excp s = (fst (pop (s_exceptions s)), s\<lparr>s_exceptions := snd (pop (s_exceptions s))\<rparr>)"

definition has_excp :: "session \<Rightarrow> bool" where
  "has_excp s \<longleftrightarrow> len (s_exceptions s) > 0"

definition push_exited :: "'w kernel \<Rightarrow> session \<Rightarrow> 'w \<Rightarrow> session \<times> 'w" where
  "push_exited K s w = (case s_evflag s of
     None \<Rightarrow> (s, w)
   | Some evflag \<Rightarrow> (s\<lparr>s_exited := True\<rparr>, snd (evf_set K evflag EV_WAKE_WORKER w)))"

definition pop_exited :: "session \<Rightarrow> bool \<times> session" where
  "pop_exited s = (s_exited s, s\<lparr>s_exited := False\<rparr>)"

section \<open>Hardware breakpoints and watchpoints\<close>

definition is_debug_enabled :: "'w kernel \<Rightarrow> ('w, bool) act" where
  "is_debug_enabled K w = (case ksceKernelCheckDipsw K 0xe4 w of (r, w') \<Rightarrow> (r = 1, w'))"

definition bp_control :: u32 where
  "bp_control = push_bit 0 1 OR push_bit 1 0x3 OR push_bit 5 0xF OR push_bit 14 0x1 OR push_bit 20 0x0"

definition wp_control :: "watch_kind \<Rightarrow> u32" where
  "wp_control kind =
     (let lsc = (case kind of WatchRead \<Rightarrow> 1 | WatchWrite \<Rightarrow> 2 | WatchReadWrite \<Rightarrow> 3) in
      1 OR push_bit 1 1 OR push_bit 3 lsc OR push_bit 5 0xF OR push_bit 14 0x1 OR push_bit 20 0 OR push_bit 24 0)"

definition slot_at :: "('b \<Rightarrow> u32) \<Rightarrow> u32 \<Rightarrow> 'b option \<Rightarrow> bool" where
  "slot_at addr_of addr slot = (case slot of None \<Rightarrow> False | Some b \<Rightarrow> addr_of b = addr)"

definition has_watchpoint :: "u32 \<Rightarrow> session \<Rightarrow> bool" where
  "has_watchpoint addr s = list_ex (slot_at hw_addr addr) (s_hw_watchpoints s)"

text \<open>
  \<open>set_hw_watchpoint\<close> first looks for a used slot, of whatever address: its loop skips the
  empty slots and returns at the first other one.
\<close>

definition set_hw_watchpoint ::
  "'w kernel \<Rightarrow> u32 \<Rightarrow> u32 \<Rightarrow> watch_kind \<Rightarrow> session \<Rightarrow> 'w \<Rightarrow> (sce_error, bool) res \<times> session \<times> 'w" where
  "set_hw_watchpoint K addr _ kind s w = (case is_debug_enabled K w of
     (False, w) \<Rightarrow> (Ok False, s, w)
   | (True, w) \<Rightarrow> (case session_pid s of None \<Rightarrow> (panic, s, w) | Some pid \<Rightarrow>
      (let wps = s_hw_watchpoints s;
           arm = (\<lambda>idx. sce_call ''sceKernelSetPHWP'' (sceKernelSetPHWP K pid (of_nat idx) addr (wp_control kind)))
       in (case position (\<lambda>slot. slot \<noteq> None) wps of
         Some idx \<Rightarrow>
           if hw_kind (the (wps ! idx)) \<noteq> kind
           then (case arm idx w of
               (Inl e, w) \<Rightarrow> (Inl e, s, w)
             | (Inr _, w) \<Rightarrow>
                 (Ok True, s\<lparr>s_hw_watchpoints := wps[idx := map_option (hw_kind_update (\<lambda>_. kind)) (wps ! idx)]\<rparr>, w))
           else (Ok True, s, w)
       | None \<Rightarrow> (case position Option.is_none wps of
           None \<Rightarrow> (Ok False, s, w)
         | Some idx \<Rightarrow> (case arm idx w of
               (Inl e, w) \<Rightarrow> (Inl e, s, w)
             | (Inr _, w) \<Rightarrow>
                 (Ok True, s\<lparr>s_hw_watchpoints := wps[idx := Some \<lparr>hw_addr = addr, hw_kind = kind\<rparr>]\<rparr>, w)))))))"

definition clear_hw_watchpoint ::
  "'w kernel \<Rightarrow> u32 \<Rightarrow> session \<Rightarrow> 'w \<Rightarrow> (sce_error, bool) res \<times> session \<times> 'w" where
  "clear_hw_watchpoint K addr s w = (case is_debug_enabled K w of
     (False, w) \<Rightarrow> (Ok False, s, w)
   | (True, w) \<Rightarrow> (case session_pid s of None \<Rightarrow> (panic, s, w) | Some pid \<Rightarrow>
      (let wps = s_hw_watchpoints s in (case position (slot_at hw_addr addr) wps of
         None \<Rightarrow> (Ok False, s, w)
       | Some idx \<Rightarrow> (case sce_call ''sceKernelSetPHWP'' (sceKernelSetPHWP K pid (of_nat idx) 0 0) w of
             (Inl e, w) \<Rightarrow> (Inl e, s, w)
           | (Inr _, w) \<Rightarrow> (Ok True, s\<lparr>s_hw_watchpoints := wps[idx := None]\<rparr>, w))))))"

definition set_hw_breakpoint ::
  "'w kernel \<Rightarrow> u32 \<Rightarrow> session \<Rightarrow> 'w \<Rightarrow> (sce_error, bool) res \<times> session \<times> 'w" where
  "set_hw_breakpoint K addr s w = (case is_debug_enabled K w of
     (False, w) \<Rightarrow> (Ok False, s, w)
   | (True, w) \<Rightarrow> (case session_pid s of None \<Rightarrow> (panic, s, w) | Some pid \<Rightarrow>
      (let bps = s_hw_breakpoints s in (case position (slot_at hb_addr addr) bps of
         Some _ \<Rightarrow> (Ok True, s, w)
       | None \<Rightarrow> (case position Option.is_none bps of
           None \<Rightarrow> (Ok False, s, w)
         | Some idx \<Rightarrow> (case sce_call ''sceKernelSetPHBP'' (sceKernelSetPHBP K pid (of_nat idx) addr bp_control) w of
               (Inl e, w) \<Rightarrow> (Inl e, s, w)
             | (Inr _, w) \<Rightarrow>
                 (Ok True, s\<lparr>s_hw_breakpoints := bps[idx := Some \<lparr>hb_addr = addr\<rparr>]\<rparr>, w)))))))"

definition clear_hw_breakpoint ::
  "'w kernel \<Rightarrow> u32 \<Rightarrow> session \<Rightarrow> 'w \<Rightarrow> (sce_error, bool) res \<times> session \<times> 'w" where
  "clear_hw_breakpoint K addr s w = (case is_debug_enabled K w of
     (False, w) \<Rightarrow> (Ok False, s, w)
   | (True, w) \<Rightarrow> (case session_pid s of None \<Rightarrow> (panic, s, w) | Some pid \<Rightarrow>
      (let bps = s_hw_breakpoints s in (case position (slot_at hb_addr addr) bps of
         None \<Rightarrow> (Ok False, s, w)
       | Some idx \<Rightarrow> (case sce_call ''sceKernelSetPHBP'' (sceKernelSetPHBP K pid (of_nat idx) 0 0) w of
             (Inl e, w) \<Rightarrow> (Inl e, s, w)
           | (Inr _, w) \<Rightarrow> (Ok True, s\<lparr>s_hw_breakpoints := bps[idx := None]\<rparr>, w))))))"

section \<open>Software breakpoints\<close>

definition is_shared_address :: "u32 \<Rightarrow> bool" where
  "is_shared_address addr \<longleftrightarrow> addr \<ge> 0xE0000000 \<and> addr < 0xF0000000"

definition patch_len :: "arm_breakpoint_kind \<Rightarrow> nat" where
  "patch_len kind = (case kind of Thumb16 \<Rightarrow> 2 | _ \<Rightarrow> 4)"

definition patched :: "arm_breakpoint_kind \<Rightarrow> u8 list" where
  "patched kind = (case kind of Thumb16 \<Rightarrow> [0x00, 0xbe] | _ \<Rightarrow> [0x70, 0x00, 0x20, 0xE1])"

definition set_sw_breakpoint ::
  "'w kernel \<Rightarrow> u32 \<Rightarrow> arm_breakpoint_kind \<Rightarrow> session \<Rightarrow> 'w \<Rightarrow> bool \<times> session \<times> 'w" where
  "set_sw_breakpoint K addr kind s w = (case session_pid s of None \<Rightarrow> (False, s, w) | Some pid \<Rightarrow>
     if is_shared_address addr then (False, s, w)
     else (case sce_call ''ksceKernelCopyFromUserProc'' (ksceKernelCopyFromUserProc K pid addr (patch_len kind)) w of
       (Inl _, w) \<Rightarrow> (False, s, w)
     | (Inr (_, data), w) \<Rightarrow>
        (let orig = fill_prefix (replicate 4 0) data; sw = s_sw_breakpoints s in
         (case position (slot_at sb_addr addr) sw of
            Some _ \<Rightarrow> (True, s, w)
          | None \<Rightarrow> (case position Option.is_none sw of
              None \<Rightarrow> (False, s, w)
            | Some claimed \<Rightarrow>
               (let s1 = s\<lparr>s_sw_breakpoints := sw[claimed :=
                      Some \<lparr>sb_addr = addr, sb_orig = orig, sb_patch_len = patch_len kind\<rparr>]\<rparr> in
                (case write_user_text K pid addr (patched kind) w of
                   (Inr _, w) \<Rightarrow> (True, s1, w)
                 | (Inl _, w) \<Rightarrow>
                     (False, s1\<lparr>s_sw_breakpoints := (s_sw_breakpoints s1)[claimed := None]\<rparr>, w))))))))"

text \<open>
  \<open>restore_sw_slot\<close> empties the slot before it writes. The slice of the saved bytes is in
  range: the patched length is 2 or 4 and four bytes are kept.
\<close>

definition restore_sw_slot ::
  "'w kernel \<Rightarrow> sce_uid \<Rightarrow> sw_breakpoint option \<Rightarrow> 'w \<Rightarrow> ((sce_error, unit) res \<times> sw_breakpoint option) \<times> 'w" where
  "restore_sw_slot K pid slot w = (case slot of
     None \<Rightarrow> ((Ok (), None), w)
   | Some b \<Rightarrow> (case write_user_text K pid (sb_addr b) (take (sb_patch_len b) (sb_orig b)) w of
       (r, w) \<Rightarrow> ((r, None), w)))"

definition clear_sw_breakpoint :: "'w kernel \<Rightarrow> u32 \<Rightarrow> session \<Rightarrow> 'w \<Rightarrow> bool \<times> session \<times> 'w" where
  "clear_sw_breakpoint K addr s w = (case session_pid s of None \<Rightarrow> (False, s, w) | Some pid \<Rightarrow>
     (let sws = s_sw_breakpoints s in (case position (slot_at sb_addr addr) sws of
        None \<Rightarrow> (False, s, w)
      | Some idx \<Rightarrow> (case restore_sw_slot K pid (sws ! idx) w of
            ((Inl _, slot), w) \<Rightarrow> (False, s\<lparr>s_sw_breakpoints := sws[idx := slot]\<rparr>, w)
          | ((Inr _, slot), w) \<Rightarrow> (True, s\<lparr>s_sw_breakpoints := sws[idx := None]\<rparr>, w)))))"

section \<open>Stepping\<close>

definition set_step :: "sce_uid \<Rightarrow> u32 \<Rightarrow> session \<Rightarrow> session" where
  "set_step tid addr s = s\<lparr>s_step := Some (tid, addr)\<rparr>"

definition is_step :: "u32 \<Rightarrow> session \<Rightarrow> bool" where
  "is_step addr s = (case s_step s of None \<Rightarrow> False | Some (_, step_addr) \<Rightarrow> step_addr = addr)"

definition step_finished :: "'w kernel \<Rightarrow> session \<Rightarrow> 'w \<Rightarrow> (sce_error, unit) res \<times> session \<times> 'w" where
  "step_finished K s w = (case s_step s of None \<Rightarrow> (Ok (), s, w) | Some (step_tid, step_addr) \<Rightarrow>
     (case clear_sw_breakpoint K step_addr (s\<lparr>s_step := None\<rparr>) w of (_, s, w) \<Rightarrow>
       (let s = s\<lparr>s_step_result := Some step_tid\<rparr> in
        (case s_evflag s of
           None \<Rightarrow> (panic, s, w)
         | Some evflag \<Rightarrow> (Ok (), s, snd (evf_set K evflag EV_WAKE_WORKER w))))))"

definition pop_step_finished :: "session \<Rightarrow> sce_uid option \<times> session" where
  "pop_step_finished s = (s_step_result s, s\<lparr>s_step_result := None\<rparr>)"

section \<open>The pool and the owning handle\<close>

text \<open>The pool is a list of sessions; a \<open>GdbSession\<close> is the index of its slot.\<close>

definition find_session_for_pid :: "sce_uid \<Rightarrow> session list \<Rightarrow> nat option" where
  "find_session_for_pid pid pool = position (\<lambda>s. s_pid s = pid) pool"

definition gdb_session_new :: "sce_uid \<Rightarrow> sce_uid \<Rightarrow> session list \<Rightarrow> nat option \<times> session list" where
  "gdb_session_new flag pid pool = (case position (\<lambda>s. s_pid s = PID_UNUSED) pool of
     None \<Rightarrow> (None, pool)
   | Some slot \<Rightarrow>
       (let claimed = (pool ! slot)\<lparr>s_pid := pid\<rparr>
        in (Some slot, pool[slot := claimed\<lparr>s_evflag := Some flag\<rparr>])))"

text \<open>The operations of the owning handle ask again whether debugging is enabled.\<close>

definition if_debugging ::
  "'w kernel \<Rightarrow> (session \<Rightarrow> 'w \<Rightarrow> (sce_error, bool) res \<times> session \<times> 'w) \<Rightarrow>
     session \<Rightarrow> 'w \<Rightarrow> (sce_error, bool) res \<times> session \<times> 'w" where
  "if_debugging K op s w = (case is_debug_enabled K w of
     (False, w) \<Rightarrow> (Ok False, s, w)
   | (True, w) \<Rightarrow> op s w)"

definition gdb_session_set_hw_watchpoint where
  "gdb_session_set_hw_watchpoint K addr l kind = if_debugging K (set_hw_watchpoint K addr l kind)"
definition gdb_session_clear_hw_watchpoint where
  "gdb_session_clear_hw_watchpoint K addr = if_debugging K (clear_hw_watchpoint K addr)"
definition gdb_session_set_hw_breakpoint where
  "gdb_session_set_hw_breakpoint K addr = if_debugging K (set_hw_breakpoint K addr)"
definition gdb_session_clear_hw_breakpoint where
  "gdb_session_clear_hw_breakpoint K addr = if_debugging K (clear_hw_breakpoint K addr)"

text \<open>The three loops of \<open>clear_all\<close>, over the slots from index \<open>idx\<close> on.\<close>

fun clear_bps :: "'w kernel \<Rightarrow> sce_uid \<Rightarrow> nat \<Rightarrow> hw_breakpoint option list \<Rightarrow> 'w \<Rightarrow> hw_breakpoint option list \<times> 'w" where
  "clear_bps K pid idx [] w = ([], w)"
| "clear_bps K pid idx (slot # bps) w =
     (case (if slot \<noteq> None then (None, snd (sceKernelSetPHBP K pid (of_nat idx) 0 0 w)) else (slot, w)) of
        (slot, w) \<Rightarrow> (case clear_bps K pid (Suc idx) bps w of (bps, w) \<Rightarrow> (slot # bps, w)))"

fun clear_wps :: "'w kernel \<Rightarrow> sce_uid \<Rightarrow> nat \<Rightarrow> hw_watchpoint option list \<Rightarrow> 'w \<Rightarrow> 'w" where
  "clear_wps K pid idx [] w = w"
| "clear_wps K pid idx (slot # wps) w =
     clear_wps K pid (Suc idx) wps
       (if slot \<noteq> None then snd (sceKernelSetPHWP K pid (of_nat idx) 0 0 w) else w)"

fun restore_sws :: "'w kernel \<Rightarrow> sce_uid \<Rightarrow> sw_breakpoint option list \<Rightarrow> 'w \<Rightarrow> sw_breakpoint option list \<times> 'w" where
  "restore_sws K pid [] w = ([], w)"
| "restore_sws K pid (slot # sws) w =
     (case restore_sw_slot K pid slot w of ((_, slot), w) \<Rightarrow>
       (case restore_sws K pid sws w of (sws, w) \<Rightarrow> (slot # sws, w)))"

definition clear_all :: "'w kernel \<Rightarrow> session \<Rightarrow> 'w \<Rightarrow> session \<times> 'w" where
  "clear_all K s w =
     (let pid = s_pid s;
          (bps, w1) = clear_bps K pid 0 (s_hw_breakpoints s) w;
          w2 = clear_wps K pid 0 (s_hw_watchpoints s) w1;
          (sws, w3) = restore_sws K pid (s_sw_breakpoints s) w2
      in (s\<lparr>s_hw_breakpoints := bps, s_sw_breakpoints := sws\<rparr>, w3))"

definition gdb_session_drop :: "'w kernel \<Rightarrow> session \<Rightarrow> 'w \<Rightarrow> (session \<times> 'w) option" where
  "gdb_session_drop K s w = (case clear_all K s w of (s, w) \<Rightarrow> reset K s w)"

record dump_state_rec =
  dump_pid :: "sce_uid option"
  dump_hw_breakpoints :: "u32 list"
  dump_hw_watchpoints :: "u32 list"
  dump_sw_breakpoints :: "u32 list"

definition dump_state :: "session \<Rightarrow> dump_state_rec" where
  "dump_state s = \<lparr>dump_pid = session_pid s,
     dump_hw_breakpoints = map hb_addr (List.map_filter id (s_hw_breakpoints s)),
     dump_hw_watchpoints = map hw_addr (List.map_filter id (s_hw_watchpoints s)),
     dump_sw_breakpoints = map sb_addr (List.map_filter id (s_sw_breakpoints s))\<rparr>"

end
