(* ===== verification/Session_Tables.thy ===== *)
theory Session_Tables
  imports Sessions
begin

text \<open>
  The breakpoint tables of a session. \<open>tracked_breakpoints\<close> is what the debugger relies on:
  the answers of the calls say which addresses are in the table, also when kernel calls fail.
  \<open>exact_breakpoints\<close> adds that, with a kernel that cooperates, the answers are those of a
  bounded set. Hardware and software breakpoints meet both; hardware watchpoints do not.
\<close>

section \<open>Tables of optional entries\<close>

named_theorems slot_simps \<open>effect of slot updates on the addresses of a table\<close>

definition addrs_of :: "('b \<Rightarrow> u32) \<Rightarrow> 'b option list \<Rightarrow> u32 set" where
  "addrs_of f slots = {f b | b. Some b \<in> set slots}"

definition distinct_slots :: "('b \<Rightarrow> u32) \<Rightarrow> 'b option list \<Rightarrow> bool" where
  "distinct_slots f slots \<longleftrightarrow> (\<forall>i j b c. i < length slots \<longrightarrow> j < length slots \<longrightarrow>
     slots ! i = Some b \<longrightarrow> slots ! j = Some c \<longrightarrow> f b = f c \<longrightarrow> i = j)"

lemma slot_at_iff: "slot_at f a slot \<longleftrightarrow> (\<exists>b. slot = Some b \<and> f b = a)"
  by (cases slot) (simp_all add: slot_at_def)

lemma no_slot_at_iff [slot_simps]: "position (slot_at f a) slots = None \<longleftrightarrow> a \<notin> addrs_of f slots"
  by (auto simp: position_None_iff slot_at_iff addrs_of_def)

lemma addrs_of_nth: "addrs_of f slots = {f b | b i. i < length slots \<and> slots ! i = Some b}"
  by (force simp: addrs_of_def in_set_conv_nth)

lemma addrs_of_none [simp]: "addrs_of f (map (\<lambda>_. None) xs) = {}" "addrs_of f (replicate n None) = {}"
  by (auto simp: addrs_of_def)

lemma distinct_none [simp]: "distinct_slots f (map (\<lambda>_. None) xs)" "distinct_slots f (replicate n None)"
  by (auto simp: distinct_slots_def)

lemma addrs_of_fill [slot_simps]:
  assumes "position Option.is_none slots = Some i"
  shows "addrs_of f (slots[i := Some b]) = insert (f b) (addrs_of f slots)"
proof -
  have i: "i < length slots" "slots ! i = None"
    using position_SomeD [OF assms] by (auto simp: Option.is_none_def)
  then show ?thesis
    by (auto simp: addrs_of_nth nth_list_update) (metis option.distinct(1))
qed

lemma distinct_fill:
  assumes "position Option.is_none slots = Some i" "distinct_slots f slots" "f b \<notin> addrs_of f slots"
  shows "distinct_slots f (slots[i := Some b])"
  using assms(2,3) position_SomeD [OF assms(1)]
  by (auto simp: distinct_slots_def addrs_of_nth nth_list_update)

lemma slot_at_addr: "position (slot_at f a) slots = Some i \<Longrightarrow>
    i < length slots \<and> (\<exists>b. slots ! i = Some b \<and> f b = a)"
  by (auto simp: slot_at_iff dest: position_SomeD)

lemma addrs_of_free [slot_simps]:
  assumes "position (slot_at f a) slots = Some i" "distinct_slots f slots"
  shows "addrs_of f (slots[i := None]) = addrs_of f slots - {a}"
proof -
  obtain b where b: "i < length slots" "slots ! i = Some b" "f b = a"
    using slot_at_addr [OF assms(1)] by blast
  have "f c \<noteq> a" if "j < length slots" "slots ! j = Some c" "j \<noteq> i" for j c
    using assms(2) b that by (auto simp: distinct_slots_def)
  with b show ?thesis
    by (auto simp: addrs_of_nth nth_list_update) (metis option.inject)+
qed

lemma distinct_free: "distinct_slots f slots \<Longrightarrow> distinct_slots f (slots[i := None])"
proof -
  have old: "slots ! k = Some b" if "slots[i := None] ! k = Some b" "k < length slots" for k b
    using that by (cases "k = i") simp_all
  assume "distinct_slots f slots"
  then show ?thesis
    unfolding distinct_slots_def length_list_update using old by blast
qed

lemma addrs_at: "position (slot_at f a) slots = Some i \<Longrightarrow> a \<in> addrs_of f slots"
  using no_slot_at_iff [of f a slots] by auto

lemma finite_addrs [simp]: "finite (addrs_of f slots)"
proof -
  have "addrs_of f slots \<subseteq> (\<lambda>s. f (the s)) ` set slots" by (force simp: addrs_of_def)
  then show ?thesis by (rule finite_subset) simp
qed

lemma card_addrs: "card (addrs_of f slots) \<le> length slots"
proof -
  have "addrs_of f slots \<subseteq> (\<lambda>s. f (the s)) ` set slots" by (force simp: addrs_of_def)
  then have "card (addrs_of f slots) \<le> card ((\<lambda>s. f (the s)) ` set slots)" by (simp add: card_mono)
  also have "\<dots> \<le> length slots" using card_image_le card_length le_trans by blast
  finally show ?thesis .
qed

text \<open>A table without an empty slot is full.\<close>

lemma card_addrs_full:
  assumes "position Option.is_none slots = None" "distinct_slots f slots"
  shows "card (addrs_of f slots) = length slots"
proof -
  let ?g = "\<lambda>i. f (the (slots ! i))"
  have used: "\<exists>b. slots ! i = Some b" if "i < length slots" for i
    using assms(1) that by (auto simp: position_None_iff Option.is_none_def)
  have "inj_on ?g {..<length slots}"
  proof (rule inj_onI)
    fix i j assume "i \<in> {..<length slots}" "j \<in> {..<length slots}" "?g i = ?g j"
    then show "i = j" using used [of i] used [of j] assms(2) by (auto simp: distinct_slots_def)
  qed
  moreover have "addrs_of f slots = ?g ` {..<length slots}"
    using used by (force simp: addrs_of_nth)
  ultimately show ?thesis by (simp add: card_image)
qed

lemma room_left_iff:
  assumes "distinct_slots f slots"
  shows "position Option.is_none slots = None \<longleftrightarrow> \<not> card (addrs_of f slots) < length slots"
proof
  assume "position Option.is_none slots = None"
  then show "\<not> card (addrs_of f slots) < length slots" using card_addrs_full [OF _ assms] by simp
next
  assume full: "\<not> card (addrs_of f slots) < length slots"
  show "position Option.is_none slots = None"
  proof (rule ccontr)
    assume "position Option.is_none slots \<noteq> None"
    then obtain i where i: "i < length slots" "slots ! i = None"
      by (auto simp: Option.is_none_def dest: position_SomeD)
    have "addrs_of f slots \<subseteq> (\<lambda>j. f (the (slots ! j))) ` ({..<length slots} - {i})"
    proof
      fix x assume "x \<in> addrs_of f slots"
      then obtain b j where j: "x = f b" "j < length slots" "slots ! j = Some b"
        by (auto simp: addrs_of_nth)
      with i have "j \<in> {..<length slots} - {i}" "x = f (the (slots ! j))" by auto
      then show "x \<in> (\<lambda>j. f (the (slots ! j))) ` ({..<length slots} - {i})" by blast
    qed
    then have "card (addrs_of f slots) \<le> card ({..<length slots} - {i})"
      by (meson card_image_le card_mono finite_Diff finite_imageI finite_lessThan le_trans)
    with full i show False by simp
  qed
qed

section \<open>The interface of a breakpoint table\<close>

datatype 'r bp_call = SetBp 'r | ClearBp u32

fun run_bps ::
  "('r \<Rightarrow> 't \<Rightarrow> bool \<times> 't) \<Rightarrow> (u32 \<Rightarrow> 't \<Rightarrow> bool \<times> 't) \<Rightarrow> 'r bp_call list \<Rightarrow> 't \<Rightarrow> bool list \<times> 't"
where
  "run_bps set_bp clear_bp [] t = ([], t)"
| "run_bps set_bp clear_bp (SetBp r # cs) t =
     (let (b, t') = set_bp r t; (bs, t'') = run_bps set_bp clear_bp cs t' in (b # bs, t''))"
| "run_bps set_bp clear_bp (ClearBp a # cs) t =
     (let (b, t') = clear_bp a t; (bs, t'') = run_bps set_bp clear_bp cs t' in (b # bs, t''))"

text \<open>The abstract table: a set that refuses a new address when it holds \<open>n\<close>.\<close>

definition abs_set :: "nat \<Rightarrow> ('r \<Rightarrow> u32) \<Rightarrow> 'r \<Rightarrow> u32 set \<Rightarrow> bool \<times> u32 set" where
  "abs_set n place r A =
     (if place r \<in> A \<or> card A < n then (True, insert (place r) A) else (False, A))"

definition abs_clear :: "u32 \<Rightarrow> u32 set \<Rightarrow> bool \<times> u32 set" where
  "abs_clear a A = (a \<in> A, A - {a})"

text \<open>The addresses a run of calls names.\<close>

definition named :: "('r \<Rightarrow> u32) \<Rightarrow> 'r bp_call list \<Rightarrow> u32 set" where
  "named place cs = {place r | r. SetBp r \<in> set cs} \<union> {a. ClearBp a \<in> set cs}"

locale tracked_breakpoints =
  fixes inv :: "'t \<Rightarrow> bool"
    and addrs :: "'t \<Rightarrow> u32 set"
    and room :: nat
    and place :: "'r \<Rightarrow> u32"
    and set_bp :: "'r \<Rightarrow> 't \<Rightarrow> bool \<times> 't"
    and clear_bp :: "u32 \<Rightarrow> 't \<Rightarrow> bool \<times> 't"
  assumes set_inv: "inv t \<Longrightarrow> inv (snd (set_bp r t))"
    and clear_inv: "inv t \<Longrightarrow> inv (snd (clear_bp a t))"
    and room_bound: "inv t \<Longrightarrow> finite (addrs t) \<and> card (addrs t) \<le> room"
    and set_yes: "inv t \<Longrightarrow> fst (set_bp r t) \<Longrightarrow> addrs (snd (set_bp r t)) = insert (place r) (addrs t)"
    and set_no: "inv t \<Longrightarrow> \<not> fst (set_bp r t) \<Longrightarrow> addrs (snd (set_bp r t)) = addrs t"
    and clear_yes: "inv t \<Longrightarrow> fst (clear_bp a t) \<Longrightarrow>
      a \<in> addrs t \<and> addrs (snd (clear_bp a t)) = addrs t - {a}"
    and clear_no: "inv t \<Longrightarrow> \<not> fst (clear_bp a t) \<Longrightarrow>
      addrs (snd (clear_bp a t)) = addrs t \<or> addrs (snd (clear_bp a t)) = addrs t - {a}"
begin

lemma step_other:
  "inv t \<Longrightarrow> b \<noteq> place r \<Longrightarrow> b \<in> addrs (snd (set_bp r t)) \<longleftrightarrow> b \<in> addrs t"
  "inv t \<Longrightarrow> b \<noteq> a \<Longrightarrow> b \<in> addrs (snd (clear_bp a t)) \<longleftrightarrow> b \<in> addrs t"
  by (metis insert_iff set_no set_yes) (metis Diff_iff clear_no clear_yes singletonD)

lemma run_inv: "inv t \<Longrightarrow> inv (snd (run_bps set_bp clear_bp cs t))"
proof (induction cs arbitrary: t)
  case (Cons c cs)
  then show ?case by (cases c) (simp_all add: Let_def split_beta set_inv clear_inv)
qed simp

text \<open>Whatever fails, an address no call names keeps its state, and the table never overfills.\<close>

lemma run_other:
  "inv t \<Longrightarrow> b \<notin> named place cs \<Longrightarrow>
     b \<in> addrs (snd (run_bps set_bp clear_bp cs t)) \<longleftrightarrow> b \<in> addrs t"
proof (induction cs arbitrary: t)
  case (Cons c cs)
  have rest: "b \<notin> named place cs" using Cons.prems by (auto simp: named_def)
  show ?case
  proof (cases c)
    case (SetBp r)
    then have "b \<noteq> place r" using Cons.prems by (auto simp: named_def)
    with SetBp rest Cons.IH [of "snd (set_bp r t)"] Cons.prems show ?thesis
      by (simp add: Let_def split_beta set_inv step_other)
  next
    case (ClearBp a)
    then have "b \<noteq> a" using Cons.prems by (auto simp: named_def)
    with ClearBp rest Cons.IH [of "snd (clear_bp a t)"] Cons.prems show ?thesis
      by (simp add: Let_def split_beta clear_inv step_other)
  qed
qed simp

end

locale exact_breakpoints = tracked_breakpoints +
  fixes may :: "'b \<Rightarrow> bool"
  assumes set_answer: "inv t \<Longrightarrow> may r \<Longrightarrow> fst (set_bp r t) \<longleftrightarrow> place r \<in> addrs t \<or> card (addrs t) < room"
    and clear_answer: "inv t \<Longrightarrow> fst (clear_bp a t) \<longleftrightarrow> a \<in> addrs t"
begin

lemma set_refines: "inv t \<Longrightarrow> may r \<Longrightarrow>
    abs_set room place r (addrs t) = (fst (set_bp r t), addrs (snd (set_bp r t)))"
  by (simp add: abs_set_def set_answer set_yes set_no insert_absorb)

lemma clear_refines: "inv t \<Longrightarrow> abs_clear a (addrs t) = (fst (clear_bp a t), addrs (snd (clear_bp a t)))"
  using clear_yes [of t a] clear_no [of t a] by (auto simp: abs_clear_def clear_answer)

lemma run_refines:
  "inv t \<Longrightarrow> (\<forall>r. SetBp r \<in> set cs \<longrightarrow> may r) \<Longrightarrow>
     run_bps (abs_set room place) abs_clear cs (addrs t) =
       (fst (run_bps set_bp clear_bp cs t), addrs (snd (run_bps set_bp clear_bp cs t)))"
proof (induction cs arbitrary: t)
  case (Cons c cs)
  show ?case
  proof (cases c)
    case (SetBp r)
    then have "may r" using Cons.prems by simp
    with SetBp Cons.IH [of "snd (set_bp r t)"] Cons.prems show ?thesis
      by (simp add: Let_def split_beta set_inv set_refines)
  next
    case (ClearBp a)
    with Cons.IH [of "snd (clear_bp a t)"] Cons.prems show ?thesis
      by (simp add: Let_def split_beta clear_inv clear_refines)
  qed
qed simp

end

end
