(* ===== verification/Session_Props.thy ===== *)
theory Session_Props
  imports Session_Tables
begin

text \<open>
  What the sessions guarantee: the invariant of a session and of every operation on it, the
  hardware and software tables as bounded sets, the watchpoint table's defect, the event
  queue, resetting and reusing a pool slot.
\<close>

section \<open>The invariant\<close>

definition entry_ok :: "sw_breakpoint option \<Rightarrow> bool" where
  "entry_ok slot \<longleftrightarrow> (case slot of None \<Rightarrow> True
     | Some b \<Rightarrow> length (sb_orig b) = 4 \<and> sb_patch_len b \<in> {2, 4})"

text \<open>At most one entry: all that the watchpoint table ever holds.\<close>

definition at_most_one :: "'b option list \<Rightarrow> bool" where
  "at_most_one slots \<longleftrightarrow> (\<forall>i j. i < length slots \<longrightarrow> j < length slots \<longrightarrow>
     slots ! i \<noteq> None \<longrightarrow> slots ! j \<noteq> None \<longrightarrow> i = j)"

definition session_ok :: "session \<Rightarrow> bool" where
  "session_ok s \<longleftrightarrow>
     length (s_hw_breakpoints s) = 6 \<and> distinct_slots hb_addr (s_hw_breakpoints s) \<and>
     length (s_hw_watchpoints s) = 3 \<and> at_most_one (s_hw_watchpoints s) \<and>
     length (s_sw_breakpoints s) = 16 \<and> distinct_slots sb_addr (s_sw_breakpoints s) \<and>
     list_all entry_ok (s_sw_breakpoints s) \<and>
     ring_ok (s_exceptions s) \<and> cap (s_exceptions s) = 8"

lemma entry_ok_simps [simp]:
  "entry_ok None"
  "entry_ok (Some b) \<longleftrightarrow> length (sb_orig b) = 4 \<and> sb_patch_len b \<in> {2, 4}"
  by (simp_all add: entry_ok_def)

lemma patch_len_cases [simp]: "patch_len k \<in> {2, 4}" "patch_len k = 2 \<or> patch_len k = 4" "length (patched k) = patch_len k"
  by (cases k; simp add: patch_len_def patched_def)+

lemma entries_update [simp]: "list_all entry_ok xs \<Longrightarrow> entry_ok e \<Longrightarrow> list_all entry_ok (xs[i := e])"
  unfolding list_all_iff using set_update_subset_insert [of xs i e] by auto

lemma at_most_one_update:
  assumes "at_most_one xs" "xs ! i \<noteq> None \<or> (\<forall>j<length xs. xs ! j = None)" "i < length xs"
  shows "at_most_one (xs[i := e])"
proof -
  have "j = i" if "j < length xs" "xs[i := e] ! j \<noteq> None" for j
    using assms that by (cases "j = i") (auto simp: at_most_one_def)
  then show ?thesis unfolding at_most_one_def length_list_update by metis
qed

lemma at_most_one_none [simp]: "at_most_one (map (\<lambda>_. None) xs)" "at_most_one (replicate n None)"
  by (simp_all add: at_most_one_def)

lemma session_ok_uninit: "length junk = 8 \<Longrightarrow> session_ok (uninit junk)"
  by (auto simp: session_ok_def uninit_def ring_ok_def mpsc_new_def list_all_iff)

text \<open>An attached session for the examples.\<close>

definition demo_session :: session where
  "demo_session = (uninit (replicate 8 (HwBreak 0)))\<lparr>s_pid := 5, s_evflag := Some 9\<rparr>"

lemma demo_session_ok: "session_ok demo_session" "s_pid demo_session \<noteq> PID_UNUSED" "s_pid demo_session = 5"
  using session_ok_uninit [of "replicate 8 (HwBreak 0)"]
  by (simp_all add: demo_session_def session_ok_def PID_UNUSED_def)

named_theorems session_simps \<open>unfolding of the session operations\<close>

lemmas session_op_defs [session_simps] = push_excp_def pop_excp_def push_exited_def pop_exited_def
  set_step_def pop_step_finished_def

lemma ok_events:
  assumes "session_ok s"
  shows "session_ok (fst (push_excp K ev s w))" "session_ok (snd (pop_excp s))"
    "session_ok (fst (push_exited K s w))" "session_ok (snd (pop_exited s))"
    "session_ok (set_step tid a s)" "session_ok (snd (pop_step_finished s))"
  using assms by (auto simp: session_simps session_ok_def push_ok pop_ok split: option.splits)

lemma ok_hw:
  assumes "session_ok s"
  shows "session_ok (fst (snd (set_hw_breakpoint K a s w)))"
    "session_ok (fst (snd (clear_hw_breakpoint K a s w)))"
  using assms
  by (auto simp: set_hw_breakpoint_def clear_hw_breakpoint_def session_ok_def Let_def distinct_free
      no_slot_at_iff intro!: distinct_fill split: prod.splits bool.splits option.splits sum.splits)

lemma ok_wp:
  assumes "session_ok s"
  shows "session_ok (fst (snd (set_hw_watchpoint K a l k s w)))"
    "session_ok (fst (snd (clear_hw_watchpoint K a s w)))"
proof -
  have upd: "at_most_one ((s_hw_watchpoints s)[i := e])"
    if "position (\<lambda>x. x \<noteq> None) (s_hw_watchpoints s) = Some i \<or>
        position (slot_at hw_addr a) (s_hw_watchpoints s) = Some i \<or>
        position (\<lambda>x. x \<noteq> None) (s_hw_watchpoints s) = None \<and> i < 3" for i e
    using assms that
    by (intro at_most_one_update)
      (auto simp: session_ok_def position_None_iff dest!: position_SomeD slot_at_addr)
  show "session_ok (fst (snd (set_hw_watchpoint K a l k s w)))"
    using assms upd
    by (auto simp: set_hw_watchpoint_def session_ok_def Let_def
        split: prod.splits bool.splits option.splits sum.splits dest: position_SomeD)
  show "session_ok (fst (snd (clear_hw_watchpoint K a s w)))"
    using assms upd
    by (auto simp: clear_hw_watchpoint_def session_ok_def Let_def
        split: prod.splits bool.splits option.splits sum.splits)
qed

lemma ok_sw:
  assumes "session_ok s"
  shows "session_ok (fst (snd (set_sw_breakpoint K a k s w)))"
    "session_ok (fst (snd (clear_sw_breakpoint K a s w)))"
proof -
  let ?sw = "s_sw_breakpoints s"
  have "distinct_slots sb_addr (?sw[i := Some \<lparr>sb_addr = a, sb_orig = orig, sb_patch_len = n\<rparr>])"
    "distinct_slots sb_addr (?sw[i := None])"
    if "position Option.is_none ?sw = Some i" "a \<notin> addrs_of sb_addr ?sw" for i orig n
    using that assms by (auto simp: session_ok_def intro!: distinct_fill distinct_free)
  then show "session_ok (fst (snd (set_sw_breakpoint K a k s w)))"
    using assms
    by (auto simp: set_sw_breakpoint_def session_ok_def Let_def no_slot_at_iff
        split: prod.splits option.splits sum.splits)
  show "session_ok (fst (snd (clear_sw_breakpoint K a s w)))"
    using assms
    by (auto simp: clear_sw_breakpoint_def restore_sw_slot_def session_ok_def Let_def distinct_free
        split: prod.splits option.splits sum.splits)
qed

text \<open>Tearing down.\<close>

lemma clear_bps_slots: "fst (clear_bps K pid i bps w) = map (\<lambda>_. None) bps"
  by (induction K pid i bps w rule: clear_bps.induct) (auto split: prod.splits)

lemma restore_sws_slots: "fst (restore_sws K pid sws w) = map (\<lambda>_. None) sws"
  by (induction K pid sws w rule: restore_sws.induct)
    (auto simp: restore_sw_slot_def split: prod.splits option.splits)

lemma clear_all_session:
  "fst (clear_all K s w) = s\<lparr>s_hw_breakpoints := map (\<lambda>_. None) (s_hw_breakpoints s),
     s_sw_breakpoints := map (\<lambda>_. None) (s_sw_breakpoints s)\<rparr>"
  using clear_bps_slots [of K "s_pid s" 0 "s_hw_breakpoints s" w]
    restore_sws_slots [of K "s_pid s" "s_sw_breakpoints s"]
  by (auto simp: clear_all_def Let_def split_beta)

lemma list_all_none [simp]: "list_all entry_ok (map (\<lambda>_. None) xs)"
  by (simp add: list_all_iff)

lemma ok_clear_all: "session_ok s \<Longrightarrow> session_ok (fst (clear_all K s w))"
  by (simp add: clear_all_session session_ok_def)

text \<open>What \<open>reset\<close> leaves: everything fresh but the step result and the indices of the ring.\<close>

lemma reset_effect:
  assumes "session_ok s"
  shows "reset K s w = Some
    (s\<lparr>s_pid := PID_UNUSED, s_evflag := None, s_hw_breakpoints := replicate 6 None,
       s_hw_watchpoints := replicate 3 None, s_sw_breakpoints := replicate 16 None, s_step := None,
       s_exited := False, s_exceptions := (s_exceptions s)\<lparr>tail := head (s_exceptions s)\<rparr>\<rparr>,
     (case s_evflag s of None \<Rightarrow> w | Some f \<Rightarrow> snd (evf_clear K f EV_WAKE_WORKER w)))"
  using assms clear_contents [of "s_exceptions s"]
  by (auto simp: reset_def session_ok_def map_replicate_const Let_def split: option.splits)

lemma ok_reset: "session_ok s \<Longrightarrow> reset K s w = Some (s', w') \<Longrightarrow> session_ok s'"
  using cleared_empty [of "s_exceptions s"] by (auto simp: reset_effect session_ok_def list_all_iff)

lemma ok_step_fields [simp]:
  "session_ok (s\<lparr>s_step := x\<rparr>) \<longleftrightarrow> session_ok s" "session_ok (s\<lparr>s_step_result := y\<rparr>) \<longleftrightarrow> session_ok s"
  by (simp_all add: session_ok_def)

lemma ok_step_finished:
  assumes "session_ok s" shows "session_ok (fst (snd (step_finished K s w)))"
proof -
  have "session_ok (fst (snd (clear_sw_breakpoint K a (s\<lparr>s_step := None\<rparr>) w)))" for a
    using assms by (intro ok_sw) simp
  then have "session_ok s'" if "clear_sw_breakpoint K a (s\<lparr>s_step := None\<rparr>) w = (b, s', w')" for a b s' w'
    using that by (metis fst_conv snd_conv)
  with assms show ?thesis
    by (auto simp: step_finished_def Let_def split: option.splits prod.splits)
qed

section \<open>All operations together\<close>

datatype session_op =
    PushExcp exception_event | PopExcp | PushExited | PopExited
  | SetStep sce_uid u32 | StepFinished | PopStepFinished
  | SetHwBreakpoint u32 | ClearHwBreakpoint u32
  | SetHwWatchpoint u32 u32 watch_kind | ClearHwWatchpoint u32
  | SetSwBreakpoint u32 arm_breakpoint_kind | ClearSwBreakpoint u32
  | ClearAll | Reset

text \<open>The state after an operation; \<open>None\<close> if it does not return.\<close>

fun apply_op :: "'w kernel \<Rightarrow> session_op \<Rightarrow> session \<times> 'w \<Rightarrow> (session \<times> 'w) option" where
  "apply_op K (PushExcp ev) (s, w) = Some (push_excp K ev s w)"
| "apply_op K PopExcp (s, w) = Some (snd (pop_excp s), w)"
| "apply_op K PushExited (s, w) = Some (push_exited K s w)"
| "apply_op K PopExited (s, w) = Some (snd (pop_exited s), w)"
| "apply_op K (SetStep tid a) (s, w) = Some (set_step tid a s, w)"
| "apply_op K StepFinished (s, w) = Some (snd (step_finished K s w))"
| "apply_op K PopStepFinished (s, w) = Some (snd (pop_step_finished s), w)"
| "apply_op K (SetHwBreakpoint a) (s, w) = Some (snd (set_hw_breakpoint K a s w))"
| "apply_op K (ClearHwBreakpoint a) (s, w) = Some (snd (clear_hw_breakpoint K a s w))"
| "apply_op K (SetHwWatchpoint a l k) (s, w) = Some (snd (set_hw_watchpoint K a l k s w))"
| "apply_op K (ClearHwWatchpoint a) (s, w) = Some (snd (clear_hw_watchpoint K a s w))"
| "apply_op K (SetSwBreakpoint a k) (s, w) = Some (snd (set_sw_breakpoint K a k s w))"
| "apply_op K (ClearSwBreakpoint a) (s, w) = Some (snd (clear_sw_breakpoint K a s w))"
| "apply_op K ClearAll (s, w) = Some (clear_all K s w)"
| "apply_op K Reset (s, w) = reset K s w"

fun apply_ops :: "'w kernel \<Rightarrow> session_op list \<Rightarrow> session \<times> 'w \<Rightarrow> (session \<times> 'w) option" where
  "apply_ops K [] t = Some t"
| "apply_ops K (op # ops) t = Option.bind (apply_op K op t) (apply_ops K ops)"

lemma apply_op_ok:
  assumes "session_ok s" shows "\<exists>s' w'. apply_op K op (s, w) = Some (s', w') \<and> session_ok s'"
proof (cases op)
  case Reset
  then show ?thesis using assms reset_effect [OF assms] ok_reset [OF assms] by fastforce
qed (use assms in \<open>(simp, metis ok_events ok_hw ok_wp ok_sw ok_step_finished ok_clear_all prod.collapse)+\<close>)



end
