(* ===== verification/Text_Patches.thy ===== *)
theory Text_Patches
  imports Session_Props
begin

text \<open>
  Software breakpoints are patches in the code of the process. \<open>program_text\<close> is the memory of
  the process with every breakpoint of the table taken out: what the debugger should keep, and
  what \<open>clear_all\<close> should leave behind.
\<close>

section \<open>Patched code and the program under it\<close>

definition covers :: "sw_breakpoint \<Rightarrow> u32 \<Rightarrow> bool" where
  "covers b x \<longleftrightarrow> unat (x - sb_addr b) < sb_patch_len b"

definition apart :: "sw_breakpoint \<Rightarrow> sw_breakpoint \<Rightarrow> bool" where
  "apart b c \<longleftrightarrow> (\<forall>x. \<not> (covers b x \<and> covers c x))"

definition slots_apart :: "sw_breakpoint option \<Rightarrow> sw_breakpoint option \<Rightarrow> bool" where
  "slots_apart s t \<longleftrightarrow> (\<forall>b c. s = Some b \<longrightarrow> t = Some c \<longrightarrow> apart b c)"

definition saved :: "sw_breakpoint \<Rightarrow> u8 list" where
  "saved b = take (sb_patch_len b) (sb_orig b)"

fun program_text :: "sw_breakpoint option list \<Rightarrow> (u32 \<Rightarrow> u8) \<Rightarrow> u32 \<Rightarrow> u8" where
  "program_text [] m = m"
| "program_text (None # slots) m = program_text slots m"
| "program_text (Some b # slots) m = poke (program_text slots m) (sb_addr b) (saved b)"

lemma apart_sym: "apart b c \<Longrightarrow> apart c b"
  by (auto simp: apart_def)

lemma length_saved [simp]: "entry_ok (Some b) \<Longrightarrow> length (saved b) = sb_patch_len b"
  by (auto simp: saved_def)

lemma poke_at: "covers b x \<Longrightarrow> length bs = sb_patch_len b \<Longrightarrow> poke m (sb_addr b) bs x = bs ! unat (x - sb_addr b)"
  by (simp add: poke_def covers_def)

lemma poke_off: "\<not> covers b x \<Longrightarrow> length bs = sb_patch_len b \<Longrightarrow> poke m (sb_addr b) bs x = m x"
  by (simp add: poke_def covers_def)

lemma poke_commute:
  assumes "apart b c" "length bs = sb_patch_len b" "length cs = sb_patch_len c"
  shows "poke (poke m (sb_addr b) bs) (sb_addr c) cs = poke (poke m (sb_addr c) cs) (sb_addr b) bs"
proof
  fix x
  show "poke (poke m (sb_addr b) bs) (sb_addr c) cs x = poke (poke m (sb_addr c) cs) (sb_addr b) bs x"
    using assms by (cases "covers b x"; cases "covers c x") (auto simp: apart_def poke_at poke_off)
qed

lemma text_off:
  "list_all entry_ok slots \<Longrightarrow> \<forall>b. Some b \<in> set slots \<longrightarrow> \<not> covers b x \<Longrightarrow> program_text slots m x = m x"
  by (induction slots m rule: program_text.induct) (auto simp: poke_off)

lemma text_at:
  "sorted_wrt slots_apart slots \<Longrightarrow> list_all entry_ok slots \<Longrightarrow> Some b \<in> set slots \<Longrightarrow> covers b x \<Longrightarrow>
     program_text slots m x = saved b ! unat (x - sb_addr b)"
proof (induction slots m rule: program_text.induct)
  case (3 c slots m)
  show ?case
  proof (cases "Some b \<in> set slots")
    case True
    with 3 have "\<not> covers c x" by (auto simp: slots_apart_def apart_def)
    with 3 True show ?thesis by (simp add: poke_off)
  next
    case False
    with 3 show ?thesis by (simp add: poke_at)
  qed
qed auto

text \<open>Filling an empty slot, or emptying one, in step with the write to memory changes nothing underneath.\<close>

lemma apart_other:
  assumes "sorted_wrt slots_apart slots" "i < length slots" "slots ! i = Some b"
    "Some c \<in> set (slots[i := None])"
  shows "apart b c"
proof -
  obtain j where j: "j < length slots" "slots[i := None] ! j = Some c"
    using assms(4) by (auto simp: in_set_conv_nth)
  then have ne: "j \<noteq> i" and sj: "slots ! j = Some c" using assms(2) by (auto simp: nth_list_update split: if_splits)
  show ?thesis
  proof (cases "j < i")
    case True
    then have "slots_apart (slots ! j) (slots ! i)" using assms(1,2) by (simp add: sorted_wrt_nth_less)
    then show ?thesis using sj assms(3) by (simp add: slots_apart_def apart_sym)
  next
    case False
    then have "slots_apart (slots ! i) (slots ! j)" using assms(1) j(1) ne by (simp add: sorted_wrt_nth_less)
    then show ?thesis using sj assms(3) by (simp add: slots_apart_def)
  qed
qed

lemma apart_free: "sorted_wrt slots_apart slots \<Longrightarrow> sorted_wrt slots_apart (slots[i := None])"
proof -
  assume "sorted_wrt slots_apart slots"
  then have "slots_apart (slots[i := None] ! j) (slots[i := None] ! k)" if "j < k" "k < length slots" for j k
    using that by (cases "j = i"; cases "k = i") (simp_all add: sorted_wrt_nth_less, simp_all add: slots_apart_def)
  then show ?thesis by (simp add: sorted_wrt_iff_nth_less)
qed

lemma set_free:
  assumes "i < length slots" "slots ! i = Some b"
  shows "Some c \<in> set slots \<longleftrightarrow> c = b \<or> Some c \<in> set (slots[i := None])"
  using assms by (auto simp: in_set_conv_nth nth_list_update) (metis option.inject)+

lemma text_clear:
  assumes apart: "sorted_wrt slots_apart slots" and ok: "list_all entry_ok slots"
    and i: "i < length slots" "slots ! i = Some b"
  shows "program_text (slots[i := None]) (poke m (sb_addr b) (saved b)) = program_text slots m"
proof
  fix x
  note sets = set_free [OF i] and other = apart_other [OF apart i]
  have okb: "length (saved b) = sb_patch_len b"
    by (rule length_saved) (use ok i in \<open>metis list_all_length\<close>)
  have ok': "list_all entry_ok (slots[i := None])" using ok by simp
  have b: "Some b \<in> set slots" using i by (metis nth_mem)
  show "program_text (slots[i := None]) (poke m (sb_addr b) (saved b)) x = program_text slots m x"
  proof (cases "covers b x")
    case True
    then have "\<forall>c. Some c \<in> set (slots[i := None]) \<longrightarrow> \<not> covers c x" using other by (auto simp: apart_def)
    with True show ?thesis
      by (simp add: text_off [OF ok'] text_at [OF apart ok b] poke_at okb)
  next
    case off: False
    show ?thesis
    proof (cases "\<exists>c. Some c \<in> set (slots[i := None]) \<and> covers c x")
      case True
      then obtain c where c: "Some c \<in> set (slots[i := None])" "covers c x" by blast
      then show ?thesis using sets
        by (simp add: text_at [OF apart ok _ c(2)] text_at [OF apart_free [OF apart] ok' c])
    next
      case False
      with off show ?thesis using sets by (simp add: text_off [OF ok] text_off [OF ok'] poke_off okb)
    qed
  qed
qed

lemma text_set:
  assumes apart: "sorted_wrt slots_apart (slots[i := Some b])" and ok: "list_all entry_ok (slots[i := Some b])"
    and i: "i < length slots" "slots ! i = None"
    and bytes: "saved b = peek m (sb_addr b) (sb_patch_len b)" "length patch = sb_patch_len b"
  shows "program_text (slots[i := Some b]) (poke m (sb_addr b) patch) = program_text slots m"
proof -
  let ?slots = "slots[i := Some b]"
  have undone: "?slots[i := None] = slots" using i by (metis list_update_id list_update_overwrite)
  have "program_text (?slots[i := None]) (poke (poke m (sb_addr b) patch) (sb_addr b) (saved b)) =
      program_text ?slots (poke m (sb_addr b) patch)"
    using text_clear [OF apart ok, of i b] i by simp
  then show ?thesis using bytes unfolding undone by (simp add: poke_undo)
qed

text \<open>Restoring all slots one after the other.\<close>

lemma text_poke:
  "\<forall>c. Some c \<in> set slots \<longrightarrow> apart b c \<Longrightarrow> list_all entry_ok slots \<Longrightarrow> length bs = sb_patch_len b \<Longrightarrow>
     program_text slots (poke m (sb_addr b) bs) = poke (program_text slots m) (sb_addr b) bs"
proof (induction slots m rule: program_text.induct)
  case (3 c slots m)
  then have "length (saved c) = sb_patch_len c" by (intro length_saved) simp
  with 3 show ?case by (simp add: poke_commute [of b c])
qed simp_all

section \<open>The operations\<close>

definition sw_set :: "'w kernel \<Rightarrow> u32 \<times> arm_breakpoint_kind \<Rightarrow> session \<times> 'w \<Rightarrow> bool \<times> session \<times> 'w" where
  "sw_set K r t = set_sw_breakpoint K (fst r) (snd r) (fst t) (snd t)"

definition sw_clear :: "'w kernel \<Rightarrow> u32 \<Rightarrow> session \<times> 'w \<Rightarrow> bool \<times> session \<times> 'w" where
  "sw_clear K a t = clear_sw_breakpoint K a (fst t) (snd t)"

abbreviation sw_addrs :: "session \<times> 'w \<Rightarrow> u32 set" where
  "sw_addrs t \<equiv> addrs_of sb_addr (s_sw_breakpoints (fst t))"

lemmas sw_defs = sw_set_def sw_clear_def set_sw_breakpoint_def clear_sw_breakpoint_def restore_sw_slot_def

interpretation sw_table: tracked_breakpoints "\<lambda>t. session_ok (fst t)" sw_addrs 16 fst
  "sw_set K" "sw_clear K" for K :: "'w kernel"
proof unfold_locales
  fix t :: "session \<times> 'w" and r and a
  assume ok: "session_ok (fst t)"
  show "session_ok (fst (snd (sw_set K r t)))" "session_ok (fst (snd (sw_clear K a t)))"
    using ok_sw [OF ok] by (simp_all add: sw_set_def sw_clear_def)
  show "finite (sw_addrs t) \<and> card (sw_addrs t) \<le> 16"
    using card_addrs [of sb_addr "s_sw_breakpoints (fst t)"] ok by (simp add: session_ok_def)
  have freed: "addrs_of sb_addr ((s_sw_breakpoints (fst t))[i := None]) = sw_addrs t"
    if "position Option.is_none (s_sw_breakpoints (fst t)) = Some i" for i
    using position_SomeD [OF that] by (metis Option.is_none_def list_update_id)
  show "fst (sw_set K r t) \<Longrightarrow> sw_addrs (snd (sw_set K r t)) = insert (fst r) (sw_addrs t)"
    "\<not> fst (sw_set K r t) \<Longrightarrow> sw_addrs (snd (sw_set K r t)) = sw_addrs t"
    by (auto simp: sw_defs Let_def slot_simps freed split: prod.splits option.splits sum.splits if_splits
        dest: addrs_at)
  show "fst (sw_clear K a t) \<Longrightarrow> a \<in> sw_addrs t \<and> sw_addrs (snd (sw_clear K a t)) = sw_addrs t - {a}"
    "\<not> fst (sw_clear K a t) \<Longrightarrow>
       sw_addrs (snd (sw_clear K a t)) = sw_addrs t \<or> sw_addrs (snd (sw_clear K a t)) = sw_addrs t - {a}"
    using ok by (auto simp: sw_defs Let_def slot_simps session_ok_def
        split: prod.splits option.splits sum.splits dest: addrs_at)
qed

text \<open>A kernel that reads and writes the code of the process when asked.\<close>

definition text_reads :: "'w kernel \<Rightarrow> bool" where
  "text_reads K \<longleftrightarrow> (\<forall>p a n w. 0 \<le> sint (fst (fst (ksceKernelCopyFromUserProc K p a n w))))"

definition text_ready :: "'w kernel \<Rightarrow> bool" where
  "text_ready K \<longleftrightarrow> text_reads K \<and>
     (\<forall>p a bs w. fst (write_user_text K p a bs w) = Ok ())"

lemma text_reads_call:
  assumes "text_reads K" shows "sce_call n (ksceKernelCopyFromUserProc K p a k) w \<noteq> (Inl e, w1)"
  using assms by (auto simp: text_reads_def sce_call_def split_beta linorder_not_less [symmetric])

lemma text_ready_calls:
  assumes "text_ready K"
  shows "sce_call n (ksceKernelCopyFromUserProc K p a k) w \<noteq> (Inl e, w1)"
    "write_user_text K p a bs w \<noteq> (Inl e', w1)"
proof -
  show "sce_call n (ksceKernelCopyFromUserProc K p a k) w \<noteq> (Inl e, w1)"
    using text_reads_call [of K n p a k w e w1] assms by (simp add: text_ready_def)
  have "fst (write_user_text K p a bs w) = Ok ()" using assms by (simp add: text_ready_def)
  then show "write_user_text K p a bs w \<noteq> (Inl e', w1)" by auto
qed

interpretation sw_exact: exact_breakpoints
  "\<lambda>t. session_ok (fst t) \<and> s_pid (fst t) \<noteq> PID_UNUSED \<and> text_ready K" sw_addrs 16 fst
  "sw_set K" "sw_clear K" "\<lambda>r. \<not> is_shared_address (fst r)" for K :: "'w kernel"
proof unfold_locales
  fix t :: "session \<times> 'w" and r :: "u32 \<times> arm_breakpoint_kind" and a
  assume inv: "session_ok (fst t) \<and> s_pid (fst t) \<noteq> PID_UNUSED \<and> text_ready K"
  then have ok: "session_ok (fst t)" by simp
  have keeps: "s_pid (fst (snd (sw_set K r t))) = s_pid (fst t)"
    "s_pid (fst (snd (sw_clear K a t))) = s_pid (fst t)"
    by (auto simp: sw_defs Let_def split: prod.splits option.splits sum.splits)
  with inv sw_table.set_inv [OF ok] sw_table.clear_inv [OF ok]
  show "session_ok (fst (snd (sw_set K r t))) \<and> s_pid (fst (snd (sw_set K r t))) \<noteq> PID_UNUSED \<and> text_ready K"
    "session_ok (fst (snd (sw_clear K a t))) \<and> s_pid (fst (snd (sw_clear K a t))) \<noteq> PID_UNUSED \<and> text_ready K"
    by simp_all
  show "finite (sw_addrs t) \<and> card (sw_addrs t) \<le> 16"
    "fst (sw_set K r t) \<Longrightarrow> sw_addrs (snd (sw_set K r t)) = insert (fst r) (sw_addrs t)"
    "\<not> fst (sw_set K r t) \<Longrightarrow> sw_addrs (snd (sw_set K r t)) = sw_addrs t"
    "fst (sw_clear K a t) \<Longrightarrow> a \<in> sw_addrs t \<and> sw_addrs (snd (sw_clear K a t)) = sw_addrs t - {a}"
    "\<not> fst (sw_clear K a t) \<Longrightarrow>
       sw_addrs (snd (sw_clear K a t)) = sw_addrs t \<or> sw_addrs (snd (sw_clear K a t)) = sw_addrs t - {a}"
    using sw_table.room_bound [OF ok] sw_table.set_yes [OF ok] sw_table.set_no [OF ok]
      sw_table.clear_yes [OF ok] sw_table.clear_no [OF ok] by blast+
  have room: "position Option.is_none (s_sw_breakpoints (fst t)) = None \<longleftrightarrow> \<not> card (sw_addrs t) < 16"
    using ok room_left_iff [of sb_addr "s_sw_breakpoints (fst t)"] by (simp add: session_ok_def)
  have ready: "text_ready K" and pid: "session_pid (fst t) = Some (s_pid (fst t))"
    using inv by (simp_all add: session_pid_def)
  show "\<not> is_shared_address (fst r) \<Longrightarrow> fst (sw_set K r t) \<longleftrightarrow> fst r \<in> sw_addrs t \<or> card (sw_addrs t) < 16"
    using room text_ready_calls [OF ready]
    by (auto simp: sw_defs Let_def pid no_slot_at_iff split: prod.splits option.splits sum.splits
        dest: addrs_at)
  show "fst (sw_clear K a t) \<longleftrightarrow> a \<in> sw_addrs t"
    using text_ready_calls [OF ready]
    by (auto simp: sw_defs Let_def pid no_slot_at_iff split: prod.splits option.splits sum.splits
        dest: addrs_at slot_at_addr)
qed

section \<open>The program under the breakpoints\<close>

text \<open>The places a session has patched and the places requested.\<close>

definition sites :: "sw_breakpoint option list \<Rightarrow> (u32 \<times> nat) set" where
  "sites slots = {(sb_addr b, sb_patch_len b) | b. Some b \<in> set slots}"

definition wanted :: "(u32 \<times> arm_breakpoint_kind) bp_call list \<Rightarrow> (u32 \<times> nat) set" where
  "wanted cs = {(a, patch_len k) | a k. SetBp (a, k) \<in> set cs}"

text \<open>Places at different addresses do not overlap.\<close>

definition compatible :: "(u32 \<times> nat) set \<Rightarrow> bool" where
  "compatible S \<longleftrightarrow> (\<forall>(a, n) \<in> S. \<forall>(b, k) \<in> S. a \<noteq> b \<longrightarrow> (\<forall>x. \<not> (unat (x - a) < n \<and> unat (x - b) < k)))"

lemma compatible_apart:
  assumes "compatible S" "sites slots \<subseteq> S" "distinct_slots sb_addr slots"
  shows "sorted_wrt slots_apart slots"
  unfolding sorted_wrt_iff_nth_less slots_apart_def
proof (intro allI impI)
  fix i j b c
  assume ij: "i < j" "j < length slots" and b: "slots ! i = Some b" and c: "slots ! j = Some c"
  have "sb_addr b \<noteq> sb_addr c"
  proof
    assume "sb_addr b = sb_addr c"
    with assms(3) ij b c have "i = j" unfolding distinct_slots_def by (meson less_trans)
    with ij show False by simp
  qed
  moreover have "(sb_addr b, sb_patch_len b) \<in> S" "(sb_addr c, sb_patch_len c) \<in> S"
  proof -
    have "Some b \<in> set slots" "Some c \<in> set slots"
      using ij b c nth_mem [of i slots] nth_mem [of j slots] by simp_all
    then show "(sb_addr b, sb_patch_len b) \<in> S" "(sb_addr c, sb_patch_len c) \<in> S"
      using assms(2) unfolding sites_def by blast+
  qed
  ultimately show "apart b c"
    using assms(1) unfolding compatible_def apart_def covers_def by fast
qed

lemma sites_update: "sites (slots[i := e]) \<subseteq> sites slots \<union> (case e of None \<Rightarrow> {} | Some b \<Rightarrow> {(sb_addr b, sb_patch_len b)})"
  using set_update_subset_insert [of slots i e] by (auto simp: sites_def split: option.splits)

text \<open>The state of an attached session whose program text is \<open>original\<close>.\<close>

definition holds_text ::
  "('w \<Rightarrow> sce_uid \<Rightarrow> u32 \<Rightarrow> u8) \<Rightarrow> (u32 \<times> nat) set \<Rightarrow> sce_uid \<Rightarrow> (sce_uid \<Rightarrow> u32 \<Rightarrow> u8) \<Rightarrow> session \<times> 'w \<Rightarrow> bool"
where
  "holds_text mem S pid original t \<longleftrightarrow> session_ok (fst t) \<and> s_pid (fst t) = pid \<and>
     sites (s_sw_breakpoints (fst t)) \<subseteq> S \<and>
     program_text (s_sw_breakpoints (fst t)) (mem (snd t) pid) = original pid \<and>
     (\<forall>q. q \<noteq> pid \<longrightarrow> mem (snd t) q = original q)"

lemma read_mem:
  assumes "memory_laws mem K" "sce_call n (ksceKernelCopyFromUserProc K p a k) w = (Inr (r, data), w1)"
  shows "mem w1 = mem w" "data = peek (mem w p) a k"
proof -
  obtain r' d w' where c: "ksceKernelCopyFromUserProc K p a k w = ((r', d), w')" by (metis prod.exhaust)
  then have "mem w' = mem w \<and> (0 \<le> sint r' \<longrightarrow> d = peek (mem w p) a k)"
    using assms(1) unfolding memory_laws_def reads_mem_def by (metis (mono_tags, lifting) case_prod_conv)
  with c assms(2) show "mem w1 = mem w" "data = peek (mem w p) a k"
    by (auto simp: sce_call_def split: if_splits)
qed

lemma write_text_mem:
  assumes "memory_laws mem K" "write_user_text K p a bs w = (Inr u, w1)"
  shows "mem w1 = (mem w)(p := poke (mem w p) a bs)"
  using write_user_text_effect [OF assms] by (auto split: if_splits)

lemma sw_clear_text:
  assumes laws: "memory_laws mem K" and ready: "text_ready K" and S: "compatible S"
    and t: "holds_text mem S pid original t"
  shows "holds_text mem S pid original (snd (sw_clear K a t))"
proof (cases "session_pid (fst t)")
  case None
  then show ?thesis using t by (simp add: sw_defs)
next
  case (Some p)
  then have p: "p = pid" using t by (auto simp: session_pid_def holds_text_def split: if_splits)
  let ?sw = "s_sw_breakpoints (fst t)"
  have ok: "session_ok (fst t)" and sub: "sites ?sw \<subseteq> S" and pid: "s_pid (fst t) = pid"
    using t by (simp_all add: holds_text_def)
  then have apart: "sorted_wrt slots_apart ?sw" and entries: "list_all entry_ok ?sw"
    using compatible_apart [OF S sub] by (simp_all add: session_ok_def)
  show ?thesis
  proof (cases "position (slot_at sb_addr a) ?sw")
    case None
    then show ?thesis using t Some by (simp add: sw_defs)
  next
    case (Some i)
    then obtain b where b: "i < length ?sw" "?sw ! i = Some b" "sb_addr b = a" using slot_at_addr by blast
    obtain u w1 where w: "write_user_text K pid (sb_addr b) (saved b) (snd t) = (Inr u, w1)"
      using text_ready_calls(2) [OF ready, of pid "sb_addr b" "saved b" "snd t"] by (metis old.sum.exhaust prod.exhaust)
    have res: "sw_clear K a t = (True, (fst t)\<lparr>s_sw_breakpoints := ?sw[i := None]\<rparr>, w1)"
      using Some b w p \<open>session_pid (fst t) = Some p\<close> by (simp add: sw_defs Let_def saved_def)
    have "session_ok (fst (snd (sw_clear K a t)))" using sw_table.clear_inv [of t K a] ok by simp
    moreover have "sites (?sw[i := None]) \<subseteq> S" using sites_update [of ?sw i None] sub by auto
    ultimately show ?thesis
      using t write_text_mem [OF laws w] text_clear [OF apart entries b(1,2)]
      by (simp add: holds_text_def res)
  qed
qed

text \<open>A request that is refused or already granted, and one that enters a breakpoint.\<close>

lemma sw_set_idle:
  assumes laws: "memory_laws mem K" and ready: "text_ready K" and pid: "s_pid (fst t) = pid"
    and idle: "session_pid (fst t) = None \<or> is_shared_address (fst r) \<or>
      position (slot_at sb_addr (fst r)) (s_sw_breakpoints (fst t)) \<noteq> None \<or>
      position Option.is_none (s_sw_breakpoints (fst t)) = None"
  shows "fst (snd (sw_set K r t)) = fst t \<and> mem (snd (snd (sw_set K r t))) = mem (snd t)"
proof -
  obtain x data w1 where read:
    "sce_call ''ksceKernelCopyFromUserProc'' (ksceKernelCopyFromUserProc K pid (fst r) (patch_len (snd r))) (snd t) =
      (Inr (x, data), w1)"
    using text_ready_calls(1) [OF ready] by (metis old.sum.exhaust prod.exhaust)
  then show ?thesis
    using read_mem(1) [OF laws read] idle pid
    by (auto simp: sw_defs Let_def session_pid_def split: option.splits if_splits)
qed

lemma sw_set_enters:
  assumes laws: "memory_laws mem K" and ready: "text_ready K" and pid: "session_pid (fst t) = Some pid"
    and fresh: "\<not> is_shared_address (fst r)" "position (slot_at sb_addr (fst r)) (s_sw_breakpoints (fst t)) = None"
    and i: "position Option.is_none (s_sw_breakpoints (fst t)) = Some i"
  obtains b w where
    "sw_set K r t = (True, (fst t)\<lparr>s_sw_breakpoints := (s_sw_breakpoints (fst t))[i := Some b]\<rparr>, w)"
    "sb_addr b = fst r" "sb_patch_len b = patch_len (snd r)" "saved b = peek (mem (snd t) pid) (fst r) (patch_len (snd r))"
    "mem w = (mem (snd t))(pid := poke (mem (snd t) pid) (fst r) (patched (snd r)))"
proof -
  let ?k = "patch_len (snd r)"
  obtain x data w1 where read:
    "sce_call ''ksceKernelCopyFromUserProc'' (ksceKernelCopyFromUserProc K pid (fst r) ?k) (snd t) = (Inr (x, data), w1)"
    using text_ready_calls(1) [OF ready] by (metis old.sum.exhaust prod.exhaust)
  note bytes = read_mem [OF laws read]
  let ?b = "\<lparr>sb_addr = fst r, sb_orig = fill_prefix (replicate 4 0) data, sb_patch_len = ?k\<rparr>"
  obtain u w2 where wr: "write_user_text K pid (fst r) (patched (snd r)) w1 = (Inr u, w2)"
    using text_ready_calls(2) [OF ready] by (metis old.sum.exhaust prod.exhaust)
  show ?thesis
  proof (rule that [of ?b w2])
    show "sw_set K r t = (True, (fst t)\<lparr>s_sw_breakpoints := (s_sw_breakpoints (fst t))[i := Some ?b]\<rparr>, w2)"
      using pid fresh i read wr by (simp add: sw_defs Let_def)
    show "saved ?b = peek (mem (snd t) pid) (fst r) ?k"
      by (cases "snd r") (simp_all add: saved_def fill_prefix_def bytes patch_len_def)
    show "mem w2 = (mem (snd t))(pid := poke (mem (snd t) pid) (fst r) (patched (snd r)))"
      using write_text_mem [OF laws wr] by (simp add: bytes(1))
  qed simp_all
qed

lemma sw_set_text:
  assumes laws: "memory_laws mem K" and ready: "text_ready K" and S: "compatible S"
    and t: "holds_text mem S pid original t" and r: "(fst r, patch_len (snd r)) \<in> S"
  shows "holds_text mem S pid original (snd (sw_set K r t))"
proof -
  let ?sw = "s_sw_breakpoints (fst t)"
  have ok: "session_ok (fst t)" and sub: "sites ?sw \<subseteq> S" and pid: "s_pid (fst t) = pid"
    using t by (simp_all add: holds_text_def)
  show ?thesis
  proof (cases "session_pid (fst t) = None \<or> is_shared_address (fst r) \<or>
      position (slot_at sb_addr (fst r)) ?sw \<noteq> None \<or> position Option.is_none ?sw = None")
    case True
    from sw_set_idle [OF laws ready pid this] t show ?thesis by (simp add: holds_text_def)
  next
    case False
    then obtain i where i: "position Option.is_none ?sw = Some i" and fresh: "position (slot_at sb_addr (fst r)) ?sw = None"
      by auto
    then have slot: "i < length ?sw" "?sw ! i = None"
      using position_SomeD [OF i] by (auto simp: Option.is_none_def)
    have "session_pid (fst t) = Some pid" using False pid by (simp add: session_pid_def split: if_splits)
    then obtain b w where set: "sw_set K r t = (True, (fst t)\<lparr>s_sw_breakpoints := ?sw[i := Some b]\<rparr>, w)"
        and b: "sb_addr b = fst r" "sb_patch_len b = patch_len (snd r)" "saved b = peek (mem (snd t) pid) (fst r) (patch_len (snd r))"
        and w: "mem w = (mem (snd t))(pid := poke (mem (snd t) pid) (fst r) (patched (snd r)))"
      using sw_set_enters [OF laws ready _ _ fresh i] False by blast
    have okb: "session_ok ((fst t)\<lparr>s_sw_breakpoints := ?sw[i := Some b]\<rparr>)"
      using sw_table.set_inv [of t K r] ok set by simp
    have sub': "sites (?sw[i := Some b]) \<subseteq> S" using sites_update [of ?sw i "Some b"] sub r b by auto
    have "program_text (?sw[i := Some b]) (poke (mem (snd t) pid) (fst r) (patched (snd r))) =
        program_text ?sw (mem (snd t) pid)"
      using text_set [OF _ _ slot, of b "mem (snd t) pid" "patched (snd r)"] compatible_apart [OF S sub'] okb b
      by (simp add: session_ok_def)
    then show ?thesis using t okb sub' w by (simp add: holds_text_def set)
  qed
qed

lemma run_text:
  assumes "memory_laws mem K" "text_ready K" "compatible S"
  shows "holds_text mem S pid original t \<Longrightarrow> wanted cs \<subseteq> S \<Longrightarrow>
    holds_text mem S pid original (snd (run_bps (sw_set K) (sw_clear K) cs t))"
proof (induction cs arbitrary: t)
  case (Cons c cs)
  have rest: "wanted cs \<subseteq> S" using Cons.prems(2) by (auto simp: wanted_def)
  show ?case
  proof (cases c)
    case (SetBp r)
    then have "(fst r, patch_len (snd r)) \<in> S"
      using Cons.prems(2) unfolding wanted_def by (cases r) auto
    with SetBp Cons rest sw_set_text [OF assms Cons.prems(1), of r] show ?thesis
      by (simp add: Let_def split_beta)
  next
    case (ClearBp a)
    with Cons rest sw_clear_text [OF assms Cons.prems(1), of a] show ?thesis
      by (simp add: Let_def split_beta)
  qed
qed simp

text \<open>Tearing the session down.\<close>

lemma restore_text:
  assumes laws: "memory_laws mem K" and ready: "text_ready K"
  shows "sorted_wrt slots_apart slots \<Longrightarrow> list_all entry_ok slots \<Longrightarrow>
    mem (snd (restore_sws K pid slots w)) = (mem w)(pid := program_text slots (mem w pid))"
proof (induction slots arbitrary: w)
  case Nil
  then show ?case by simp
next
  case (Cons slot slots)
  show ?case
  proof (cases slot)
    case None
    with Cons show ?thesis by (simp add: restore_sw_slot_def split_beta)
  next
    case (Some b)
    obtain u w1 where w: "write_user_text K pid (sb_addr b) (saved b) w = (Inr u, w1)"
      using text_ready_calls(2) [OF ready] by (metis old.sum.exhaust prod.exhaust)
    have len: "length (saved b) = sb_patch_len b"
      by (rule length_saved) (use Cons.prems(2) Some in simp)
    have "\<forall>c. Some c \<in> set slots \<longrightarrow> apart b c" using Cons.prems(1) Some by (auto simp: slots_apart_def)
    then have "program_text slots (poke (mem w pid) (sb_addr b) (saved b)) = program_text (slot # slots) (mem w pid)"
      using text_poke [of slots b "saved b"] len Cons.prems(2) Some by simp
    moreover have "snd (restore_sws K pid (slot # slots) w) = snd (restore_sws K pid slots w1)"
      using w Some by (simp add: restore_sw_slot_def saved_def split_beta)
    moreover have "mem (snd (restore_sws K pid slots w1)) = (mem w1)(pid := program_text slots (mem w1 pid))"
      using Cons by (simp add: fun_upd_def)
    ultimately show ?thesis
      by (simp only: write_text_mem [OF laws w] fun_upd_same fun_upd_upd)
  qed
qed

lemma clear_regs_mem:
  assumes "memory_laws mem K"
  shows "mem (snd (clear_bps K pid i bps w)) = mem w" "mem (clear_wps K pid i wps w) = mem w"
proof -
  have quiet: "mem (snd (sceKernelSetPHBP K p j a c v)) = mem v" "mem (snd (sceKernelSetPHWP K p j a c v)) = mem v" for p j a c v
    using quiet_calls [OF assms] by (simp_all add: keeps_mem_def)
  show "mem (snd (clear_bps K pid i bps w)) = mem w"
    using quiet by (induction bps arbitrary: i w) (simp_all add: split_beta)
  show "mem (clear_wps K pid i wps w) = mem w"
    using quiet by (induction wps arbitrary: i w) simp_all
qed


lemma sound_kernel_text: "text_ready sound_kernel"
  by (simp add: text_ready_def text_reads_def sound_kernel_def demo_defs write_user_text_def call_simps split_beta)


lemma sound_write:
  "write_user_text sound_kernel p a bs w = (Ok (), w\<lparr>d_mem := (d_mem w)(p := poke (d_mem w p) a bs)\<rparr>)"
  by (simp add: write_user_text_def sound_kernel_def demo_defs call_simps)

lemma sound_read: "ksceKernelCopyFromUserProc sound_kernel p a n w = ((0, peek (d_mem w p) a n), w)"
  by (simp add: sound_kernel_def)

text \<open>
  The condition that breakpoints do not overlap is needed. With a four-byte breakpoint and
  a two-byte one inside it, clearing them in the order they were set leaves half of a patch in
  the code, although every request was accepted and the table is empty.
\<close>

theorem overlapping_breakpoints_corrupt:
  "case run_bps (sw_set sound_kernel) (sw_clear sound_kernel)
     [SetBp (0x1000, Arm32), SetBp (0x1002, Thumb16), ClearBp 0x1000, ClearBp 0x1002]
     (demo_session, demo_world) of (answers, s, w) \<Rightarrow>
   answers = [True, True, True, True] \<and> s_sw_breakpoints s = replicate 16 None \<and>
   peek (d_mem demo_world 5) 0x1000 4 = [0, 0, 0, 0] \<and> peek (d_mem w 5) 0x1000 4 = [0, 0, 0x20, 0xe1]"
proof -
  have sixteen: "replicate 16 (None :: sw_breakpoint option) = [None, None, None, None, None, None, None,
      None, None, None, None, None, None, None, None, None]"
    by (simp add: numeral_eq_Suc)
  have top: "unat (- 1 :: u32) = 4294967295" by (simp add: unsigned_minus_1_eq_mask mask_eq_exp_minus_1)
  have ranges: "[0..<4] = [0, 1, 2, 3]" "[0..<2] = [0, 1]" by (simp_all add: upt_rec)
  show ?thesis
    by (simp add: sw_defs sound_write sound_read sce_call_def Let_def session_pid_def demo_session_def uninit_def
        PID_UNUSED_def is_shared_address_def patch_len_def patched_def fill_prefix_def slot_at_def
        sixteen ranges top demo_world_def peek_def poke_def)
qed

text \<open>
  A breakpoint whose code cannot be written back is forgotten: the request is answered with
  a failure, the code keeps the patch, and the table no longer holds the address, so that
  neither a second request nor \<open>clear_all\<close> will restore it.
\<close>

theorem failed_restore_forgets_breakpoint:
  assumes "memory_laws mem K" "session_ok s" "session_pid s = Some pid"
    and "a \<in> addrs_of sb_addr (s_sw_breakpoints s)"
    and "\<And>bs v. sint (fst (fst (ksceKernelCopyToUserProcTextDomain K pid a bs v))) < 0"
    and "clear_sw_breakpoint K a s w = (answer, s', w')"
  shows "\<not> answer \<and> mem w' = mem w \<and> a \<notin> addrs_of sb_addr (s_sw_breakpoints s') \<and>
    (\<forall>v. clear_sw_breakpoint K a s' v = (False, s', v))"
proof -
  let ?sw = "s_sw_breakpoints s"
  have dist: "distinct_slots sb_addr ?sw" using assms(2) by (simp add: session_ok_def)
  obtain i where i: "position (slot_at sb_addr a) ?sw = Some i"
    using assms(4) no_slot_at_iff [of sb_addr a ?sw] by auto
  then obtain b where b: "?sw ! i = Some b" "sb_addr b = a" using slot_at_addr by blast
  obtain r w1 where wr: "write_user_text K pid a (saved b) w = (r, w1)" by (metis prod.exhaust)
  then have fail: "mem w1 = mem w" "\<exists>e. r = Err e"
    using write_user_text_effect [OF assms(1) wr] assms(5) by simp_all
  then have res: "\<not> answer" "s' = s\<lparr>s_sw_breakpoints := ?sw[i := None]\<rparr>" "w' = w1"
    using assms(3,6) i b wr by (auto simp: clear_sw_breakpoint_def restore_sw_slot_def saved_def Let_def)
  then have gone: "a \<notin> addrs_of sb_addr (s_sw_breakpoints s')"
    using addrs_of_free [OF i dist] by simp
  then have "position (slot_at sb_addr a) (s_sw_breakpoints s') = None" by (simp add: no_slot_at_iff)
  moreover have "session_pid s' = Some pid" using assms(3) res(2) by (simp add: session_pid_def split: if_splits)
  ultimately have "clear_sw_breakpoint K a s' v = (False, s', v)" for v
    by (simp add: clear_sw_breakpoint_def)
  with res fail gone show ?thesis by simp
qed

definition demo_patched :: session where
  "demo_patched = demo_session\<lparr>s_sw_breakpoints :=
     Some \<lparr>sb_addr = 0x1000, sb_orig = [1, 2, 0, 0], sb_patch_len = 2\<rparr> # replicate 15 None\<rparr>"

definition refusing_kernel :: "demo kernel" where
  "refusing_kernel = sound_kernel\<lparr>ksceKernelCopyToUserProcTextDomain := \<lambda>_ _ _ w. ((- 1, ()), w)\<rparr>"

theorem failed_restore_forgets_breakpoint_witness:
  "\<not> fst (clear_sw_breakpoint refusing_kernel 0x1000 demo_patched demo_world)"
proof -
  have "memory_laws d_mem refusing_kernel"
    by (simp add: refusing_kernel_def memory_defs sound_kernel_def demo_defs)
  moreover have "session_ok demo_patched"
  proof -
    have "distinct_slots sb_addr (Some b # replicate n None)" for b n
      by (auto simp: distinct_slots_def nth_Cons split: nat.splits)
    with demo_session_ok(1) show ?thesis
      by (simp add: demo_patched_def session_ok_def list_all_iff)
  qed
  moreover have "session_pid demo_patched = Some 5"
    by (simp add: demo_patched_def session_pid_def demo_session_def PID_UNUSED_def)
  moreover have "0x1000 \<in> addrs_of sb_addr (s_sw_breakpoints demo_patched)"
    by (auto simp: demo_patched_def addrs_of_def)
  moreover have "sint (fst (fst (ksceKernelCopyToUserProcTextDomain refusing_kernel 5 0x1000 bs v))) < 0" for bs v
    by (simp add: refusing_kernel_def)
  moreover obtain b s' w' where "clear_sw_breakpoint refusing_kernel 0x1000 demo_patched demo_world = (b, s', w')"
    by (metis prod.exhaust)
  ultimately show ?thesis using failed_restore_forgets_breakpoint by (metis fst_conv)
qed

section \<open>The end of a step\<close>

lemma holds_text_step [simp]:
  "holds_text mem S pid orig (set_step tid addr ses, w) = holds_text mem S pid orig (ses, w)"
  "holds_text mem S pid orig (ses\<lparr>s_step := x\<rparr>, w) = holds_text mem S pid orig (ses, w)"
  "holds_text mem S pid orig (ses\<lparr>s_step_result := y\<rparr>, w) = holds_text mem S pid orig (ses, w)"
  by (simp_all add: holds_text_def set_step_def)

text \<open>Finishing a step takes its breakpoint out and leaves the program under the others alone.\<close>

lemma step_finished_clears:
  assumes "memory_laws mem K" "text_ready K" "compatible S" "holds_text mem S pid original (ses, w)" "pid \<noteq> PID_UNUSED"
    and ev: "s_evflag ses = Some f" and step: "s_step ses = Some (tid, a)"
  shows "\<exists>t w'. step_finished K ses w = (Ok (), t, w') \<and> s_step t = None \<and> s_step_result t = Some tid \<and>
    a \<notin> addrs_of sb_addr (s_sw_breakpoints t) \<and> holds_text mem S pid original (t, w')"
proof -
  let ?ses = "ses\<lparr>s_step := None\<rparr>"
  obtain c s3 w3 where clear: "clear_sw_breakpoint K a ?ses w = (c, s3, w3)" by (metis prod.exhaust)
  then have res: "sw_clear K a (?ses, w) = (c, s3, w3)" by (simp add: sw_clear_def)
  have held: "holds_text mem S pid original (?ses, w)" using assms(4) by simp
  have after: "holds_text mem S pid original (s3, w3)"
    using sw_clear_text [OF assms(1-3) held, of a] by (simp add: res)
  have ok: "session_ok (fst (?ses, w)) \<and> s_pid (fst (?ses, w)) \<noteq> PID_UNUSED \<and> text_ready K"
    using assms(2,5) held by (simp add: holds_text_def)
  have gone: "a \<notin> addrs_of sb_addr (s_sw_breakpoints s3)"
    using sw_exact.clear_answer [OF ok, of a] sw_exact.clear_yes [OF ok, of a] sw_exact.clear_no [OF ok, of a]
    by (auto simp: res)
  have s3: "s_step s3 = None" "s_evflag s3 = Some f"
    using clear ev
    by (auto simp: clear_sw_breakpoint_def Let_def split: prod.splits option.splits sum.splits)
  have "mem (snd (evf_set K f EV_WAKE_WORKER w3)) = mem w3"
    using quiet_calls(5) [OF assms(1), of f EV_WAKE_WORKER] by (simp add: evf_set_def seq_call ret_def keeps_mem_def)
  with clear s3 gone after step show ?thesis
    by (auto simp: step_finished_def Let_def holds_text_def session_ok_def)
qed

end
