(* ===== verification/Session_Race.thy ===== *)
theory Session_Race
  imports Text_Patches
begin

text \<open>
  \<open>set_sw_breakpoint\<close> of \<open>gdb/sessions.rs\<close> holds the lock of the breakpoint table only while it
  enters the breakpoint; it reads the code before and patches it after. Here it is cut at the
  ends of its locked sections, so that other threads can come in between. Undisturbed, the
  pieces are \<open>set_sw_breakpoint\<close>; with a clear of the same address in the last gap, the patch
  outlives its table entry. So it does, without any second thread, when the code write fails
  half-way.
\<close>

section \<open>The pieces\<close>

text \<open>Up to the first lock: the guards and the copy of the code. \<open>Inl\<close> is an early return.\<close>

definition sw_copy_code ::
  "'w kernel \<Rightarrow> u32 \<Rightarrow> arm_breakpoint_kind \<Rightarrow> session \<times> 'w \<Rightarrow> (bool + sce_uid \<times> u8 list) \<times> session \<times> 'w" where
  "sw_copy_code K addr kind t = (case t of (s, w) \<Rightarrow> (case session_pid s of None \<Rightarrow> (Inl False, s, w) | Some pid \<Rightarrow>
     if is_shared_address addr then (Inl False, s, w)
     else (case sce_call ''ksceKernelCopyFromUserProc'' (ksceKernelCopyFromUserProc K pid addr (patch_len kind)) w of
       (Inl _, w) \<Rightarrow> (Inl False, s, w)
     | (Inr (_, data), w) \<Rightarrow> (Inr (pid, fill_prefix (replicate 4 0) data), s, w))))"

text \<open>The locked section: enter the breakpoint.\<close>

definition sw_claim :: "u32 \<Rightarrow> arm_breakpoint_kind \<Rightarrow> u8 list \<Rightarrow> session \<times> 'w \<Rightarrow> (bool + nat) \<times> session \<times> 'w" where
  "sw_claim addr kind orig t = (case t of (s, w) \<Rightarrow> (let sw = s_sw_breakpoints s in
     (case position (slot_at sb_addr addr) sw of
        Some _ \<Rightarrow> (Inl True, s, w)
      | None \<Rightarrow> (case position Option.is_none sw of
          None \<Rightarrow> (Inl False, s, w)
        | Some claimed \<Rightarrow> (Inr claimed, s\<lparr>s_sw_breakpoints := sw[claimed :=
              Some \<lparr>sb_addr = addr, sb_orig = orig, sb_patch_len = patch_len kind\<rparr>]\<rparr>, w)))))"

text \<open>The patch, and the second locked section when it failed.\<close>

definition sw_patch :: "'w kernel \<Rightarrow> sce_uid \<Rightarrow> u32 \<Rightarrow> arm_breakpoint_kind \<Rightarrow> session \<times> 'w \<Rightarrow> bool \<times> session \<times> 'w" where
  "sw_patch K pid addr kind t = (case t of (s, w) \<Rightarrow> (case write_user_text K pid addr (patched kind) w of
     (Inr _, w) \<Rightarrow> (True, s, w)
   | (Inl _, w) \<Rightarrow> (False, s, w)))"

definition sw_unclaim :: "nat \<Rightarrow> session \<times> 'w \<Rightarrow> session \<times> 'w" where
  "sw_unclaim claimed t = (case t of (s, w) \<Rightarrow> (s\<lparr>s_sw_breakpoints := (s_sw_breakpoints s)[claimed := None]\<rparr>, w))"

text \<open>\<open>gap\<close> is what other threads do before the lock, before the patch and after a failed patch.\<close>

definition sw_set_gaps ::
  "'w kernel \<Rightarrow> (nat \<Rightarrow> session \<times> 'w \<Rightarrow> session \<times> 'w) \<Rightarrow> u32 \<Rightarrow> arm_breakpoint_kind \<Rightarrow> session \<times> 'w \<Rightarrow> bool \<times> session \<times> 'w" where
  "sw_set_gaps K gap addr kind t = (case sw_copy_code K addr kind t of
     (Inl b, t) \<Rightarrow> (b, t)
   | (Inr (pid, orig), t) \<Rightarrow> (case sw_claim addr kind orig (gap 0 t) of
       (Inl b, t) \<Rightarrow> (b, t)
     | (Inr claimed, t) \<Rightarrow> (case sw_patch K pid addr kind (gap 1 t) of
         (True, t) \<Rightarrow> (True, t)
       | (False, t) \<Rightarrow> (False, sw_unclaim claimed (gap 2 t)))))"

lemmas sw_piece_defs = sw_copy_code_def sw_claim_def sw_patch_def sw_unclaim_def

lemma sw_set_undisturbed: "sw_set_gaps K (\<lambda>_ t. t) addr kind (s, w) = set_sw_breakpoint K addr kind s w"
  by (auto simp: sw_set_gaps_def sw_piece_defs set_sw_breakpoint_def Let_def
      split: option.splits sum.splits prod.splits)

text \<open>What the first two pieces do when there is room.\<close>

lemma sw_claimed:
  assumes "memory_laws mem K" "text_reads K" "session_ok s" "session_pid s = Some pid"
    and "\<not> is_shared_address addr" "addr \<notin> addrs_of sb_addr (s_sw_breakpoints s)"
    and "card (addrs_of sb_addr (s_sw_breakpoints s)) < 16"
  obtains orig w1 i b where "sw_copy_code K addr kind (s, w) = (Inr (pid, orig), s, w1)" "mem w1 = mem w"
    "position Option.is_none (s_sw_breakpoints s) = Some i"
    "b = \<lparr>sb_addr = addr, sb_orig = orig, sb_patch_len = patch_len kind\<rparr>" "saved b = peek (mem w pid) addr (patch_len kind)"
    "sw_claim addr kind orig (s, w1) = (Inr i, s\<lparr>s_sw_breakpoints := (s_sw_breakpoints s)[i := Some b]\<rparr>, w1)"
proof -
  obtain x data w1 where read:
    "sce_call ''ksceKernelCopyFromUserProc'' (ksceKernelCopyFromUserProc K pid addr (patch_len kind)) w = (Inr (x, data), w1)"
    using text_reads_call [OF assms(2)] by (metis old.sum.exhaust prod.exhaust)
  note bytes = read_mem [OF assms(1) read]
  let ?orig = "fill_prefix (replicate 4 0) data"
  let ?b = "\<lparr>sb_addr = addr, sb_orig = ?orig, sb_patch_len = patch_len kind\<rparr>"
  have fresh: "position (slot_at sb_addr addr) (s_sw_breakpoints s) = None" using assms(6) by (simp add: no_slot_at_iff)
  obtain i where i: "position Option.is_none (s_sw_breakpoints s) = Some i"
    using assms(3,7) room_left_iff [of sb_addr "s_sw_breakpoints s"] by (auto simp: session_ok_def)
  show ?thesis
  proof (rule that [OF _ bytes(1) i refl])
    show "sw_copy_code K addr kind (s, w) = (Inr (pid, ?orig), s, w1)"
      using assms(4,5) read by (simp add: sw_copy_code_def)
    show "saved ?b = peek (mem w pid) addr (patch_len kind)"
      by (cases kind) (simp_all add: saved_def fill_prefix_def bytes patch_len_def)
    show "sw_claim addr kind ?orig (s, w1) = (Inr i, s\<lparr>s_sw_breakpoints := (s_sw_breakpoints s)[i := Some ?b]\<rparr>, w1)"
      using fresh i by (simp add: sw_claim_def Let_def)
  qed
qed

section \<open>A patch without an entry\<close>

text \<open>
  While the worker is between entering a breakpoint and patching the code, another thread
  clears the address: it writes the original bytes back, which are still there, and empties
  the slot. The worker then patches the code and reports success, and nobody remembers the patch.
\<close>

theorem clear_before_patch_leaves_patch:
  assumes "memory_laws mem K" "text_ready K" "session_ok s" "session_pid s = Some pid"
    and "\<not> is_shared_address addr" "addr \<notin> addrs_of sb_addr (s_sw_breakpoints s)"
    and "card (addrs_of sb_addr (s_sw_breakpoints s)) < 16"
    and "gap = (\<lambda>n t. if n = 1 then snd (sw_clear K addr t) else t)"
    and "sw_set_gaps K gap addr kind (s, w) = (answer, s', w')"
  shows "answer \<and> s_sw_breakpoints s' = s_sw_breakpoints s \<and>
    mem w' = (mem w)(pid := poke (mem w pid) addr (patched kind))"
proof -
  let ?sw = "s_sw_breakpoints s"
  have "text_reads K" using assms(2) by (simp add: text_ready_def)
  from sw_claimed [OF assms(1) this assms(3-7), of kind w] obtain orig w1 i b where
    copy: "sw_copy_code K addr kind (s, w) = (Inr (pid, orig), s, w1)" "mem w1 = mem w"
    and i: "position Option.is_none ?sw = Some i"
    and b: "b = \<lparr>sb_addr = addr, sb_orig = orig, sb_patch_len = patch_len kind\<rparr>"
      "saved b = peek (mem w pid) addr (patch_len kind)"
    and claim: "sw_claim addr kind orig (s, w1) = (Inr i, s\<lparr>s_sw_breakpoints := ?sw[i := Some b]\<rparr>, w1)"
    by blast
  have slot: "i < length ?sw" "?sw ! i = None" using position_SomeD [OF i] by (auto simp: Option.is_none_def)
  let ?s1 = "s\<lparr>s_sw_breakpoints := ?sw[i := Some b]\<rparr>"
  have pos: "position (slot_at sb_addr addr) (?sw[i := Some b]) = Some i"
  proof (rule position_eqI)
    show "\<not> slot_at sb_addr addr (?sw[i := Some b] ! j)" if "j < i" for j
      using that slot assms(6) by (force simp: slot_at_iff addrs_of_nth)
  qed (use slot b in \<open>simp_all add: slot_at_def\<close>)
  obtain u w2 where w2: "write_user_text K pid addr (saved b) w1 = (Inr u, w2)"
    using text_ready_calls(2) [OF assms(2)] by (metis old.sum.exhaust prod.exhaust)
  have m2: "mem w2 = mem w"
    using write_text_mem [OF assms(1) w2] copy(2) b(2) by (simp add: poke_peek)
  have clear: "snd (sw_clear K addr (?s1, w1)) = (s\<lparr>s_sw_breakpoints := ?sw\<rparr>, w2)"
    using assms(4) pos slot b(1) w2 by (simp add: sw_defs Let_def saved_def session_pid_def list_update_same_conv
        split: if_splits)
  obtain v w3 where w3: "write_user_text K pid addr (patched kind) w2 = (Inr v, w3)"
    using text_ready_calls(2) [OF assms(2)] by (metis old.sum.exhaust prod.exhaust)
  have "sw_set_gaps K gap addr kind (s, w) = (True, s\<lparr>s_sw_breakpoints := ?sw\<rparr>, w3)"
    using copy claim clear w3 by (simp add: sw_set_gaps_def assms(8) sw_patch_def)
  then show ?thesis using assms(9) write_text_mem [OF assms(1) w3] m2 by auto
qed

section \<open>A code write that fails half-way\<close>

text \<open>
  \<open>write_user_text\<close> copies the bytes first; flushing the caches needs the context of the
  process. When that cannot be had, the error comes after the bytes are in.
\<close>

lemma write_without_context:
  assumes "memory_laws mem K" "\<And>n v. 0 \<le> sint (fst (fst (ksceKernelCopyToUserProcTextDomain K pid addr n v)))"
    and "\<And>v. sint (fst (fst (ksceKernelProcessGetContext K pid v))) < 0"
    and "write_user_text K pid addr bs w = (r, w')"
  shows "(\<exists>e. r = Err e) \<and> mem w' = (mem w)(pid := poke (mem w pid) addr bs)"
proof -
  obtain c o1 w1 where c: "ksceKernelCopyToUserProcTextDomain K pid addr bs w = ((c, o1), w1)" by (metis prod.exhaust)
  have "0 \<le> sint c" using assms(2) [of bs w] c by simp
  moreover obtain i w2 where i: "ksceKernelCpuSuspendIntr K w1 = (i, w2)" by (metis prod.exhaust)
  moreover obtain d o2 w3 where d: "ksceKernelProcessGetContext K pid w2 = ((d, o2), w3)" by (metis prod.exhaust)
  moreover have "sint d < 0" using assms(3) [of w2] d by simp
  ultimately have "\<exists>e. r = Err e" using assms(4) c by (auto simp: write_user_text_def seq_call run_def)
  moreover have "mem w' = (mem w)(pid := poke (mem w pid) addr bs)"
    using write_user_text_effect [OF assms(1,4)] assms(2) [of bs w] by (simp add: linorder_not_less [symmetric])
  ultimately show ?thesis by blast
qed

text \<open>
  C39: A breakpoint request that fails after its bytes are in leaves them there. The request is
  answered with a failure, the table holds exactly the breakpoints it held before, and the
  code has the patch, which no later clear of the address takes out.
\<close>

theorem failed_set_leaves_patch:
  assumes "memory_laws mem K" "text_reads K" "session_ok s" "session_pid s = Some pid"
    and "\<not> is_shared_address addr" "addr \<notin> addrs_of sb_addr (s_sw_breakpoints s)"
    and "card (addrs_of sb_addr (s_sw_breakpoints s)) < 16"
    and "\<And>bs v. 0 \<le> sint (fst (fst (ksceKernelCopyToUserProcTextDomain K pid addr bs v)))"
    and "\<And>v. sint (fst (fst (ksceKernelProcessGetContext K pid v))) < 0"
    and "set_sw_breakpoint K addr kind s w = (answer, s', w')"
  shows "\<not> answer \<and> s' = s \<and> mem w' = (mem w)(pid := poke (mem w pid) addr (patched kind)) \<and>
    (\<forall>v. clear_sw_breakpoint K addr s' v = (False, s', v))"
proof -
  let ?sw = "s_sw_breakpoints s"
  from sw_claimed [OF assms(1-7), of kind w] obtain orig w1 i b where
    copy: "sw_copy_code K addr kind (s, w) = (Inr (pid, orig), s, w1)" "mem w1 = mem w"
    and i: "position Option.is_none ?sw = Some i"
    and "b = \<lparr>sb_addr = addr, sb_orig = orig, sb_patch_len = patch_len kind\<rparr>"
      "saved b = peek (mem w pid) addr (patch_len kind)"
    and claim: "sw_claim addr kind orig (s, w1) = (Inr i, s\<lparr>s_sw_breakpoints := ?sw[i := Some b]\<rparr>, w1)"
    by blast
  have slot: "?sw[i := None] = ?sw" using position_SomeD [OF i] by (simp add: Option.is_none_def list_update_same_conv)
  obtain r w2 where wr: "write_user_text K pid addr (patched kind) w1 = (r, w2)" by (metis prod.exhaust)
  note fail = write_without_context [OF assms(1,8,9) wr]
  then have "sw_set_gaps K (\<lambda>_ t. t) addr kind (s, w) = (False, s, w2)"
    using copy claim wr slot by (auto simp: sw_set_gaps_def sw_patch_def sw_unclaim_def)
  then have "\<not> answer" "s' = s" "w' = w2" using assms(10) by (simp_all add: sw_set_undisturbed)
  moreover have "clear_sw_breakpoint K addr s v = (False, s, v)" for v
    using assms(4,6) by (simp add: clear_sw_breakpoint_def no_slot_at_iff [symmetric])
  ultimately show ?thesis using fail copy(2) by simp
qed

definition contextless_kernel :: "demo kernel" where
  "contextless_kernel = sound_kernel\<lparr>ksceKernelProcessGetContext := \<lambda>_ w. ((- 1, undefined), w)\<rparr>"

theorem failed_set_leaves_patch_witness:
  "\<not> fst (set_sw_breakpoint contextless_kernel 0x1000 Arm32 demo_session demo_world) \<and>
   peek (d_mem (snd (snd (set_sw_breakpoint contextless_kernel 0x1000 Arm32 demo_session demo_world))) 5) 0x1000 4
     = patched Arm32"
proof -
  have none: "s_sw_breakpoints demo_session = replicate 16 None" by (simp add: demo_session_def uninit_def)
  obtain b s' w' where run: "set_sw_breakpoint contextless_kernel 0x1000 Arm32 demo_session demo_world = (b, s', w')"
    by (metis prod.exhaust)
  have "memory_laws d_mem contextless_kernel" "text_reads contextless_kernel"
    by (simp_all add: contextless_kernel_def memory_defs sound_kernel_def demo_defs text_reads_def)
  moreover have "session_pid demo_session = Some 5" using demo_session_ok(2,3) by (simp add: session_pid_def)
  moreover have "0 \<le> sint (fst (fst (ksceKernelCopyToUserProcTextDomain contextless_kernel 5 0x1000 bs v)))"
    "sint (fst (fst (ksceKernelProcessGetContext contextless_kernel 5 v))) < 0" for bs v
    by (simp_all add: contextless_kernel_def sound_kernel_def)
  moreover have "\<not> is_shared_address 0x1000" "0x1000 \<notin> addrs_of sb_addr (s_sw_breakpoints demo_session)"
    "card (addrs_of sb_addr (s_sw_breakpoints demo_session)) < 16"
    by (simp_all add: none is_shared_address_def)
  ultimately have "\<not> b" "d_mem w' = (d_mem demo_world)(5 := poke (d_mem demo_world 5) 0x1000 (patched Arm32))"
    using failed_set_leaves_patch [OF _ _ demo_session_ok(1) _ _ _ _ _ _ run, of d_mem 5] by blast+
  moreover have "length (patched Arm32) = 4" by (simp add: patched_def)
  ultimately show ?thesis using peek_poke_same [of "patched Arm32" "d_mem demo_world 5" "0x1000"]
    by (simp add: run)
qed

end
