(* ===== verification/Session_Life.thy ===== *)
theory Session_Life
  imports Text_Patches
begin

text \<open>
  The life of a session: claiming a slot of the pool, being found by the exception handlers,
  collecting events, stepping, and giving the slot back.
\<close>

section \<open>The pool\<close>

definition pid_unique :: "session list \<Rightarrow> bool" where
  "pid_unique pool \<longleftrightarrow> (\<forall>i j. i < length pool \<longrightarrow> j < length pool \<longrightarrow>
     s_pid (pool ! i) = s_pid (pool ! j) \<longrightarrow> s_pid (pool ! i) \<noteq> PID_UNUSED \<longrightarrow> i = j)"

lemma position_update_other:
  assumes "\<not> p (xs ! i)" "\<not> p y" shows "position p (xs[i := y]) = position p xs"
  using assms
proof (induction xs arbitrary: i)
  case (Cons x xs)
  then show ?case by (cases i) auto
qed simp

lemma claimed_slot:
  assumes "gdb_session_new flag pid pool = (Some i, pool')"
  shows "i < length pool" "s_pid (pool ! i) = PID_UNUSED" "\<forall>j<i. s_pid (pool ! j) \<noteq> PID_UNUSED"
    "pool' = pool[i := (pool ! i)\<lparr>s_pid := pid, s_evflag := Some flag\<rparr>]"
  using assms by (auto simp: gdb_session_new_def Let_def split: option.splits dest: position_SomeD)

text \<open>Looking up the process a claimed slot was given.\<close>

lemma claimed_lookup:
  assumes "i < length pool" "s_pid (pool ! i) = PID_UNUSED" "pid \<noteq> PID_UNUSED" "pid_unique pool" "s_pid new = pid"
  shows "case find_session_for_pid pid pool of
      None \<Rightarrow> find_session_for_pid pid (pool[i := new]) = Some i \<and> pid_unique (pool[i := new])
    | Some j \<Rightarrow> find_session_for_pid pid (pool[i := new]) = Some (min i j) \<and> \<not> pid_unique (pool[i := new])"
proof (cases "find_session_for_pid pid pool")
  case None
  then have free: "s_pid (pool ! j) \<noteq> pid" if "j < length pool" for j
    using that by (simp add: find_session_for_pid_def position_None_iff)
  have "find_session_for_pid pid (pool[i := new]) = Some i"
    unfolding find_session_for_pid_def by (rule position_eqI) (use assms free in auto)
  moreover have "pid_unique (pool[i := new])"
    using assms free unfolding pid_unique_def by (metis length_list_update nth_list_update_eq nth_list_update_neq)
  ultimately show ?thesis using None by simp
next
  case (Some j)
  then have j: "j < length pool" "s_pid (pool ! j) = pid" "\<forall>k<j. s_pid (pool ! k) \<noteq> pid"
    by (auto simp: find_session_for_pid_def dest: position_SomeD)
  then have ne: "i \<noteq> j" using assms(2,3) by auto
  have "find_session_for_pid pid (pool[i := new]) = Some (min i j)"
    unfolding find_session_for_pid_def
    by (rule position_eqI) (use assms j ne in \<open>auto simp: nth_list_update min_def split: if_splits\<close>)
  moreover have "\<not> pid_unique (pool[i := new])"
    using assms j ne unfolding pid_unique_def by (metis length_list_update nth_list_update_eq nth_list_update_neq)
  ultimately show ?thesis using Some by simp
qed


definition demo_pool :: "session list" where
  "demo_pool = [demo_session, uninit (replicate 8 (HwBreak 0)), uninit (replicate 8 (HwBreak 0)), uninit (replicate 8 (HwBreak 0))]"


section \<open>Events\<close>

fun push_all :: "'w kernel \<Rightarrow> exception_event list \<Rightarrow> session \<times> 'w \<Rightarrow> session \<times> 'w" where
  "push_all K [] t = t"
| "push_all K (ev # evs) t = push_all K evs (push_excp K ev (fst t) (snd t))"

fun pop_all :: "nat \<Rightarrow> session \<Rightarrow> exception_event list" where
  "pop_all 0 s = []"
| "pop_all (Suc n) s = (case pop_excp s of (None, _) \<Rightarrow> [] | (Some ev, s') \<Rightarrow> ev # pop_all n s')"

lemma push_all_session:
  assumes "session_ok s" "s_evflag s = Some f" "length (contents (s_exceptions s)) + length evs \<le> 7"
  shows "\<exists>s'. fst (push_all K evs (s, w)) = s' \<and> session_ok s' \<and>
    contents (s_exceptions s') = contents (s_exceptions s) @ evs"
  using assms
proof (induction evs arbitrary: s w)
  case (Cons ev evs)
  let ?s = "fst (push_excp K ev s w)"
  have ring: "ring_ok (s_exceptions s)" "cap (s_exceptions s) = 8" using Cons.prems by (simp_all add: session_ok_def)
  have "fst (push (s_exceptions s) ev)" using Cons.prems ring by (simp add: push_result)
  then have "contents (s_exceptions ?s) = contents (s_exceptions s) @ [ev]" "s_evflag ?s = Some f"
    using Cons.prems push_contents [OF ring(1), of ev] by (simp_all add: push_excp_def)
  with Cons.IH [of ?s "snd (push_excp K ev s w)"] Cons.prems ok_events(1) [OF Cons.prems(1), of K ev w]
  show ?case by simp
qed simp

lemma pop_all_contents: "session_ok s \<Longrightarrow> pop_all n s = take n (contents (s_exceptions s))"
proof (induction n arbitrary: s)
  case (Suc n)
  have ring: "ring_ok (s_exceptions s)" using Suc.prems by (simp add: session_ok_def)
  show ?case
    using Suc.IH [OF ok_events(2) [OF Suc.prems]] pop_result [OF ring] pop_contents [OF ring]
    by (cases "contents (s_exceptions s)") (simp_all add: pop_excp_def)
qed simp

lemma has_excp_iff: "session_ok s \<Longrightarrow> has_excp s \<longleftrightarrow> contents (s_exceptions s) \<noteq> []"
  using len_zero_iff [of "s_exceptions s"] by (simp add: has_excp_def session_ok_def word_gt_0)

text \<open>
  Up to seven exceptions raised while none was waiting are all reported, each once and in
  the order they were raised, and \<open>has_excp\<close> says whether one is waiting.
\<close>

theorem exceptions_reported_in_order:
  assumes "session_ok s" "s_evflag s = Some f" "\<not> has_excp s" "length evs \<le> 7"
  shows "pop_all 8 (fst (push_all K evs (s, w))) = evs \<and>
    (has_excp (fst (push_all K evs (s, w))) \<longleftrightarrow> evs \<noteq> [])"
proof -
  have empty: "contents (s_exceptions s) = []" using has_excp_iff [OF assms(1)] assms(3) by simp
  obtain s' where s': "fst (push_all K evs (s, w)) = s'" "session_ok s'" "contents (s_exceptions s') = evs"
    using push_all_session [OF assms(1,2), of evs K w] assms(4) empty by auto
  then show ?thesis
    using assms(4) by (simp add: pop_all_contents has_excp_iff)
qed

theorem exceptions_reported_in_order_witness:
  "pop_all 8 (fst (push_all demo_kernel [SwBreak 7, HwBreak 8] (demo_session, demo_world))) = [SwBreak 7, HwBreak 8]"
proof -
  have "s_evflag demo_session = Some 9" "\<not> has_excp demo_session"
    by (simp_all add: demo_session_def has_excp_def uninit_def mpsc_new_def len_def)
  from exceptions_reported_in_order [OF demo_session_ok(1) this, of "[SwBreak 7, HwBreak 8]" demo_kernel demo_world]
  show ?thesis by (simp del: push_all.simps)
qed

section \<open>Stepping\<close>

text \<open>
  A single step. Planting a breakpoint at the step's target, then hitting it, ends with the
  step recorded for its thread and nothing pending, and the table without the target address.
  Where the table already held that address, set by the debugger, that breakpoint is gone too.
\<close>

theorem step_ends_without_target_breakpoint:
  assumes "text_ready K" "session_ok s" "s_evflag s = Some f"
    and planted: "set_sw_breakpoint K a kind s w = (True, s1, w1)"
    and hit: "is_step a (set_step tid a s1)" "step_finished K (set_step tid a s1) w1 = (r, s2, w2)"
  shows "r = Ok () \<and> fst (pop_step_finished s2) = Some tid \<and> s_step s2 = None \<and>
    addrs_of sb_addr (s_sw_breakpoints s2) = addrs_of sb_addr (s_sw_breakpoints s) - {a}"
proof -
  let ?s = "set_step tid a s1" let ?c = "(?s\<lparr>s_step := None\<rparr>, w1)"
  have set_res: "sw_set K (a, kind) (s, w) = (True, s1, w1)" using planted by (simp add: sw_set_def)
  have s1: "session_ok s1" "addrs_of sb_addr (s_sw_breakpoints s1) = insert a (addrs_of sb_addr (s_sw_breakpoints s))"
    using sw_table.set_inv [of "(s, w)" K "(a, kind)"] sw_table.set_yes [of "(s, w)" K "(a, kind)"] assms(2) set_res by simp_all
  have more: "s_evflag s1 = Some f" "s_pid s1 \<noteq> PID_UNUSED"
    using planted assms(3)
    by (auto simp: set_sw_breakpoint_def Let_def session_pid_def split: prod.splits option.splits sum.splits if_splits)
  have c: "session_ok (fst ?c) \<and> s_pid (fst ?c) \<noteq> PID_UNUSED \<and> text_ready K"
    using s1 more assms(1) by (simp add: set_step_def)
  have same: "sw_addrs ?c = sw_addrs (s1, w1)" by (simp add: set_step_def)
  obtain b s3 w3 where clear: "clear_sw_breakpoint K a (?s\<lparr>s_step := None\<rparr>) w1 = (b, s3, w3)" by (metis prod.exhaust)
  then have res: "sw_clear K a ?c = (b, s3, w3)" by (simp add: sw_clear_def)
  have "fst (sw_clear K a ?c)" using sw_exact.clear_answer [OF c, of a] same s1 by simp
  from sw_exact.clear_yes [OF c this] have addrs: "addrs_of sb_addr (s_sw_breakpoints s3) = addrs_of sb_addr (s_sw_breakpoints s) - {a}"
    using same s1 res by auto
  have "s_evflag s3 = Some f" "s_step s3 = None"
    using clear more by (auto simp: clear_sw_breakpoint_def set_step_def Let_def
        split: prod.splits option.splits sum.splits)
  moreover have "s_step ?s = Some (tid, a)" by (simp add: set_step_def)
  ultimately have "r = Ok ()" "s2 = s3\<lparr>s_step_result := Some tid\<rparr>"
    using hit(2) clear by (simp_all add: step_finished_def Let_def)
  with addrs \<open>s_step s3 = None\<close> show ?thesis by (simp add: pop_step_finished_def)
qed

theorem step_ends_without_target_breakpoint_witness:
  "fst (pop_step_finished (fst (snd (step_finished sound_kernel
     (set_step 7 0x1004 (fst (snd (set_sw_breakpoint sound_kernel 0x1004 Thumb16 demo_session demo_world))))
     (snd (snd (set_sw_breakpoint sound_kernel 0x1004 Thumb16 demo_session demo_world))))))) = Some 7"
proof -
  obtain b s1 w1 where planted: "set_sw_breakpoint sound_kernel 0x1004 Thumb16 demo_session demo_world = (b, s1, w1)"
    by (metis prod.exhaust)
  obtain r s2 w2 where hit: "step_finished sound_kernel (set_step 7 0x1004 s1) w1 = (r, s2, w2)"
    by (metis prod.exhaust)
  have empty: "addrs_of sb_addr (s_sw_breakpoints demo_session) = {}"
    by (simp add: demo_session_def uninit_def)
  have "fst (sw_set sound_kernel (0x1004, Thumb16) (demo_session, demo_world))"
    using sw_exact.set_answer [of "(demo_session, demo_world)" sound_kernel "(0x1004, Thumb16)"]
    by (simp add: demo_session_ok(1,3) PID_UNUSED_def sound_kernel_text is_shared_address_def empty)
  with planted have "set_sw_breakpoint sound_kernel 0x1004 Thumb16 demo_session demo_world = (True, s1, w1)"
    by (simp add: sw_set_def)
  moreover have "is_step 0x1004 (set_step 7 0x1004 s1)" by (simp add: is_step_def set_step_def)
  moreover have "s_evflag demo_session = Some 9" by (simp add: demo_session_def)
  ultimately have "fst (pop_step_finished s2) = Some 7"
    using step_ends_without_target_breakpoint [OF sound_kernel_text demo_session_ok(1) _ _ _ hit] by blast
  then show ?thesis by (simp add: planted hit)
qed

section \<open>Giving the slot back\<close>



end
