(* ===== verification/Session_Breakpoints.thy ===== *)
theory Session_Breakpoints
  imports Session_Props
begin

text \<open>
  The breakpoint tables as providers of the table interface, the hardware registers they
  stand for, and the watchpoint table, which does not meet the interface.
\<close>

section \<open>Hardware breakpoints\<close>

text \<open>The calls with any error read as a refusal, as the debugger sees them.\<close>

definition hw_set :: "'w kernel \<Rightarrow> u32 \<Rightarrow> session \<times> 'w \<Rightarrow> bool \<times> session \<times> 'w" where
  "hw_set K a t = (case set_hw_breakpoint K a (fst t) (snd t) of (r, t') \<Rightarrow> (r = Ok True, t'))"

definition hw_clear :: "'w kernel \<Rightarrow> u32 \<Rightarrow> session \<times> 'w \<Rightarrow> bool \<times> session \<times> 'w" where
  "hw_clear K a t = (case clear_hw_breakpoint K a (fst t) (snd t) of (r, t') \<Rightarrow> (r = Ok True, t'))"

abbreviation hw_addrs :: "session \<times> 'w \<Rightarrow> u32 set" where
  "hw_addrs t \<equiv> addrs_of hb_addr (s_hw_breakpoints (fst t))"

lemmas hw_defs = hw_set_def hw_clear_def set_hw_breakpoint_def clear_hw_breakpoint_def

interpretation hw_table: tracked_breakpoints "\<lambda>t. session_ok (fst t)" hw_addrs 6 "\<lambda>a. a"
  "hw_set K" "hw_clear K" for K :: "'w kernel"
proof unfold_locales
  fix t :: "session \<times> 'w" and r a
  assume ok: "session_ok (fst t)"
  show "session_ok (fst (snd (hw_set K r t)))" "session_ok (fst (snd (hw_clear K a t)))"
    using ok_hw [OF ok] by (simp_all add: hw_set_def hw_clear_def split_beta)
  show "finite (hw_addrs t) \<and> card (hw_addrs t) \<le> 6"
    using card_addrs [of hb_addr "s_hw_breakpoints (fst t)"] ok by (simp add: session_ok_def)
  show "fst (hw_set K r t) \<Longrightarrow> hw_addrs (snd (hw_set K r t)) = insert r (hw_addrs t)"
    "\<not> fst (hw_set K r t) \<Longrightarrow> hw_addrs (snd (hw_set K r t)) = hw_addrs t"
    by (auto simp: hw_defs Let_def slot_simps split: prod.splits bool.splits option.splits sum.splits
        dest: addrs_at)
  show "fst (hw_clear K a t) \<Longrightarrow> a \<in> hw_addrs t \<and> hw_addrs (snd (hw_clear K a t)) = hw_addrs t - {a}"
    "\<not> fst (hw_clear K a t) \<Longrightarrow>
       hw_addrs (snd (hw_clear K a t)) = hw_addrs t \<or> hw_addrs (snd (hw_clear K a t)) = hw_addrs t - {a}"
    using ok by (auto simp: hw_defs Let_def slot_simps session_ok_def
        split: prod.splits bool.splits option.splits sum.splits dest: addrs_at)
qed

text \<open>A kernel with hardware debugging on, which accepts what it is told.\<close>

definition hw_ready :: "'w kernel \<Rightarrow> bool" where
  "hw_ready K \<longleftrightarrow> (\<forall>w. fst (ksceKernelCheckDipsw K 0xe4 w) = 1) \<and>
     (\<forall>p i a c w. 0 \<le> sint (fst (fst (sceKernelSetPHBP K p i a c w))))"

lemma hw_ready_calls:
  assumes "hw_ready K"
  shows "is_debug_enabled K w = (b, w1) \<Longrightarrow> b"
    "sce_call n (sceKernelSetPHBP K p i a c) w \<noteq> (Inl e, w2)"
  using assms
  by (auto simp: hw_ready_def is_debug_enabled_def sce_call_def split_beta linorder_not_less [symmetric])

interpretation hw_exact: exact_breakpoints
  "\<lambda>t. session_ok (fst t) \<and> s_pid (fst t) \<noteq> PID_UNUSED \<and> hw_ready K" hw_addrs 6 "\<lambda>a. a"
  "hw_set K" "hw_clear K" "\<lambda>_. True" for K :: "'w kernel"
proof unfold_locales
  fix t :: "session \<times> 'w" and r a :: u32
  assume inv: "session_ok (fst t) \<and> s_pid (fst t) \<noteq> PID_UNUSED \<and> hw_ready K"
  then have ok: "session_ok (fst t)" by simp
  have keeps: "s_pid (fst (snd (hw_set K r t))) = s_pid (fst t)"
    "s_pid (fst (snd (hw_clear K a t))) = s_pid (fst t)"
    by (auto simp: hw_defs Let_def split: prod.splits bool.splits option.splits sum.splits)
  with inv hw_table.set_inv [OF ok] hw_table.clear_inv [OF ok]
  show "session_ok (fst (snd (hw_set K r t))) \<and> s_pid (fst (snd (hw_set K r t))) \<noteq> PID_UNUSED \<and> hw_ready K"
    "session_ok (fst (snd (hw_clear K a t))) \<and> s_pid (fst (snd (hw_clear K a t))) \<noteq> PID_UNUSED \<and> hw_ready K"
    by simp_all
  show "finite (hw_addrs t) \<and> card (hw_addrs t) \<le> 6"
    "fst (hw_set K r t) \<Longrightarrow> hw_addrs (snd (hw_set K r t)) = insert r (hw_addrs t)"
    "\<not> fst (hw_set K r t) \<Longrightarrow> hw_addrs (snd (hw_set K r t)) = hw_addrs t"
    "fst (hw_clear K a t) \<Longrightarrow> a \<in> hw_addrs t \<and> hw_addrs (snd (hw_clear K a t)) = hw_addrs t - {a}"
    "\<not> fst (hw_clear K a t) \<Longrightarrow>
       hw_addrs (snd (hw_clear K a t)) = hw_addrs t \<or> hw_addrs (snd (hw_clear K a t)) = hw_addrs t - {a}"
    using hw_table.room_bound [OF ok] hw_table.set_yes [OF ok] hw_table.set_no [OF ok]
      hw_table.clear_yes [OF ok] hw_table.clear_no [OF ok] by blast+
  have room: "position Option.is_none (s_hw_breakpoints (fst t)) = None \<longleftrightarrow> \<not> card (hw_addrs t) < 6"
    using ok room_left_iff [of hb_addr "s_hw_breakpoints (fst t)"] by (simp add: session_ok_def)
  have ready: "hw_ready K" and pid: "session_pid (fst t) = Some (s_pid (fst t))"
    using inv by (simp_all add: session_pid_def)
  show "fst (hw_set K r t) \<longleftrightarrow> r \<in> hw_addrs t \<or> card (hw_addrs t) < 6"
    using room hw_ready_calls [OF ready]
    by (auto simp: hw_defs Let_def pid no_slot_at_iff split: prod.splits bool.splits option.splits sum.splits
        dest: addrs_at)
  show "fst (hw_clear K a t) \<longleftrightarrow> a \<in> hw_addrs t"
    using hw_ready_calls [OF ready]
    by (auto simp: hw_defs Let_def pid no_slot_at_iff split: prod.splits bool.splits option.splits sum.splits
        dest: addrs_at)
qed

text \<open>
  C12: With hardware debugging enabled and a kernel that accepts the register writes, the
  hardware breakpoint calls of an attached session answer every sequence of requests as a set
  of at most six addresses: a repeated request is accepted and uses no slot, the seventh
  address is refused, and clearing succeeds exactly for addresses that are set.
\<close>

theorem hw_breakpoints_answer_as_set:
  assumes "hw_ready K" "session_ok s" "s_pid s \<noteq> PID_UNUSED"
  shows "fst (run_bps (hw_set K) (hw_clear K) cs (s, w)) =
    fst (run_bps (abs_set 6 (\<lambda>a. a)) abs_clear cs (addrs_of hb_addr (s_hw_breakpoints s)))"
  using hw_exact.run_refines [of "(s, w)" K cs] assms by simp

theorem hw_breakpoints_answer_as_set_witness:
  "fst (run_bps (hw_set sound_kernel)
      (hw_clear sound_kernel)
      [SetBp 4, SetBp 8, SetBp 4, ClearBp 4, ClearBp 4] (demo_session, demo_world)) =
   [True, True, True, True, False]"
proof -
  have "hw_ready sound_kernel"
    by (simp add: hw_ready_def sound_kernel_def demo_defs)
  note answers = hw_breakpoints_answer_as_set [OF this demo_session_ok(1,2)]
  have "addrs_of hb_addr (s_hw_breakpoints demo_session) = {}"
    by (simp add: demo_session_def uninit_def)
  then show ?thesis
    unfolding answers by (simp add: abs_set_def abs_clear_def)
qed

text \<open>
  The debug registers. \<open>regs w p i\<close> is address and control word of register \<open>i\<close> of process
  \<open>p\<close>; a successful write sets one register, nothing else the calls do touches any.
\<close>

definition writes_regs ::
  "('w \<Rightarrow> sce_uid \<Rightarrow> u32 \<Rightarrow> u32 \<times> u32) \<Rightarrow>
     (sce_uid \<Rightarrow> u32 \<Rightarrow> u32 \<Rightarrow> u32 \<Rightarrow> ('w, unit) syscall) \<Rightarrow> 'w kernel \<Rightarrow> bool" where
  "writes_regs regs write K \<longleftrightarrow>
     (\<forall>d w. regs (snd (ksceKernelCheckDipsw K d w)) = regs w) \<and>
     (\<forall>p i a c w. regs (snd (write p i a c w)) =
        (if 0 \<le> sint (fst (fst (write p i a c w)))
         then (regs w)(p := (regs w p)(i := (a, c))) else regs w))"

definition hw_synced :: "('w \<Rightarrow> sce_uid \<Rightarrow> u32 \<Rightarrow> u32 \<times> u32) \<Rightarrow> session \<times> 'w \<Rightarrow> bool" where
  "hw_synced regs t \<longleftrightarrow> (\<forall>i < 6. regs (snd t) (s_pid (fst t)) (of_nat i) =
     (case s_hw_breakpoints (fst t) ! i of None \<Rightarrow> (0, 0) | Some b \<Rightarrow> (hb_addr b, bp_control)))"

lemma small_index: "i < 6 \<Longrightarrow> j < 6 \<Longrightarrow> (of_nat i :: u32) = of_nat j \<longleftrightarrow> i = j"
  by (simp add: word_of_nat_eq_iff take_bit_nat_eq_self)

lemma hw_synced_update:
  assumes "hw_synced regs (s, w)" "i < 6" "length (s_hw_breakpoints s) = 6"
    "regs w' = (regs w)(s_pid s := (regs w (s_pid s))(of_nat i := (a, c)))"
    "case e of None \<Rightarrow> (a, c) = (0, 0) | Some b \<Rightarrow> (a, c) = (hb_addr b, bp_control)"
  shows "hw_synced regs (s\<lparr>s_hw_breakpoints := (s_hw_breakpoints s)[i := e]\<rparr>, w')"
  using assms by (auto simp: hw_synced_def small_index nth_list_update split: option.splits)

lemma writes_regs_call:
  assumes "writes_regs regs write K"
  shows "is_debug_enabled K w = (b, w1) \<Longrightarrow> regs w1 = regs w"
    "sce_call n (write p i a c) w = (Inl e, w1) \<Longrightarrow> regs w1 = regs w"
    "sce_call n (write p i a c) w = (Inr r, w1) \<Longrightarrow> regs w1 = (regs w)(p := (regs w p)(i := (a, c)))"
proof -
  show "is_debug_enabled K w = (b, w1) \<Longrightarrow> regs w1 = regs w"
    using assms by (auto simp: writes_regs_def is_debug_enabled_def split_beta)
  have "regs (snd (write p i a c w)) = (if 0 \<le> sint (fst (fst (write p i a c w)))
         then (regs w)(p := (regs w p)(i := (a, c))) else regs w)"
    using assms by (simp add: writes_regs_def)
  then show "sce_call n (write p i a c) w = (Inl e, w1) \<Longrightarrow> regs w1 = regs w"
    "sce_call n (write p i a c) w = (Inr r, w1) \<Longrightarrow> regs w1 = (regs w)(p := (regs w p)(i := (a, c)))"
    by (auto simp: sce_call_def split_beta split: if_splits)
qed

lemma hw_step_synced:
  assumes regs: "writes_regs regs (sceKernelSetPHBP K) K" and ok: "session_ok (fst t)" and "hw_synced regs t"
  shows "hw_synced regs (snd (hw_set K r t))" "hw_synced regs (snd (hw_clear K a t))"
proof -
  obtain s w where t: "t = (s, w)" by (cases t)
  note calls = writes_regs_call [OF regs]
  have len: "length (s_hw_breakpoints s) = 6" using ok t by (simp add: session_ok_def)
  have same: "hw_synced regs (s, v)" if "regs v = regs w" for v
    using assms(3) that t by (simp add: hw_synced_def)
  have upd: "hw_synced regs (s\<lparr>s_hw_breakpoints := (s_hw_breakpoints s)[i := e]\<rparr>, v')"
    if "regs v = regs w" "regs v' = (regs v)(s_pid s := (regs v (s_pid s))(of_nat i := (x, c)))" "i < 6"
      "case e of None \<Rightarrow> (x, c) = (0, 0) | Some b \<Rightarrow> (x, c) = (hb_addr b, bp_control)" for v v' i x c e
    using hw_synced_update [OF same [OF that(1)] that(3) len that(2,4)] .
  have found: "i < 6" if "position p (s_hw_breakpoints s) = Some i" for p i
    using that len by (auto dest: position_SomeD)
  show "hw_synced regs (snd (hw_set K r t))" "hw_synced regs (snd (hw_clear K a t))"
    using same calls(1,2)
    by (auto simp: t hw_defs Let_def session_pid_def
        split: prod.splits bool.splits option.splits sum.splits if_splits
        dest!: found calls(3) intro!: upd)
qed



section \<open>Hardware watchpoints\<close>

lemma set_hw_watchpoint_used:
  assumes "position (\<lambda>slot. slot \<noteq> None) (s_hw_watchpoints s) = Some i" "s_hw_watchpoints s ! i = Some wp"
    and "set_hw_watchpoint K addr l kind s w = (Ok True, s', w')"
  shows "\<exists>w1. is_debug_enabled K w = (True, w1) \<and>
    (if hw_kind wp = kind then s' = s \<and> w' = w1
     else \<exists>r. sce_call ''sceKernelSetPHWP'' (sceKernelSetPHWP K (s_pid s) (of_nat i) addr (wp_control kind)) w1 = (Inr r, w') \<and>
       s' = s\<lparr>s_hw_watchpoints := (s_hw_watchpoints s)[i := Some (wp\<lparr>hw_kind := kind\<rparr>)]\<rparr>)"
proof -
  obtain en w1 where e: "is_debug_enabled K w = (en, w1)" by (metis prod.exhaust)
  have en: "en" and pid: "session_pid s = Some (s_pid s)"
    using assms(3) e by (auto simp: set_hw_watchpoint_def session_pid_def split: bool.splits if_splits)
  obtain r w2 where c: "sce_call ''sceKernelSetPHWP'' (sceKernelSetPHWP K (s_pid s) (of_nat i) addr (wp_control kind)) w1 = (r, w2)"
    by (metis prod.exhaust)
  show ?thesis
    using assms(3) e en c
    by (cases r)
      (auto simp: set_hw_watchpoint_def Let_def pid assms(1,2) simp del: not_None_eq split: if_splits)
qed

text \<open>A watchpoint request while one is set changes the kind in its slot and arms its register.\<close>

lemma watchpoint_on_used_slot:
  assumes regs: "writes_regs regs (sceKernelSetPHWP K) K"
    and old: "position (\<lambda>slot. slot \<noteq> None) (s_hw_watchpoints s) = Some i" "s_hw_watchpoints s ! i = Some wp"
    and accepted: "set_hw_watchpoint K addr l kind s w = (Ok True, s', w')"
  shows "s_hw_watchpoints s' = (s_hw_watchpoints s)[i := Some (wp\<lparr>hw_kind := kind\<rparr>)]"
    "regs w' = (if kind = hw_kind wp then regs w
      else (regs w)(s_pid s := (regs w (s_pid s))(of_nat i := (addr, wp_control kind))))"
proof -
  have i: "i < length (s_hw_watchpoints s)" using position_SomeD [OF old(1)] by simp
  note calls = writes_regs_call [OF regs]
  obtain w1 where w1: "is_debug_enabled K w = (True, w1)" and rest: "if hw_kind wp = kind then s' = s \<and> w' = w1
     else \<exists>r. sce_call ''sceKernelSetPHWP'' (sceKernelSetPHWP K (s_pid s) (of_nat i) addr (wp_control kind)) w1 = (Inr r, w') \<and>
       s' = s\<lparr>s_hw_watchpoints := (s_hw_watchpoints s)[i := Some (wp\<lparr>hw_kind := kind\<rparr>)]\<rparr>"
    using set_hw_watchpoint_used [OF old accepted] by blast
  have same: "regs w1 = regs w" by (rule calls(1) [OF w1])
  have keep: "(s_hw_watchpoints s)[i := Some (wp\<lparr>hw_kind := hw_kind wp\<rparr>)] = s_hw_watchpoints s"
    using old(2) by (simp add: list_update_same_conv i)
  show "s_hw_watchpoints s' = (s_hw_watchpoints s)[i := Some (wp\<lparr>hw_kind := kind\<rparr>)]"
    using rest keep by (cases "hw_kind wp = kind") auto
  show "regs w' = (if kind = hw_kind wp then regs w
    else (regs w)(s_pid s := (regs w (s_pid s))(of_nat i := (addr, wp_control kind))))"
    using rest same by (cases "hw_kind wp = kind") (auto dest!: calls(3))
qed

text \<open>A table with at most one entry, after that entry was replaced.\<close>

lemma addrs_of_only:
  assumes "at_most_one slots" "i < length slots" "slots ! i = Some b"
  shows "addrs_of f (slots[i := Some c]) = {f c}"
proof -
  have "slots ! j = None" if "j < length slots" "j \<noteq> i" for j
    using assms that unfolding at_most_one_def by (metis option.distinct(1))
  then show ?thesis
    using assms(2) by (auto simp: addrs_of_nth nth_list_update split: if_splits)
qed

text \<open>
  The watchpoint table does not keep its promise. Once a watchpoint is set, a request for
  another address is still answered as accepted, but its address never enters the table: with
  the same kind no register is written at all, with another kind the register of the first
  watchpoint is moved to the new address while the table keeps the old one, so that hits of
  the new address are not recognised and \<^verbatim>\<open>clear_hw_watchpoint\<close> of it is refused.
\<close>

theorem second_watchpoint_is_lost:
  assumes regs: "writes_regs regs (sceKernelSetPHWP K) K"
    and old: "position (\<lambda>slot. slot \<noteq> None) (s_hw_watchpoints s) = Some i"
      "s_hw_watchpoints s ! i = Some wp"
    and ok: "session_ok s"
    and accepted: "set_hw_watchpoint K addr l kind s w = (Ok True, s', w')" and new: "addr \<noteq> hw_addr wp"
  shows "addrs_of hw_addr (s_hw_watchpoints s') = {hw_addr wp} \<and> \<not> has_watchpoint addr s' \<and>
    regs w' = (if kind = hw_kind wp then regs w
      else (regs w)(s_pid s := (regs w (s_pid s))(of_nat i := (addr, wp_control kind)))) \<and>
    fst (clear_hw_watchpoint K addr s' v) \<noteq> Ok True"
proof -
  have i: "i < length (s_hw_watchpoints s)" using position_SomeD [OF old(1)] by simp
  note slots = watchpoint_on_used_slot [OF regs old accepted]
  have addrs: "addrs_of hw_addr (s_hw_watchpoints s') = {hw_addr wp}"
    using ok addrs_of_only [OF _ i old(2), of hw_addr "wp\<lparr>hw_kind := kind\<rparr>"] by (simp add: slots session_ok_def)
  then have none: "\<not> has_watchpoint addr s'" "position (slot_at hw_addr addr) (s_hw_watchpoints s') = None"
    using new by (auto simp: has_watchpoint_def no_slot_at_iff list_ex_iff slot_at_iff addrs_of_def)
  then have "fst (clear_hw_watchpoint K addr s' v) \<noteq> Ok True"
    by (auto simp: clear_hw_watchpoint_def split: prod.splits bool.splits option.splits)
  with addrs none slots(2) show ?thesis by blast
qed

definition demo_watched :: session where
  "demo_watched = demo_session\<lparr>s_hw_watchpoints := [Some \<lparr>hw_addr = 0x1000, hw_kind = WatchWrite\<rparr>, None, None]\<rparr>"

theorem second_watchpoint_is_lost_witness:
  "\<not> has_watchpoint 0x2000 (fst (snd (set_hw_watchpoint demo_kernel 0x2000 4 WatchRead demo_watched demo_world)))"
proof -
  have "writes_regs d_wp_regs (sceKernelSetPHWP demo_kernel) demo_kernel"
    by (simp add: writes_regs_def demo_defs)
  moreover have "session_ok demo_watched"
    using demo_session_ok(1)
    by (auto simp: demo_watched_def session_ok_def at_most_one_def nth_Cons less_Suc_eq split: nat.splits)
  moreover have "set_hw_watchpoint demo_kernel 0x2000 4 WatchRead demo_watched demo_world =
      (Ok True, snd (set_hw_watchpoint demo_kernel 0x2000 4 WatchRead demo_watched demo_world))"
    by (simp add: set_hw_watchpoint_def is_debug_enabled_def demo_watched_def session_pid_def
        demo_session_def PID_UNUSED_def demo_defs sce_call_def Let_def split: prod.splits)
  moreover have "position (\<lambda>slot. slot \<noteq> None) (s_hw_watchpoints demo_watched) = Some 0"
    "s_hw_watchpoints demo_watched ! 0 = Some \<lparr>hw_addr = 0x1000, hw_kind = WatchWrite\<rparr>"
    by (simp_all add: demo_watched_def)
  ultimately show ?thesis
    using second_watchpoint_is_lost [of d_wp_regs demo_kernel demo_watched 0
        "\<lparr>hw_addr = 0x1000, hw_kind = WatchWrite\<rparr>" "0x2000" 4 WatchRead demo_world
        "fst (snd (set_hw_watchpoint demo_kernel 0x2000 4 WatchRead demo_watched demo_world))"
        "snd (snd (set_hw_watchpoint demo_kernel 0x2000 4 WatchRead demo_watched demo_world))"]
    by simp
qed

end
