(* ===== verification/Handlers.thy ===== *)
theory Handlers
  imports Session_Life Session_Breakpoints
begin

text \<open>
  \<open>vita-gdb/src/gdb/handlers.rs\<close>: what runs in the context of the faulting thread. The handlers
  find the session of the current process in the pool, stop the process and queue an event for
  the worker thread. Their registration is in Startup, the tables and trampolines around them in
  Interface and Assembly.
\<close>

section \<open>Status words and code bytes\<close>

definition dfsr_is_write :: "u32 \<Rightarrow> bool" where
  "dfsr_is_write dfsr \<longleftrightarrow> dfsr AND push_bit 11 1 \<noteq> 0"

definition is_bkpt :: "u8 list \<Rightarrow> bool \<Rightarrow> bool" where
  "is_bkpt insn thumb =
     (let word = (from_le insn :: u32) in
      if thumb then (ucast word :: u16) AND 0xff00 = 0xbe00
      else word AND 0x0ff000f0 = 0x01200070)"

definition fsr_is_debug :: "u32 \<Rightarrow> bool" where
  "fsr_is_debug fsr \<longleftrightarrow> (drop_bit 6 (fsr AND 0x400) OR (fsr AND 0xF)) = 0x2"

record excp_context =
  ctx_IFSR :: u32
  ctx_IFAR :: u32
  ctx_DFSR :: u32
  ctx_DFAR :: u32
  ctx_CPACR :: u32
  ctx_fault_addr :: u32

definition is_thumb :: "excp_context \<Rightarrow> bool" where
  "is_thumb ctx \<longleftrightarrow> drop_bit 5 (ctx_CPACR ctx) AND 1 \<noteq> 0"

section \<open>The exception handlers\<close>

datatype handling_code = NotHandled | HandlingCode2

type_synonym 'w pool_world = "session list \<times> 'w"

definition halt_for_debug :: "'w kernel \<Rightarrow> sce_uid \<Rightarrow> sce_uid \<Rightarrow> 'w \<Rightarrow> 'w" where
  "halt_for_debug K pid tid w =
     snd (ksceKernelSuspendProcess K pid PROCESS_HALT_STATUS
       (snd (ksceKernelChangeThreadSuspendStatus K tid 0x1002 w)))"

text \<open>A slot's operation, run in the pool.\<close>

definition in_slot :: "nat \<Rightarrow> (session \<Rightarrow> 'w \<Rightarrow> session \<times> 'w) \<Rightarrow> session list \<Rightarrow> 'w \<Rightarrow> session list \<times> 'w" where
  "in_slot i f pool w = (case f (pool ! i) w of (s, w) \<Rightarrow> (pool[i := s], w))"

definition handle_watch ::
  "'w kernel \<Rightarrow> excp_context \<Rightarrow> session list \<Rightarrow> 'w \<Rightarrow> (sce_error, handling_code) res \<times> 'w pool_world" where
  "handle_watch K ctx pool w = (case get_thread_context_info K w of ((pid, tid), w) \<Rightarrow>
     (case find_session_for_pid pid pool of
        None \<Rightarrow> (Ok NotHandled, pool, w)
      | Some i \<Rightarrow>
          if \<not> has_watchpoint (ctx_DFAR ctx) (pool ! i) then (Ok NotHandled, pool, w)
          else
            (let kind = (if dfsr_is_write (ctx_DFSR ctx) then WatchWrite else WatchRead);
                 w = halt_for_debug K pid tid w
             in (Ok HandlingCode2, in_slot i (push_excp K (Watch tid (ctx_DFAR ctx) kind)) pool w))))"

definition handle_break ::
  "'w kernel \<Rightarrow> excp_context \<Rightarrow> session list \<Rightarrow> 'w \<Rightarrow> (sce_error, handling_code) res \<times> 'w pool_world" where
  "handle_break K ctx pool w =
     (let fault_addr = ctx_fault_addr ctx in
      case get_thread_context_info K w of ((pid, tid), w) \<Rightarrow>
     (case find_session_for_pid pid pool of
        None \<Rightarrow> (Ok NotHandled, pool, w)
      | Some i \<Rightarrow> (case sce_call ''ksceKernelCopyFromUserProc'' (ksceKernelCopyFromUserProc K pid fault_addr 4) w of
          (Inl _, w) \<Rightarrow> (Ok NotHandled, pool, w)
        | (Inr (_, data), w) \<Rightarrow>
            (let insn = fill_prefix (replicate 4 0) data;
                 w = halt_for_debug K pid tid w
             in if is_step fault_addr (pool ! i)
                then (case step_finished K (pool ! i) w of
                    (Inl e, s, w) \<Rightarrow> (Inl e, pool[i := s], w)
                  | (Inr _, s, w) \<Rightarrow> (Ok HandlingCode2, pool[i := s], w))
                else if is_bkpt insn (is_thumb ctx)
                then (Ok HandlingCode2, in_slot i (push_excp K (SwBreak tid)) pool w)
                else (Ok HandlingCode2, in_slot i (push_excp K (HwBreak tid)) pool w)))))"

definition handle_exception ::
  "'w kernel \<Rightarrow> exception_kind \<Rightarrow> session list \<Rightarrow> 'w \<Rightarrow> (sce_error, handling_code) res \<times> 'w pool_world" where
  "handle_exception K kind pool w = (case get_thread_context_info K w of ((pid, tid), w) \<Rightarrow>
     (case find_session_for_pid pid pool of
        None \<Rightarrow> (Ok NotHandled, pool, w)
      | Some i \<Rightarrow> (Ok HandlingCode2, in_slot i (push_excp K (Exception tid kind)) pool (halt_for_debug K pid tid w))))"

definition handle_prefetch_abort where
  "handle_prefetch_abort K ctx =
     (if fsr_is_debug (ctx_IFSR ctx) then handle_break K ctx else handle_exception K Pabt)"

definition handle_data_abort where
  "handle_data_abort K ctx =
     (if fsr_is_debug (ctx_DFSR ctx) then handle_watch K ctx else handle_exception K Dabt)"

definition handle_undef :: "'w kernel \<Rightarrow> excp_context \<Rightarrow> session list \<Rightarrow> 'w \<Rightarrow> (sce_error, handling_code) res \<times> 'w pool_world" where
  "handle_undef K ctx = handle_exception K Undef"

section \<open>Process events\<close>

definition handle_proc_create :: "'w kernel \<Rightarrow> sce_uid \<Rightarrow> session list \<Rightarrow> 'w \<Rightarrow> 'w pool_world" where
  "handle_proc_create K pid pool w = (case find_session_for_pid pid pool of
     None \<Rightarrow> (pool, w)
   | Some i \<Rightarrow> (case s_evflag (pool ! i) of
        None \<Rightarrow> (pool, w)
      | Some evflag \<Rightarrow> (pool, snd (evf_set K evflag EV_PROCESS_STARTED w))))"

definition handle_proc_kill :: "'w kernel \<Rightarrow> sce_uid \<Rightarrow> session list \<Rightarrow> 'w \<Rightarrow> 'w pool_world" where
  "handle_proc_kill K pid pool w = (case find_session_for_pid pid pool of
     None \<Rightarrow> (pool, w)
   | Some i \<Rightarrow> in_slot i (push_exited K) pool w)"

section \<open>Recognising a breakpoint\<close>

text \<open>The instruction a handler reads at a planted address, whatever follows it.\<close>

lemma bkpt_recognised:
  "is_bkpt ([0x00, 0xbe] @ [x, y]) True" "is_bkpt [0x70, 0x00, 0x20, 0xE1] False"
  "\<not> is_bkpt [0x70, 0x00, 0x20, 0xE1] True"
proof -
  have "(ucast (from_le [0x00, 0xbe, x, y] :: u32) :: u16) = from_le [0x00, 0xbe]"
  proof (rule bit_word_eqI)
    fix k assume "k < LENGTH(16)"
    then have "k div 8 = 0 \<or> k div 8 = 1" "k < 16" by (simp_all add: div_nat_eqI) arith
    then show "bit (ucast (from_le [0x00, 0xbe, x, y] :: u32) :: u16) k = bit (from_le [0x00, 0xbe] :: u16) k"
      by (auto simp: bit_simps bit_from_le simp del: from_le.simps)
  qed
  then show "is_bkpt ([0x00, 0xbe] @ [x, y]) True" by (simp add: is_bkpt_def)
  show "is_bkpt [0x70, 0x00, 0x20, 0xE1] False" "\<not> is_bkpt [0x70, 0x00, 0x20, 0xE1] True"
    by (simp_all add: is_bkpt_def)
qed

end
