(* ===== verification/Handler_Props.thy ===== *)
theory Handler_Props
  imports Handlers
begin

text \<open>
  What the exception handlers report: planted breakpoints and armed watchpoints as such, to
  the session of the faulting process only.
\<close>

lemma thread_ids: "get_thread_context_info K w = (ids, w') \<Longrightarrow>
    ids = snd (fst (ksceKernelGetThreadContextInfo K w)) \<and> w' = snd (ksceKernelGetThreadContextInfo K w)"
  by (auto simp: get_thread_context_info_def split: prod.splits)

lemma halt_mem: "memory_laws mem K \<Longrightarrow> mem (halt_for_debug K pid tid w) = mem w"
  using quiet_calls [of mem K] by (simp add: halt_for_debug_def keeps_mem_def)

lemma peek_split:
  "n \<le> k \<Longrightarrow> peek m a k = peek m a n @ map (\<lambda>i. m (a + of_nat i)) [n..<k]"
  unfolding peek_def map_append [symmetric] by (metis le_add_diff_inverse upt_add_eq_append zero_le)

lemma planted_bytes:
  assumes "peek m a (patch_len k) = patched k" "thumb \<longleftrightarrow> k \<noteq> Arm32"
  shows "is_bkpt (peek m a 4) thumb \<longleftrightarrow> k \<noteq> Thumb32"
proof (cases k)
  case Thumb16
  have "[2..<4] = [2, 3 :: nat]" by (simp add: upt_rec)
  then show ?thesis
    using Thumb16 assms peek_split [of 2 4 m a] bkpt_recognised(1)
    by (simp add: patch_len_def patched_def)
qed (use assms bkpt_recognised in \<open>simp_all add: patch_len_def patched_def\<close>)

lemma push_excp_contents:
  assumes "session_ok s" "s_evflag s = Some f" "length (contents (s_exceptions s)) < 7"
  shows "contents (s_exceptions (fst (push_excp K ev s w))) = contents (s_exceptions s) @ [ev]"
proof -
  have ring: "ring_ok (s_exceptions s)" "cap (s_exceptions s) = 8" using assms(1) by (simp_all add: session_ok_def)
  then have "fst (push (s_exceptions s) ev)" using assms(3) by (simp add: push_result)
  with push_contents [OF ring(1), of ev] assms(2) show ?thesis by (simp add: push_excp_def)
qed

lemma in_slot_result:
  "i < length pool \<Longrightarrow> fst (in_slot i f pool w) ! i = fst (f (pool ! i) w)"
  "j \<noteq> i \<Longrightarrow> fst (in_slot i f pool w) ! j = pool ! j"
  "length (fst (in_slot i f pool w)) = length pool"
  by (simp_all add: in_slot_def split_beta)

text \<open>
  A planted breakpoint is recognised by what it patched in: the abort is taken and one event is
  queued, a software hit. The exception is a 32-bit Thumb breakpoint: it is patched with ARM
  code, which the handler does not recognise in Thumb state, and becomes a hardware hit.
\<close>

definition hit_event :: "arm_breakpoint_kind \<Rightarrow> sce_uid \<Rightarrow> exception_event" where
  "hit_event kind tid = (if kind = Thumb32 then HwBreak tid else SwBreak tid)"

lemma planted_hit:
  assumes "memory_laws mem K" "get_thread_context_info K w = ((pid, tid), w0)" "mem w0 = mem w"
    and "find_session_for_pid pid pool = Some i" "\<not> is_step (ctx_fault_addr ctx) (pool ! i)"
    and "0 \<le> sint (fst (fst (ksceKernelCopyFromUserProc K pid (ctx_fault_addr ctx) 4 w0)))"
    and "fsr_is_debug (ctx_IFSR ctx)" "is_thumb ctx \<longleftrightarrow> kind \<noteq> Arm32"
    and "peek (mem w pid) (ctx_fault_addr ctx) (patch_len kind) = patched kind"
  shows "\<exists>w'. handle_prefetch_abort K ctx pool w =
    (Ok HandlingCode2, in_slot i (push_excp K (hit_event kind tid)) pool w')"
proof -
  let ?a = "ctx_fault_addr ctx"
  obtain x data w1 where read: "sce_call ''ksceKernelCopyFromUserProc'' (ksceKernelCopyFromUserProc K pid ?a 4) w0 = (Inr (x, data), w1)"
    using assms(6) by (cases "ksceKernelCopyFromUserProc K pid ?a 4 w0") (auto simp: sce_call_def)
  have insn: "fill_prefix (replicate 4 0) data = peek (mem w pid) ?a 4"
    using read_mem [OF assms(1) read] assms(3) by simp
  have "is_bkpt (fill_prefix (replicate 4 0) data) (is_thumb ctx) \<longleftrightarrow> kind \<noteq> Thumb32"
    unfolding insn by (rule planted_bytes [OF assms(9,8)])
  then show ?thesis
    by (intro exI [of _ "halt_for_debug K pid tid w1"])
      (simp add: handle_prefetch_abort_def handle_break_def hit_event_def assms(2,4,5,7) read Let_def)
qed

lemma found_slot: "find_session_for_pid pid pool = Some i \<Longrightarrow> i < length pool \<and> s_pid (pool ! i) = pid"
  by (auto simp: find_session_for_pid_def dest: position_SomeD)

lemma found_again:
  assumes "find_session_for_pid pid pool = Some i" "s_pid s = pid"
  shows "find_session_for_pid pid (pool[i := s]) = Some i"
  unfolding find_session_for_pid_def
proof (rule position_eqI)
  show "s_pid (pool[i := s] ! j) \<noteq> pid" if "j < i" for j
    using that assms(1) by (auto simp: find_session_for_pid_def dest: position_SomeD)
qed (use found_slot [OF assms(1)] assms(2) in simp_all)

definition demo_hit :: excp_context where
  "demo_hit = \<lparr>ctx_IFSR = 2, ctx_IFAR = 0x1000, ctx_DFSR = 0, ctx_DFAR = 0, ctx_CPACR = 0x20, ctx_fault_addr = 0x1000\<rparr>"

definition demo_text :: demo where
  "demo_text = demo_world\<lparr>d_mem := (\<lambda>_. poke (\<lambda>_. 0) 0x1000 [0x00, 0xbe])\<rparr>"

text \<open>A handler leaves the pool alone, or handles the exception in the slot of the process.\<close>

definition touches :: "nat option \<Rightarrow> session list \<Rightarrow> (sce_error, handling_code) res \<times> session list \<times> 'w \<Rightarrow> bool" where
  "touches found pool out \<longleftrightarrow> (case out of (r, pool', w) \<Rightarrow> r = Ok NotHandled \<and> pool' = pool \<or>
     r \<noteq> Ok NotHandled \<and> (\<exists>i s. found = Some i \<and> pool' = pool[i := s]))"

lemma touches_slot: "touches (Some i) pool (Ok HandlingCode2, in_slot i f pool w)"
  by (auto simp: touches_def in_slot_def split: prod.splits)

lemma handlers_touch:
  fixes K :: "'w kernel"
  defines "found pool w \<equiv> find_session_for_pid (fst (fst (get_thread_context_info K w))) pool"
  shows "touches (found pool w) pool (handle_exception K kind pool w)"
    "touches (found pool w) pool (handle_watch K ctx pool w)"
    "touches (found pool w) pool (handle_break K ctx pool w)"
proof -
  obtain pid tid w0 where ids: "get_thread_context_info K w = ((pid, tid), w0)" by (metis prod.exhaust)
  note defs = found_def ids touches_slot
  show "touches (found pool w) pool (handle_exception K kind pool w)"
    by (cases "find_session_for_pid pid pool") (simp_all add: handle_exception_def defs, simp add: touches_def)
  show "touches (found pool w) pool (handle_watch K ctx pool w)"
    by (cases "find_session_for_pid pid pool") (simp_all add: handle_watch_def defs Let_def, simp_all add: touches_def)
  show "touches (found pool w) pool (handle_break K ctx pool w)"
  proof (cases "find_session_for_pid pid pool")
    case None
    then show ?thesis by (simp add: handle_break_def defs touches_def)
  next
    case (Some i)
    then show ?thesis
      by (auto simp: handle_break_def defs Let_def split: sum.splits prod.splits)
        (auto simp: touches_def)
  qed
qed

text \<open>
  A handler touches no session but that of the faulting process: with no session for it,
  or when the handler does not take the exception, nothing at all changes in the pool; and
  otherwise every other slot is as before.
\<close>

theorem handlers_touch_only_own_session:
  assumes "h \<in> {handle_prefetch_abort K ctx, handle_data_abort K ctx, handle_undef K ctx}"
    and "h pool w = (r, pool', w')"
  shows "length pool' = length pool \<and> (r = Ok NotHandled \<longrightarrow> pool' = pool) \<and>
    (\<forall>j. find_session_for_pid (fst (fst (get_thread_context_info K w))) pool \<noteq> Some j \<longrightarrow> pool' ! j = pool ! j) \<and>
    (find_session_for_pid (fst (fst (get_thread_context_info K w))) pool = None \<longrightarrow> r = Ok NotHandled)"
proof -
  have "touches (find_session_for_pid (fst (fst (get_thread_context_info K w))) pool) pool (h pool w)"
    using assms(1) handlers_touch [where K = K and w = w and pool = pool]
    by (auto simp: handle_prefetch_abort_def handle_data_abort_def handle_undef_def)
  then show ?thesis using assms(2) by (auto simp: touches_def)
qed

theorem handlers_touch_only_own_session_witness:
  "fst (snd (handle_undef demo_kernel demo_hit [uninit []] demo_world)) = [uninit []]"
proof -
  obtain r pool' w' where run: "handle_undef demo_kernel demo_hit [uninit []] demo_world = (r, pool', w')"
    by (metis prod.exhaust)
  have "find_session_for_pid (fst (fst (get_thread_context_info demo_kernel demo_world))) [uninit []] = None"
    by (simp add: get_thread_context_info_def demo_defs find_session_for_pid_def uninit_def PID_UNUSED_def)
  with handlers_touch_only_own_session [where h = "handle_undef demo_kernel demo_hit" and K = demo_kernel
      and ctx = demo_hit, OF _ run]
  show ?thesis by (simp add: run)
qed

text \<open>
  C27: The first watchpoint works. Once it is accepted, an access to exactly its address is
  taken and reported with the thread, the address and whether it was a write; an access
  elsewhere is left to the system.
\<close>

theorem armed_watchpoint_is_reported:
  assumes "session_ok s" "s_evflag s = Some f" "length (contents (s_exceptions s)) < 7"
    and "\<forall>slot \<in> set (s_hw_watchpoints s). slot = None"
    and "set_hw_watchpoint K addr l kind s w = (Ok True, s1, w1)"
    and "get_thread_context_info K v = ((pid, tid), v0)" "find_session_for_pid pid pool = Some i" "pool ! i = s1"
    and "fsr_is_debug (ctx_DFSR ctx)" "handle_data_abort K ctx pool v = (r, pool', v')"
  shows "if ctx_DFAR ctx = addr
    then r = Ok HandlingCode2 \<and> contents (s_exceptions (pool' ! i)) = contents (s_exceptions s) @
      [Watch tid addr (if bit (ctx_DFSR ctx) 11 then WatchWrite else WatchRead)]
    else r = Ok NotHandled \<and> pool' = pool"
proof -
  have none: "position (\<lambda>slot. slot \<noteq> None) (s_hw_watchpoints s) = None"
    using assms(4) by (simp add: position_None_iff)
  obtain en v1 where en: "is_debug_enabled K w = (en, v1)" by (metis prod.exhaust)
  have "\<exists>j. position Option.is_none (s_hw_watchpoints s) = Some j \<and>
      s1 = s\<lparr>s_hw_watchpoints := (s_hw_watchpoints s)[j := Some \<lparr>hw_addr = addr, hw_kind = kind\<rparr>]\<rparr>"
    using assms(5) none en
    by (auto simp: set_hw_watchpoint_def Let_def simp del: not_None_eq
        split: prod.splits bool.splits option.splits sum.splits)
  then obtain j where j: "position Option.is_none (s_hw_watchpoints s) = Some j"
    and s1: "s1 = s\<lparr>s_hw_watchpoints := (s_hw_watchpoints s)[j := Some \<lparr>hw_addr = addr, hw_kind = kind\<rparr>]\<rparr>" by blast
  have "addrs_of hw_addr (s_hw_watchpoints s) = {}" using assms(4) by (auto simp: addrs_of_def)
  then have "addrs_of hw_addr (s_hw_watchpoints s1) = {addr}"
    using addrs_of_fill [OF j, of hw_addr] by (simp add: s1)
  then have has: "has_watchpoint a s1 \<longleftrightarrow> a = addr" for a
    using no_slot_at_iff [of hw_addr a "s_hw_watchpoints s1"]
    by (auto simp: has_watchpoint_def list_ex_iff position_None_iff)
  have "session_ok s1" "s_evflag s1 = Some f" "s_exceptions s1 = s_exceptions s"
    using ok_wp(1) [OF assms(1), of K addr l kind w] assms(2,5) by (simp_all add: s1)
  note queue = push_excp_contents [OF this(1,2), of K] this(3)
  have i: "i < length pool" using assms(7) by (auto simp: find_session_for_pid_def dest: position_SomeD)
  have wr: "dfsr_is_write d \<longleftrightarrow> bit d 11" for d
    using and_exp_eq_0_iff_not_bit [of d 11] by (simp add: dfsr_is_write_def)
  show ?thesis
  proof (cases "ctx_DFAR ctx = addr")
    case False
    then show ?thesis
      using assms(10) by (simp add: handle_data_abort_def handle_watch_def assms(6-9) has)
  next
    case True
    let ?ev = "Watch tid addr (if bit (ctx_DFSR ctx) 11 then WatchWrite else WatchRead)"
    have "handle_data_abort K ctx pool v = (Ok HandlingCode2, in_slot i (push_excp K ?ev) pool (halt_for_debug K pid tid v0))"
      using True by (simp add: handle_data_abort_def handle_watch_def assms(6-9) has Let_def wr)
    then have "r = Ok HandlingCode2" "pool' = fst (in_slot i (push_excp K ?ev) pool (halt_for_debug K pid tid v0))"
      using assms(10) by (simp, metis fst_conv snd_conv)
    then show ?thesis
      using True queue assms(3,8) in_slot_result(1) [OF i, of "push_excp K ?ev"] by simp
  qed
qed

definition demo_access :: excp_context where
  "demo_access = demo_hit\<lparr>ctx_DFSR := 0x802, ctx_DFAR := 0x2000\<rparr>"

theorem armed_watchpoint_is_reported_witness:
  "contents (s_exceptions (fst (snd (handle_data_abort sound_kernel demo_access
      [fst (snd (set_hw_watchpoint sound_kernel 0x2000 4 WatchWrite demo_session demo_world))] demo_world)) ! 0)) =
    [Watch 7 0x2000 WatchWrite]"
proof -
  have three: "replicate 3 (None :: hw_watchpoint option) = [None, None, None]" by (simp add: numeral_eq_Suc)
  obtain s1 w1 where set: "set_hw_watchpoint sound_kernel 0x2000 4 WatchWrite demo_session demo_world = (Ok True, s1, w1)"
    and s1: "s_pid s1 = 5"
    by (simp add: set_hw_watchpoint_def is_debug_enabled_def session_pid_def demo_session_def PID_UNUSED_def
        sound_kernel_def demo_defs sce_call_def Let_def uninit_def three)
  obtain r pool' w' where run: "handle_data_abort sound_kernel demo_access [s1] demo_world = (r, pool', w')"
    by (metis prod.exhaust)
  have ids: "get_thread_context_info sound_kernel demo_world = ((5, 7), demo_world)"
    by (simp add: get_thread_context_info_def sound_kernel_def demo_defs)
  have sess: "s_evflag demo_session = Some 9" "contents (s_exceptions demo_session) = []"
    "\<forall>slot \<in> set (s_hw_watchpoints demo_session). slot = None"
    by (simp_all add: demo_session_def uninit_def)
  have empty: "length (contents (s_exceptions demo_session)) < 7" by (simp add: sess)
  have slot: "find_session_for_pid 5 [s1] = Some 0" "[s1] ! 0 = s1" by (simp_all add: find_session_for_pid_def s1)
  have fsr: "fsr_is_debug (ctx_DFSR demo_access)" "ctx_DFAR demo_access = 0x2000" "bit (ctx_DFSR demo_access) 11"
    by (simp_all add: fsr_is_debug_def demo_access_def)
  from armed_watchpoint_is_reported [OF demo_session_ok(1) sess(1) empty sess(3) set ids slot fsr(1) run]
  show ?thesis by (simp add: set run sess fsr)
qed

end
