(* ===== verification/Target.thy ===== *)
theory Target
  imports Text_Patches Session_Life
begin

text \<open>
  \<open>vita-gdb/src/gdb/target.rs\<close>: what the debugger is attached to. The protocol library
  (\<open>gdbstub\<close>) calls these operations; they work on the target's own fields, on the session
  pool and on the world, kept together in a \<open>sys\<close> record.
\<close>

section \<open>State\<close>

datatype attach_kind = AttachAttach | AttachRun

datatype target_error = NonFatal

record vita_target =
  t_session :: "nat option"
  t_evflag :: sce_uid
  t_detached :: bool
  t_attach_kind :: attach_kind
  t_step_action :: "sce_uid option"
  t_continue_actions :: "sce_uid list"
  t_scheduler_lock :: bool

record 'w sys =
  tgt :: vita_target
  pool :: "session list"
  wld :: 'w

definition target_new :: "sce_uid \<Rightarrow> vita_target" where
  "target_new evflag = \<lparr>t_session = None, t_evflag = evflag, t_detached = False,
     t_attach_kind = AttachAttach, t_step_action = None, t_continue_actions = [],
     t_scheduler_lock = False\<rparr>"

definition FAKE_PID :: sce_uid where "FAKE_PID = 1"

definition target_pid :: "'w sys \<Rightarrow> sce_uid option" where
  "target_pid s = (case t_session (tgt s) of None \<Rightarrow> None | Some i \<Rightarrow> session_pid (pool s ! i))"

text \<open>Actions of the world and of one session, in the system.\<close>

definition on_world :: "('w \<Rightarrow> 'a \<times> 'w) \<Rightarrow> 'w sys \<Rightarrow> 'a \<times> 'w sys" where
  "on_world f s = (case f (wld s) of (x, w) \<Rightarrow> (x, s\<lparr>wld := w\<rparr>))"

definition on_session :: "nat \<Rightarrow> (session \<Rightarrow> 'w \<Rightarrow> 'a \<times> session \<times> 'w) \<Rightarrow> 'w sys \<Rightarrow> 'a \<times> 'w sys" where
  "on_session i f s = (case f (pool s ! i) (wld s) of (x, ses, w) \<Rightarrow>
     (x, s\<lparr>pool := (pool s)[i := ses], wld := w\<rparr>))"

section \<open>Attaching and detaching\<close>

definition target_attach :: "sce_uid \<Rightarrow> attach_kind \<Rightarrow> 'w sys \<Rightarrow> bool \<times> 'w sys" where
  "target_attach pid kind s =
     (if t_session (tgt s) \<noteq> None then (False, s)
      else (case gdb_session_new (t_evflag (tgt s)) pid (pool s) of
        (None, p) \<Rightarrow> (False, s\<lparr>pool := p\<rparr>)
      | (Some i, p) \<Rightarrow>
          (True, s\<lparr>pool := p, tgt := (tgt s)\<lparr>t_session := Some i, t_detached := False, t_attach_kind := kind\<rparr>\<rparr>)))"

text \<open>
  The session is dropped after the process was resumed; \<open>None\<close> if draining its queue does
  not end.
\<close>

definition target_detach :: "'w kernel \<Rightarrow> 'w sys \<Rightarrow> 'w sys option" where
  "target_detach K s = (case t_session (tgt s) of
     None \<Rightarrow> Some s
   | Some i \<Rightarrow>
      (case clear_all K (pool s ! i) (wld s) of (ses, w) \<Rightarrow>
        (let w1 = (case session_pid ses of None \<Rightarrow> w | Some pid \<Rightarrow> snd (resume_process K pid w)) in
         (case gdb_session_drop K ses w1 of
            None \<Rightarrow> None
          | Some (ses', w2) \<Rightarrow>
             Some \<lparr>tgt = (tgt s)\<lparr>t_session := None, t_detached := True\<rparr>, pool = (pool s)[i := ses'], wld = w2\<rparr>))))"

text \<open>
  The extended-mode operations; an operation that detaches first answers \<open>None\<close> when that
  does not return. A process id of the protocol is not zero; \<open>pid\<close> is its low word.
\<close>

definition extended_attach :: "'w kernel \<Rightarrow> sce_uid \<Rightarrow> 'w sys \<Rightarrow> ((target_error, unit) res \<times> 'w sys) option" where
  "extended_attach K pid s =
     (if pid = FAKE_PID \<or> pid = 0x10005 then Some (Err NonFatal, s)
      else map_option (\<lambda>s. case target_attach pid AttachAttach s of
          (False, s) \<Rightarrow> (Err NonFatal, s)
        | (True, s) \<Rightarrow> (case on_world (halt_process K pid) s of
             (Inl Panicked, s) \<Rightarrow> (panic, s)
           | (Inl (Error _), s) \<Rightarrow> (Err NonFatal, s)
           | (Inr _, s) \<Rightarrow> (Ok (), s))) (target_detach K s))"

definition kill :: "'w kernel \<Rightarrow> sce_uid option \<Rightarrow> 'w sys \<Rightarrow> (target_error, unit) res \<times> 'w sys" where
  "kill K pid s = (case (case pid of None \<Rightarrow> target_pid s | Some p \<Rightarrow> Some p) of
     None \<Rightarrow> (Err NonFatal, s)
   | Some pid \<Rightarrow> (case on_world (sce_call ''ksceAppMgrKillProcess'' (ksceAppMgrKillProcess K pid)) s of
        (Inl _, s) \<Rightarrow> (Err NonFatal, s)
      | (Inr _, s) \<Rightarrow> (Ok (), s)))"

definition query_if_attached :: "sce_uid \<Rightarrow> 'w sys \<Rightarrow> (target_error, attach_kind) res" where
  "query_if_attached pid s = (case target_pid s of
     None \<Rightarrow> Err NonFatal
   | Some cur \<Rightarrow> if cur \<noteq> pid then Err NonFatal else Ok (t_attach_kind (tgt s)))"

definition current_active_pid :: "'w sys \<Rightarrow> (sce_error, sce_uid) res" where
  "current_active_pid s = (case target_pid s of
     None \<Rightarrow> Ok FAKE_PID
   | Some pid \<Rightarrow> if pid = 0 then panic else Ok pid)"

text \<open>Launching: the path and argument block handed to the launcher.\<close>

definition launch_path :: "u8 list \<Rightarrow> cstr_error + u8 list" where
  "launch_path filename =
     into_cstr (write_ignoring stream_write_str (stream_new (replicate 128 0) 0)
       [if length filename = 9 then [bytes ''ux0:app/'', filename, bytes ''/eboot.bin''] else [filename]])"

definition launch_args :: "u8 list \<Rightarrow> (target_error, u8 list) res" where
  "launch_args filename =
     argv_slice (snd (argv_add argv_new (bytes ''-titleid'')
       (if length filename = 9 then filename else bytes ''MLCL05505'')))"

definition WAITCLEAR_PAT :: u32 where "WAITCLEAR_PAT = 4"

definition extended_run ::
  "'w kernel \<Rightarrow> u8 list option \<Rightarrow> 'w sys \<Rightarrow> ((target_error, sce_uid) res \<times> 'w sys) option" where
  "extended_run K filename s = (case filename of
     None \<Rightarrow> Some (Err NonFatal, s)
   | Some filename \<Rightarrow>
     if \<not> utf8_ok filename then Some (Err NonFatal, s)
     else (case launch_path filename of Inl _ \<Rightarrow> Some (Err NonFatal, s)
     | Inr path \<Rightarrow> (case launch_args filename of Inl e \<Rightarrow> Some (Inl e, s)
     | Inr args \<Rightarrow> (case on_world (sce_call ''ksceAppMgrLaunchAppByPath''
           (ksceAppMgrLaunchAppByPath K path args 0x80000000 (push_bit 31 1))) s of
         (Inl _, s) \<Rightarrow> Some (Err NonFatal, s)
       | (Inr (pid, _), s) \<Rightarrow> Option.bind (target_detach K s) (\<lambda>s.
           (case target_attach pid AttachRun s of
              (False, s) \<Rightarrow> Some (Err NonFatal, s)
            | (True, s) \<Rightarrow> (case on_world (evf_wait_timeout K (t_evflag (tgt s)) EV_PROCESS_STARTED
                   WAITCLEAR_PAT 10000000) s of
                (Inr (Some _), s) \<Rightarrow> Some (if pid = 0 then Err NonFatal else Ok pid, s)
              | (Inl Panicked, s) \<Rightarrow> Some (panic, s)
              | (_, s) \<Rightarrow> map_option (\<lambda>s. (Err NonFatal, s)) (target_detach K s))))))))"

section \<open>Libraries, processes and the executable\<close>

definition hex_digit :: "nat \<Rightarrow> u8" where
  "hex_digit d = (if d < 10 then of_nat (48 + d) else of_nat (87 + d))"

text \<open>The format \<open>{:x}\<close>.\<close>

fun hex_nat :: "nat \<Rightarrow> u8 list" where
  "hex_nat n = (if n < 16 then [hex_digit n] else hex_nat (n div 16) @ [hex_digit (n mod 16)])"

declare hex_nat.simps [simp del]

definition segment_call :: "segment \<Rightarrow> u8 list list" where
  "segment_call seg = [bytes ''<segment address=\"0x'', hex_nat (unat (seg_vaddr seg)), bytes ''\"/>'']"

text \<open>The \<open>write!\<close> calls for one module: none if its path is not UTF-8.\<close>

definition library_calls :: "module_info \<Rightarrow> u8 list list list" where
  "library_calls info =
     (let path = until_nul (mi_path info) in
      if \<not> utf8_ok path then []
      else [[bytes ''<library name=\"'', path, bytes ''\">'']] @
        map segment_call (takeWhile (\<lambda>seg. seg_size seg \<noteq> 0) (mi_segments info)) @
        [[bytes ''</library>'']])"

fun libraries_loop :: "'w kernel \<Rightarrow> sce_uid \<Rightarrow> sce_uid list \<Rightarrow> 'w \<Rightarrow> u8 list list list \<times> 'w" where
  "libraries_loop K pid [] w = ([], w)"
| "libraries_loop K pid (modid # modids) w = (case get_module_info K pid modid w of
     (Inl _, w) \<Rightarrow> libraries_loop K pid modids w
   | (Inr info, w) \<Rightarrow> (case libraries_loop K pid modids w of (calls, w) \<Rightarrow> (library_calls info @ calls, w)))"

text \<open>Writes into \<open>dst\<close>; the result is the number of bytes written and the buffer.\<close>

definition get_libraries ::
  "'w kernel \<Rightarrow> nat \<Rightarrow> u8 list \<Rightarrow> 'w sys \<Rightarrow> ((target_error, nat) res \<times> u8 list) \<times> 'w sys" where
  "get_libraries K offset dst s = (case target_pid s of
     None \<Rightarrow> ((Ok 0, dst), s)
   | Some pid \<Rightarrow> (case on_world (get_module_ids K pid) s of
        (Inl Panicked, s) \<Rightarrow> ((panic, dst), s)
      | (Inl (Error _), s) \<Rightarrow> ((Err NonFatal, dst), s)
      | (Inr modids, s) \<Rightarrow> (case on_world (libraries_loop K pid modids) s of (calls, s) \<Rightarrow>
          (let writer = write_ignoring stream_write_str (stream_new dst offset)
                 ([[bytes ''<library-list version=\"1.0\">'']] @ calls @ [[bytes ''</library-list>'']])
           in ((Ok (sw_written writer), sw_buf writer), s)))))"

definition process_info :: "'w kernel \<Rightarrow> 'w sys \<Rightarrow> (sce_error, sce_uid list) res \<times> 'w sys" where
  "process_info K = seq (on_world (get_process_ids K)) (\<lambda>pids. ret (filter (\<lambda>p. p \<noteq> 0) pids))"

definition get_exec_file ::
  "'w kernel \<Rightarrow> sce_uid option \<Rightarrow> nat \<Rightarrow> nat \<Rightarrow> u8 list \<Rightarrow> 'w sys \<Rightarrow> ((target_error, nat) res \<times> u8 list) \<times> 'w sys" where
  "get_exec_file K pid offset l dst s =
     (case (case pid of None \<Rightarrow> target_pid s | Some p \<Rightarrow> Some p) of
       None \<Rightarrow> ((Err NonFatal, dst), s)
     | Some pid \<Rightarrow> (case on_world (sce_call ''ksceKernelGetModuleIdByPid'' (ksceKernelGetModuleIdByPid K pid)) s of
         (Inl _, s) \<Rightarrow> ((Err NonFatal, dst), s)
       | (Inr (modid, _), s) \<Rightarrow> (case on_world (get_module_info K pid modid) s of
           (Inl _, s) \<Rightarrow> ((Err NonFatal, dst), s)
         | (Inr info, s) \<Rightarrow>
            (let path = mi_path info; copy_len = min l (length dst) in
             if offset \<ge> length path \<or> copy_len = 0 then ((Ok 0, dst), s)
             else (let count = min (length path - offset) copy_len
                   in ((Ok count, copy_at dst 0 (take count (drop offset path))), s))))))"

section \<open>Breakpoints\<close>

definition support_hw :: "'w kernel \<Rightarrow> 'w sys \<Rightarrow> bool \<times> 'w sys" where
  "support_hw K = on_world (is_debug_enabled K)"

definition add_sw_breakpoint ::
  "'w kernel \<Rightarrow> u32 \<Rightarrow> arm_breakpoint_kind \<Rightarrow> 'w sys \<Rightarrow> (target_error, bool) res \<times> 'w sys" where
  "add_sw_breakpoint K addr kind s = (case t_session (tgt s) of
     None \<Rightarrow> (Ok False, s)
   | Some i \<Rightarrow> (case on_session i (set_sw_breakpoint K addr kind) s of (b, s) \<Rightarrow> (Ok b, s)))"

definition remove_sw_breakpoint :: "'w kernel \<Rightarrow> u32 \<Rightarrow> 'w sys \<Rightarrow> (target_error, bool) res \<times> 'w sys" where
  "remove_sw_breakpoint K addr s = (case t_session (tgt s) of
     None \<Rightarrow> (Ok False, s)
   | Some i \<Rightarrow> (case on_session i (clear_sw_breakpoint K addr) s of (b, s) \<Rightarrow> (Ok b, s)))"

text \<open>The four hardware requests differ only in the session operation; an error reads as false.\<close>

definition hw_request ::
  "(session \<Rightarrow> 'w \<Rightarrow> (sce_error, bool) res \<times> session \<times> 'w) \<Rightarrow> 'w sys \<Rightarrow> (target_error, bool) res \<times> 'w sys" where
  "hw_request op s = (case t_session (tgt s) of
     None \<Rightarrow> (Ok False, s)
   | Some i \<Rightarrow> (case on_session i op s of
        (Inl Panicked, s) \<Rightarrow> (panic, s)
      | (Inl (Error _), s) \<Rightarrow> (Ok False, s)
      | (Inr _, s) \<Rightarrow> (Ok True, s)))"

definition add_hw_breakpoint where
  "add_hw_breakpoint K addr = hw_request (gdb_session_set_hw_breakpoint K addr)"
definition remove_hw_breakpoint where
  "remove_hw_breakpoint K addr = hw_request (gdb_session_clear_hw_breakpoint K addr)"
definition add_hw_watchpoint where
  "add_hw_watchpoint K addr l kind = hw_request (gdb_session_set_hw_watchpoint K addr l kind)"
definition remove_hw_watchpoint where
  "remove_hw_watchpoint K addr = hw_request (gdb_session_clear_hw_watchpoint K addr)"

end
