(* ===== verification/Multi_Thread.thy ===== *)
theory Multi_Thread
  imports Target Armv7 Next_Pc
begin

text \<open>
  \<open>vita-gdb/src/gdb/multi_thread.rs\<close>: registers and memory of the threads of the attached
  process, and resuming it, with single steps done by a breakpoint at the next instruction.
  A request for all registers fills the caller's \<open>armv7_regs\<close>, which is passed in and returned.
\<close>

section \<open>Registers\<close>

definition reg_mask :: "reg_id \<Rightarrow> u32" where
  "reg_mask rid = (case rid of
     Gpr n \<Rightarrow> push_bit n 1 | Sp \<Rightarrow> push_bit 13 1 | Lr \<Rightarrow> push_bit 14 1 | Pc \<Rightarrow> push_bit 15 1
   | Cpsr \<Rightarrow> push_bit 16 1 | Fpscr \<Rightarrow> push_bit 17 1 | Dpr _ \<Rightarrow> 0)"

definition all_core_regs :: "reg_id list" where
  "all_core_regs = map Gpr [0..<13] @ [Sp, Lr, Pc, Cpsr, Fpscr]"

definition full_mask :: u32 where
  "full_mask = foldr (OR) (map reg_mask all_core_regs) 0"

definition no_vfp :: u64 where "no_vfp = 0x7ff8dead7f80dead"
definition NO_VFP_CONTEXT :: i32 where "NO_VFP_CONTEXT = 0x80020008"

text \<open>The kernel keeps two register sets per thread; the one in user mode is taken.\<close>

definition thread_regs :: "cpu_regs \<times> cpu_regs \<Rightarrow> cpu_regs" where
  "thread_regs entries = (if cr_cpsr (fst entries) AND 0x1F = 0x10 then fst entries else snd entries)"

text \<open>The VFP registers: a thread without a VFP context reads as the fill value.\<close>

definition read_vfp :: "'w kernel \<Rightarrow> sce_uid \<Rightarrow> ('w, u64 list option) act" where
  "read_vfp K tid w = (case sce_call ''ksceKernelGetVfpRegisterForDebugger'' (ksceKernelGetVfpRegisterForDebugger K tid) w of
     (Inr (_, d), w) \<Rightarrow> (Some (fill_prefix (replicate 32 no_vfp) d), w)
   | (Inl (Error err), w) \<Rightarrow> (if code err = NO_VFP_CONTEXT then Some (replicate 32 no_vfp) else None, w)
   | (Inl Panicked, w) \<Rightarrow> (None, w))"

definition fill_core :: "cpu_regs \<Rightarrow> armv7_regs \<Rightarrow> armv7_regs" where
  "fill_core th regs = regs\<lparr>ar_r := cr_r th, ar_sp := cr_sp th, ar_lr := cr_lr th, ar_pc := cr_pc th,
     ar_cpsr := cr_cpsr th, ar_fpscr := cr_fpscr th, ar_d := replicate 32 no_vfp\<rparr>"

definition read_registers ::
  "'w kernel \<Rightarrow> armv7_regs \<Rightarrow> sce_uid \<Rightarrow> 'w sys \<Rightarrow> ((target_error, unit) res \<times> armv7_regs) \<times> 'w sys" where
  "read_registers K regs tid s =
     (if t_session (tgt s) = None then ((Err NonFatal, regs), s)
      else (case on_world (sce_call ''ksceKernelGetThreadCpuRegisters'' (ksceKernelGetThreadCpuRegisters K tid)) s of
        (Inl _, s) \<Rightarrow> ((Err NonFatal, regs), s)
      | (Inr (_, entries), s) \<Rightarrow>
         (let regs = fill_core (thread_regs entries) regs in
          (case on_world (read_vfp K tid) s of
             (None, s) \<Rightarrow> ((Err NonFatal, regs), s)
           | (Some d, s) \<Rightarrow> ((Ok (), regs\<lparr>ar_d := d\<rparr>), s)))))"

definition cpu_regs_of :: "armv7_regs \<Rightarrow> cpu_regs" where
  "cpu_regs_of regs = \<lparr>cr_r = ar_r regs, cr_sp = ar_sp regs, cr_lr = ar_lr regs, cr_pc = ar_pc regs,
     cr_cpsr = ar_cpsr regs, cr_fpscr = ar_fpscr regs\<rparr>"

definition write_registers ::
  "'w kernel \<Rightarrow> armv7_regs \<Rightarrow> sce_uid \<Rightarrow> 'w sys \<Rightarrow> (target_error, unit) res \<times> 'w sys" where
  "write_registers K regs tid s =
     (case on_world (sce_call ''ksceKernelSetThreadCpuRegisters''
         (ksceKernelSetThreadCpuRegisters K tid (cpu_regs_of regs) full_mask)) s of
        (Inl _, s) \<Rightarrow> (Err NonFatal, s)
      | (Inr _, s) \<Rightarrow> (case on_world (sce_call ''ksceKernelSetVfpRegisterForDebugger''
            (ksceKernelSetVfpRegisterForDebugger K tid (ar_d regs))) s of
          (Inl _, s) \<Rightarrow> (Err NonFatal, s)
        | (Inr _, s) \<Rightarrow> (Ok (), s)))"

text \<open>One register of a set; a general register past 12 is \<open>unreachable!\<close>.\<close>

definition core_value :: "cpu_regs \<Rightarrow> reg_id \<Rightarrow> (target_error, u32) res" where
  "core_value th rid = (case rid of
     Gpr n \<Rightarrow> if n \<le> 12 then Ok (cr_r th ! n) else panic
   | Sp \<Rightarrow> Ok (cr_sp th) | Lr \<Rightarrow> Ok (cr_lr th) | Pc \<Rightarrow> Ok (cr_pc th)
   | Cpsr \<Rightarrow> Ok (cr_cpsr th) | Fpscr \<Rightarrow> Ok (cr_fpscr th) | Dpr _ \<Rightarrow> panic)"

text \<open>\<open>copy_from_slice\<close> panics unless the lengths agree; \<open>n\<close> is the length of the buffer.\<close>

definition copy_out :: "nat \<Rightarrow> u8 list \<Rightarrow> (target_error, u8 list) res" where
  "copy_out n bs = (if length bs = n then Ok bs else panic)"

text \<open>The answer is what the buffer holds; without a session nothing is written.\<close>

definition read_register ::
  "'w kernel \<Rightarrow> sce_uid \<Rightarrow> reg_id \<Rightarrow> nat \<Rightarrow> 'w sys \<Rightarrow> (target_error, u8 list) res \<times> 'w sys" where
  "read_register K tid rid n s =
     (if t_session (tgt s) = None then (Ok [], s)
      else (case rid of
        Dpr dpr \<Rightarrow> (case on_world (read_vfp K tid) s of
            (None, s) \<Rightarrow> (Err NonFatal, s)
          | (Some vfp, s) \<Rightarrow> (and_then (index vfp dpr) (\<lambda>v. copy_out n (to_le 8 v)), s))
      | _ \<Rightarrow> (case on_world (sce_call ''ksceKernelGetThreadCpuRegisters'' (ksceKernelGetThreadCpuRegisters K tid)) s of
            (Inl _, s) \<Rightarrow> (Err NonFatal, s)
          | (Inr (_, entries), s) \<Rightarrow>
              (and_then (core_value (thread_regs entries) rid) (\<lambda>v. copy_out n (to_le 4 v)), s))))"

definition zero_regs :: cpu_regs where
  "zero_regs = \<lparr>cr_r = replicate 13 0, cr_sp = 0, cr_lr = 0, cr_pc = 0, cr_cpsr = 0, cr_fpscr = 0\<rparr>"

definition set_core :: "reg_id \<Rightarrow> u32 \<Rightarrow> cpu_regs \<Rightarrow> (target_error, cpu_regs) res" where
  "set_core rid v th = (case rid of
     Gpr n \<Rightarrow> if n \<le> 12 then Ok (th\<lparr>cr_r := (cr_r th)[n := v]\<rparr>) else panic
   | Sp \<Rightarrow> Ok (th\<lparr>cr_sp := v\<rparr>) | Lr \<Rightarrow> Ok (th\<lparr>cr_lr := v\<rparr>) | Pc \<Rightarrow> Ok (th\<lparr>cr_pc := v\<rparr>)
   | Cpsr \<Rightarrow> Ok (th\<lparr>cr_cpsr := v\<rparr>) | Fpscr \<Rightarrow> Ok (th\<lparr>cr_fpscr := v\<rparr>) | Dpr _ \<Rightarrow> Err NonFatal)"

text \<open>The value is read as four bytes before the register is looked at.\<close>

definition write_register ::
  "'w kernel \<Rightarrow> sce_uid \<Rightarrow> reg_id \<Rightarrow> u8 list \<Rightarrow> 'w sys \<Rightarrow> (target_error, unit) res \<times> 'w sys" where
  "write_register K tid rid val s =
     (if length val \<noteq> 4 then (panic, s)
      else (case set_core rid (from_le val) zero_regs of
        Inl e \<Rightarrow> (Inl e, s)
      | Inr regs \<Rightarrow> (case on_world (sce_call ''ksceKernelSetThreadCpuRegisters''
            (ksceKernelSetThreadCpuRegisters K tid regs (reg_mask rid))) s of
          (Inl _, s) \<Rightarrow> (Err NonFatal, s)
        | (Inr _, s) \<Rightarrow> (Ok (), s))))"

section \<open>Memory\<close>

text \<open>The answer is what the buffer of \<open>n\<close> bytes holds afterwards.\<close>

definition read_addrs ::
  "'w kernel \<Rightarrow> u32 \<Rightarrow> u8 list \<Rightarrow> 'w sys \<Rightarrow> ((target_error, nat) res \<times> u8 list) \<times> 'w sys" where
  "read_addrs K start data s = (case target_pid s of
     None \<Rightarrow> ((Ok (length data), replicate (length data) 0), s)
   | Some pid \<Rightarrow> (case on_world (sce_call ''ksceKernelCopyFromUserProc''
         (ksceKernelCopyFromUserProc K pid start (length data))) s of
        (Inl _, s) \<Rightarrow> ((Err NonFatal, data), s)
      | (Inr (_, new), s) \<Rightarrow> ((Ok (length data), fill_prefix data new), s)))"

definition write_addrs :: "'w kernel \<Rightarrow> u32 \<Rightarrow> u8 list \<Rightarrow> 'w sys \<Rightarrow> (target_error, unit) res \<times> 'w sys" where
  "write_addrs K start data s = (case target_pid s of
     None \<Rightarrow> (Ok (), s)
   | Some pid \<Rightarrow> (case on_world (write_user_text K pid start data) s of
        (Inl _, s) \<Rightarrow> (Err NonFatal, s)
      | (Inr _, s) \<Rightarrow> (Ok (), s)))"

text \<open>
  The reader handed to \<open>next_pc\<close>. It borrows the target immutably: the reads of one call are
  made in one and the same state.
\<close>

definition vita_read :: "'w kernel \<Rightarrow> sce_uid \<Rightarrow> 'w \<Rightarrow> mem_read" where
  "vita_read K pid w addr n =
     (case fst (sce_call ''ksceKernelCopyFromUserProc'' (ksceKernelCopyFromUserProc K pid addr n) w) of
        Inl _ \<Rightarrow> None
      | Inr (_, data) \<Rightarrow> Some (fill_prefix (replicate n 0) data))"

interpretation vita: mem_reader "vita_read K pid w" for K :: "'w kernel" and pid w
  by unfold_locales (auto simp: vita_read_def split: sum.splits)

section \<open>Threads\<close>

definition list_active_threads :: "'w kernel \<Rightarrow> 'w sys \<Rightarrow> (sce_error, sce_uid list) res \<times> 'w sys" where
  "list_active_threads K s = (case target_pid s of
     None \<Rightarrow> (Ok [], s)
   | Some pid \<Rightarrow> seq (on_world (get_thread_ids K pid)) (\<lambda>tids. if 0 \<in> set tids then throw panic else ret tids) s)"

definition is_thread_alive :: "'w kernel \<Rightarrow> sce_uid \<Rightarrow> 'w sys \<Rightarrow> (sce_error, bool) res \<times> 'w sys" where
  "is_thread_alive K tid s = (case on_world (get_thread_info K tid) s of
     (Inl _, s) \<Rightarrow> (Ok False, s)
   | (Inr _, s) \<Rightarrow> (Ok True, s))"

definition thread_extra_info ::
  "'w kernel \<Rightarrow> sce_uid \<Rightarrow> u8 list \<Rightarrow> 'w sys \<Rightarrow> (sce_error, nat \<times> u8 list) res \<times> 'w sys" where
  "thread_extra_info K tid dst s =
     (if t_session (tgt s) = None then (Ok (0, dst), s)
      else seq (on_world (get_thread_info K tid)) (\<lambda>info.
        (let name = name_to_str (ti_name info); n = min (length name) (length dst)
         in ret (n, copy_at dst 0 (take n name)))) s)"

section \<open>Resuming\<close>

definition arm_reg_context :: "armv7_regs \<Rightarrow> reg_context" where
  "arm_reg_context regs = \<lparr>rc_r = ar_r regs, rc_sp = ar_sp regs, rc_lr = ar_lr regs, rc_pc = ar_pc regs,
     rc_cpsr = ar_cpsr regs\<rparr>"

definition STATUS_SUSPEND :: i32 where "STATUS_SUSPEND = 1"
definition STATUS_RUNNING :: i32 where "STATUS_RUNNING = 2"

text \<open>The register the processor would read as pc: two instructions ahead.\<close>

definition pipeline_pc :: "armv7_regs \<Rightarrow> armv7_regs" where
  "pipeline_pc regs = regs\<lparr>ar_pc := ar_pc regs + (if drop_bit 5 (ar_cpsr regs) AND 1 \<noteq> 0 then 4 else 8)\<rparr>"

text \<open>A single step of thread \<open>tid\<close>: whether the breakpoint went in is not looked at.\<close>

definition plan_step ::
  "('r, 'e) isa \<Rightarrow> 'w kernel \<Rightarrow> sce_uid \<Rightarrow> sce_uid \<Rightarrow> 'w sys \<Rightarrow> (sce_error, unit) res \<times> 'w sys" where
  "plan_step A K pid tid s =
     (let s = s\<lparr>tgt := (tgt s)\<lparr>t_step_action := None\<rparr>\<rparr> in
      if tid = 0 then (panic, s)
      else (case read_registers K default_regs tid s of
        ((Inl Panicked, _), s) \<Rightarrow> (panic, s)
      | ((Inl (Error _), _), s) \<Rightarrow> (Err (SceError (- 1) ''read_registers''), s)
      | ((Inr _, regs), s) \<Rightarrow>
         (if vita_read K pid (wld s) (ar_pc regs) 4 = None then (panic, s)
          else (case next_pc A (arm_reg_context (pipeline_pc regs)) (vita_read K pid (wld s)) of
             Inl Panicked \<Rightarrow> (panic, s)
           | Inl (Error _) \<Rightarrow> (Err (SceError (- 1) ''next_pc''), s)
           | Inr (addr, to_thumb) \<Rightarrow>
              (case t_session (tgt s) of None \<Rightarrow> (panic, s) | Some i \<Rightarrow>
                 (let kind = (if to_thumb then Thumb16 else Arm32);
                      (planted, s) = on_session i (set_sw_breakpoint K addr kind) s
                  in (Ok (), s\<lparr>pool := (pool s)[i := set_step tid addr (pool s ! i)]\<rparr>)))))))"

definition resume_thread ::
  "('r, 'e) isa \<Rightarrow> 'w kernel \<Rightarrow> sce_uid \<Rightarrow> sce_uid \<Rightarrow> 'w sys \<Rightarrow> (sce_error, unit) res \<times> 'w sys" where
  "resume_thread A K pid tid s =
     seq (if t_step_action (tgt s) = Some tid then seq (plan_step A K pid tid) (\<lambda>_. ret STATUS_RUNNING)
          else ret (if t_scheduler_lock (tgt s) then STATUS_SUSPEND else STATUS_RUNNING))
       (\<lambda>status s.
          (let status = (if tid \<in> set (t_continue_actions (tgt s)) then STATUS_RUNNING else status) in
           run (on_world (sce_call ''ksceKernelChangeThreadSuspendStatus''
               (ksceKernelChangeThreadSuspendStatus K tid status))) (\<lambda>_. ret ()) s)) s"

fun resume_loop ::
  "('r, 'e) isa \<Rightarrow> 'w kernel \<Rightarrow> sce_uid \<Rightarrow> sce_uid list \<Rightarrow> 'w sys \<Rightarrow> (sce_error, unit) res \<times> 'w sys" where
  "resume_loop A K pid [] = ret ()"
| "resume_loop A K pid (tid # tids) = seq (resume_thread A K pid tid) (\<lambda>_. resume_loop A K pid tids)"

definition pending_excp :: "'w sys \<Rightarrow> bool" where
  "pending_excp s \<longleftrightarrow> (case t_session (tgt s) of None \<Rightarrow> False | Some i \<Rightarrow> has_excp (pool s ! i))"

definition resume :: "('r, 'e) isa \<Rightarrow> 'w kernel \<Rightarrow> 'w sys \<Rightarrow> (sce_error, unit) res \<times> 'w sys" where
  "resume A K s = (case target_pid s of
     None \<Rightarrow> (Ok (), s)
   | Some pid \<Rightarrow> seq (on_world (get_process_status K pid)) (\<lambda>status s.
       if status AND PROCESS_STATUS_SUSPENDED = 0 then (Ok (), s)
       else if pending_excp s \<and> t_step_action (tgt s) = None then (Ok (), s)
       else seq (on_world (get_thread_ids K pid)) (\<lambda>tids.
         seq (resume_loop A K pid tids) (\<lambda>_.
         seq (on_world (sce_call ''ksceKernelResumeProcess'' (ksceKernelResumeProcess K pid))) (\<lambda>_. ret ()))) s) s)"

definition clear_resume_actions :: "'w sys \<Rightarrow> (sce_error, unit) res \<times> 'w sys" where
  "clear_resume_actions s =
     (Ok (), s\<lparr>tgt := (tgt s)\<lparr>t_step_action := None, t_continue_actions := [], t_scheduler_lock := False\<rparr>\<rparr>)"

definition set_resume_action_continue ::
  "sce_uid \<Rightarrow> nat option \<Rightarrow> 'w sys \<Rightarrow> (sce_error, unit) res \<times> 'w sys" where
  "set_resume_action_continue tid signal s =
     (if signal \<noteq> None then (Err (SceError (- 1) ''set_resume_action_continue''), s)
      else if length (t_continue_actions (tgt s)) < 64
      then (Ok (), s\<lparr>tgt := (tgt s)\<lparr>t_continue_actions := t_continue_actions (tgt s) @ [tid]\<rparr>\<rparr>)
      else (Err (SceError (- 1) ''continue_actions full''), s))"

definition set_resume_action_step ::
  "sce_uid \<Rightarrow> nat option \<Rightarrow> 'w sys \<Rightarrow> (sce_error, unit) res \<times> 'w sys" where
  "set_resume_action_step tid signal s =
     (if signal \<noteq> None then (Err (SceError (- 1) ''set_resume_action_step''), s)
      else (Ok (), s\<lparr>tgt := (tgt s)\<lparr>t_step_action := Some tid\<rparr>\<rparr>))"

definition set_resume_action_scheduler_lock :: "'w sys \<Rightarrow> (sce_error, unit) res \<times> 'w sys" where
  "set_resume_action_scheduler_lock s = (Ok (), s\<lparr>tgt := (tgt s)\<lparr>t_scheduler_lock := True\<rparr>\<rparr>)"

end
