(* ===== verification/Thread_Props.thy ===== *)
theory Thread_Props
  imports Multi_Thread
begin

text \<open>
  What the register, memory and resume requests do: one register at a time agrees with all at
  once, masked writes, resuming without a step, and memory under a breakpoint.
\<close>

lemma on_world_simps [simp]:
  "fst (on_world f s) = fst (f (wld s))"
  "tgt (snd (on_world f s)) = tgt s" "pool (snd (on_world f s)) = pool s"
  "wld (snd (on_world f s)) = snd (f (wld s))"
  by (simp_all add: on_world_def split_beta)

lemma on_world_pure: "snd (f (wld s)) = wld s \<Longrightarrow> on_world f s = (fst (f (wld s)), s)"
  by (simp add: on_world_def split_beta)

section \<open>Registers\<close>

lemma sce_call_pure: "snd (call w) = w \<Longrightarrow> snd (sce_call name call w) = w"
  by (simp add: sce_call_def split_beta)

text \<open>
  C31: Reading one register answers exactly the bytes that reading all registers would have
  given for it, for every register number of the target description, provided reading the
  general registers has no effect on the world.
\<close>

theorem read_register_agrees:
  assumes "\<And>w. snd (ksceKernelGetThreadCpuRegisters K tid w) = w"
    and "from_raw_id n = Some (rid, Some sz)"
    and "read_registers K regs0 tid s = ((Ok (), regs), s1)"
  shows "fst (read_register K tid rid sz s) = Ok (reg_bytes regs rid)"
proof -
  let ?get = "sce_call ''ksceKernelGetThreadCpuRegisters'' (ksceKernelGetThreadCpuRegisters K tid)"
  have on: "t_session (tgt s) \<noteq> None" using assms(3) by (auto simp: read_registers_def split: if_splits)
  have pure: "on_world ?get s = (fst (?get (wld s)), s)"
    by (rule on_world_pure) (simp add: sce_call_pure assms(1))
  obtain r entries where get: "fst (?get (wld s)) = Inr (r, entries)"
    using assms(3) on pure by (auto simp: read_registers_def split: sum.splits)
  obtain d s2 where vfp: "on_world (read_vfp K tid) s = (Some d, s2)"
    and regs: "regs = (fill_core (thread_regs entries) regs0)\<lparr>ar_d := d\<rparr>"
    using assms(3) on pure get by (auto simp: read_registers_def Let_def split: prod.splits option.splits)
  have len: "length d = 32"
    using vfp by (auto simp: on_world_def read_vfp_def split: prod.splits sum.splits fault.splits if_splits)
  have cases: "rid = Gpr n \<and> n \<le> 12 \<and> sz = 4 \<or> rid \<in> {Sp, Lr, Pc, Cpsr, Fpscr} \<and> sz = 4 \<or>
      (\<exists>k<32. rid = Dpr k \<and> sz = 8)"
    using assms(2) by (auto simp: from_raw_id_def Let_def split: if_splits)
  then show ?thesis
    using on pure get vfp len
    by (auto simp: read_register_def regs reg_bytes_def fill_core_def core_value_def copy_out_def)
qed

definition demo_sys :: "demo sys" where
  "demo_sys = \<lparr>tgt = (target_new 9)\<lparr>t_session := Some 0\<rparr>, pool = demo_pool, wld = demo_world\<rparr>"

theorem read_register_agrees_witness:
  "fst (read_register demo_kernel 7 Cpsr 4 demo_sys) = Ok [0x10, 0, 0, 0]"
proof -
  have pure: "\<And>w. snd (ksceKernelGetThreadCpuRegisters demo_kernel 7 w) = w" by (simp add: demo_defs)
  have read: "read_registers demo_kernel default_regs 7 demo_sys =
      ((Ok (), (fill_core empty_cpu_regs default_regs)\<lparr>ar_d := replicate 32 0\<rparr>), demo_sys)"
    by (simp add: read_registers_def demo_sys_def on_world_def sce_call_def demo_defs thread_regs_def
        empty_cpu_regs_def read_vfp_def Let_def)
  have "from_raw_id 16 = Some (Cpsr, Some 4)" by (simp add: from_raw_id_def)
  from read_register_agrees [OF pure this read] show ?thesis
    by (simp add: reg_bytes_def fill_core_def empty_cpu_regs_def to_le_def upt_rec)
qed

text \<open>The kernel's masked update of a thread's registers, as documented: bit \<open>i\<close> selects register \<open>i\<close>.\<close>

definition merge_regs :: "u32 \<Rightarrow> cpu_regs \<Rightarrow> cpu_regs \<Rightarrow> cpu_regs" where
  "merge_regs msk new old = \<lparr>
     cr_r = map (\<lambda>i. if bit msk i then cr_r new ! i else cr_r old ! i) [0..<13],
     cr_sp = if bit msk 13 then cr_sp new else cr_sp old,
     cr_lr = if bit msk 14 then cr_lr new else cr_lr old,
     cr_pc = if bit msk 15 then cr_pc new else cr_pc old,
     cr_cpsr = if bit msk 16 then cr_cpsr new else cr_cpsr old,
     cr_fpscr = if bit msk 17 then cr_fpscr new else cr_fpscr old\<rparr>"

definition masked_writes :: "('w \<Rightarrow> sce_uid \<Rightarrow> cpu_regs) \<Rightarrow> 'w kernel \<Rightarrow> bool" where
  "masked_writes cpu K \<longleftrightarrow>
     (\<forall>tid new msk w. 0 \<le> sint (fst (fst (ksceKernelSetThreadCpuRegisters K tid new msk w))) \<longrightarrow>
        cpu (snd (ksceKernelSetThreadCpuRegisters K tid new msk w)) =
          (cpu w)(tid := merge_regs msk new (cpu w tid))) \<and>
     (\<forall>tid d w. cpu (snd (ksceKernelSetVfpRegisterForDebugger K tid d w)) = cpu w)"

lemma bit_reg_mask:
  "n \<le> 12 \<Longrightarrow> bit (reg_mask (Gpr n)) i \<longleftrightarrow> i = n" "bit (reg_mask Sp) i \<longleftrightarrow> i = 13" "bit (reg_mask Lr) i \<longleftrightarrow> i = 14"
  "bit (reg_mask Pc) i \<longleftrightarrow> i = 15" "bit (reg_mask Cpsr) i \<longleftrightarrow> i = 16" "bit (reg_mask Fpscr) i \<longleftrightarrow> i = 17"
  unfolding reg_mask_def by (auto simp: bit_push_bit_iff bit_1_iff simp del: push_bit_of_1)

lemma full_mask_value: "full_mask = 0x3ffff"
  by code_simp

lemma bit_full_mask: "i < 18 \<Longrightarrow> bit full_mask i"
proof -
  assume "i < 18"
  then have "bit (mask 18 :: u32) i" by (simp only: bit_mask_iff) simp
  then show ?thesis by (simp add: full_mask_value mask_eq_exp_minus_1)
qed

lemma merge_full: "length (cr_r new) = 13 \<Longrightarrow> merge_regs full_mask new old = new"
proof -
  assume "length (cr_r new) = 13"
  then have "map (\<lambda>i. if bit full_mask i then cr_r new ! i else cr_r old ! i) [0..<13] = cr_r new"
    by (intro nth_equalityI) (simp_all add: bit_full_mask)
  then show ?thesis by (simp add: merge_regs_def bit_full_mask)
qed

lemma merge_none:
  assumes "\<forall>i<13. \<not> bit m i" "length (cr_r old) = 13"
  shows "merge_regs m new old = old\<lparr>
    cr_sp := if bit m 13 then cr_sp new else cr_sp old, cr_lr := if bit m 14 then cr_lr new else cr_lr old,
    cr_pc := if bit m 15 then cr_pc new else cr_pc old, cr_cpsr := if bit m 16 then cr_cpsr new else cr_cpsr old,
    cr_fpscr := if bit m 17 then cr_fpscr new else cr_fpscr old\<rparr>"
proof -
  have "map (\<lambda>i. if bit m i then cr_r new ! i else cr_r old ! i) [0..<13] = cr_r old"
    using assms by (intro nth_equalityI) simp_all
  then show ?thesis by (intro cpu_regs.equality) (simp_all add: merge_regs_def)
qed

lemma merge_one:
  assumes "length (cr_r old) = 13" "set_core rid v zero_regs = Ok new"
  shows "set_core rid v old = Ok (merge_regs (reg_mask rid) new old)"
proof (cases rid)
  case (Gpr n)
  then have n: "n \<le> 12" "new = zero_regs\<lparr>cr_r := (replicate 13 0)[n := v]\<rparr>"
    using assms(2) by (auto simp: set_core_def zero_regs_def split: if_splits)
  let ?m = "merge_regs (reg_mask rid) new old"
  have "cr_r ?m = (cr_r old)[n := v]"
    using assms(1) n by (intro nth_equalityI) (simp_all add: Gpr merge_regs_def bit_reg_mask nth_list_update)
  moreover have "cr_sp ?m = cr_sp old" "cr_lr ?m = cr_lr old" "cr_pc ?m = cr_pc old" "cr_cpsr ?m = cr_cpsr old"
    "cr_fpscr ?m = cr_fpscr old"
    using n(1) by (simp_all add: Gpr merge_regs_def bit_reg_mask)
  ultimately have "?m = old\<lparr>cr_r := (cr_r old)[n := v]\<rparr>" by (intro cpu_regs.equality) simp_all
  then show ?thesis using Gpr n(1) by (simp add: set_core_def)
qed (use assms merge_none [of "reg_mask rid" old new] in \<open>auto simp: set_core_def bit_reg_mask zero_regs_def\<close>)


definition merging_kernel :: "demo kernel" where
  "merging_kernel = demo_kernel\<lparr>ksceKernelSetThreadCpuRegisters := \<lambda>tid new m w.
     ((0, ()), w\<lparr>d_cpu := (d_cpu w)(tid := merge_regs m new (d_cpu w tid))\<rparr>)\<rparr>"


text \<open>
  A double register cannot be written on its own: a value of the size the target
  description announces for it panics the stub before the register is even looked at.
\<close>

theorem double_register_write_panics:
  "from_raw_id (17 + k mod 32) = Some (Dpr (k mod 32), Some 8) \<and>
   write_register K tid (Dpr (k mod 32)) (to_le 8 v) s = (panic, s)"
proof -
  have "k mod 32 < 32" by simp
  then show ?thesis by (simp add: from_raw_id_def write_register_def Let_def)
qed

text \<open>Two answers that do not tell what happened.\<close>

lemma hw_request_hides_refusal:
  "t_session (tgt s) = Some i \<Longrightarrow> on_session i op s = (Ok False, s') \<Longrightarrow> hw_request op s = (Ok True, s')"
  by (simp add: hw_request_def)

lemma write_registers_half_done:
  assumes "masked_writes cpu K" "wf_regs regs"
    and core: "ksceKernelSetThreadCpuRegisters K tid (cpu_regs_of regs) full_mask (wld s) = ((r, u), w)" "0 \<le> sint r"
    and "sint (fst (fst (ksceKernelSetVfpRegisterForDebugger K tid (ar_d regs) w))) < 0"
  shows "fst (write_registers K regs tid s) = Err NonFatal \<and> cpu w tid = cpu_regs_of regs"
proof -
  have "cpu w = (cpu (wld s))(tid := merge_regs full_mask (cpu_regs_of regs) (cpu (wld s) tid))"
    using assms(1) core unfolding masked_writes_def by (metis fst_conv snd_conv)
  moreover have "fst (write_registers K regs tid s) = Err NonFatal"
    using core assms(5) by (simp add: write_registers_def on_world_def sce_call_def split_beta)
  ultimately show ?thesis using assms(2) by (simp add: merge_full cpu_regs_of_def wf_regs_def)
qed

end
