(* ===== verification/Resume_Props.thy ===== *)
theory Resume_Props
  imports Thread_Props Next_Pc_Props
begin

text \<open>
  Resuming (\<open>gdb/multi_thread.rs\<close>): what planning a step does, and which threads run afterwards.
\<close>

section \<open>Planning a step\<close>

definition registers_quiet :: "('w \<Rightarrow> 'm) \<Rightarrow> 'w kernel \<Rightarrow> bool" where
  "registers_quiet mem K \<longleftrightarrow> (\<forall>tid. keeps_mem mem (ksceKernelGetThreadCpuRegisters K tid) \<and>
     keeps_mem mem (ksceKernelGetVfpRegisterForDebugger K tid))"

lemma read_registers_rest:
  assumes "registers_quiet mem K" "read_registers K regs0 tid s = ((r, regs), s')"
  shows "tgt s' = tgt s \<and> pool s' = pool s \<and> mem (wld s') = mem (wld s)"
  using assms
  by (auto simp: read_registers_def thread_regs_def read_vfp_def registers_quiet_def keeps_mem_def on_world_def
      sce_call_def Let_def split_beta split: prod.splits sum.splits if_splits)

lemma plan_step_effect:
  assumes plan: "plan_step A K pid tid s = (Ok (), s1)" and quiet: "registers_quiet mem K"
    and i: "t_session (tgt s) = Some i" "i < length (pool s)"
  shows "\<exists>w0 addr kind b ses. mem w0 = mem (wld s) \<and> kind \<noteq> Thumb32 \<and>
    set_sw_breakpoint K addr kind (pool s ! i) w0 = (b, ses, wld s1) \<and>
    pool s1 = (pool s)[i := set_step tid addr ses] \<and>
    tgt s1 = (tgt s)\<lparr>t_step_action := None\<rparr> \<and> tid \<noteq> 0"
proof -
  let ?s = "s\<lparr>tgt := (tgt s)\<lparr>t_step_action := None\<rparr>\<rparr>"
  obtain r regs s2 where read: "read_registers K default_regs tid ?s = ((r, regs), s2)" by (metis prod.exhaust)
  note rest = read_registers_rest [OF quiet read]
  obtain u where r: "r = Inr u"
    using plan read by (cases r rule: sum.exhaust) (auto simp: plan_step_def Let_def split: if_splits fault.splits)
  obtain addr to_thumb where np: "next_pc A (arm_reg_context (pipeline_pc regs)) (vita_read K pid (wld s2)) = Inr (addr, to_thumb)"
    using plan read r
    by (cases "next_pc A (arm_reg_context (pipeline_pc regs)) (vita_read K pid (wld s2))" rule: sum.exhaust)
      (auto simp: plan_step_def Let_def split: if_splits fault.splits)
  let ?kind = "if to_thumb then Thumb16 else Arm32"
  obtain b ses w1 where set: "set_sw_breakpoint K addr ?kind (pool s ! i) (wld s2) = (b, ses, w1)" by (metis prod.exhaust)
  have "tid \<noteq> 0" "s1 = s2\<lparr>pool := (pool s)[i := set_step tid addr ses], wld := w1\<rparr>"
    using plan read r np rest set i
    by (auto simp: plan_step_def Let_def on_session_def split: if_splits)
  with rest set i show ?thesis
    by (intro exI [of _ "wld s2"] exI [of _ addr] exI [of _ ?kind] exI [of _ b] exI [of _ ses]) simp
qed

section \<open>Which threads run\<close>

text \<open>
  What resuming relies on: \<open>st\<close> is the suspend status of the threads; the call that changes it
  changes that of the named thread only, and nothing else resuming calls does.
\<close>

definition thread_laws :: "('w \<Rightarrow> sce_uid \<Rightarrow> i32) \<Rightarrow> 'w kernel \<Rightarrow> bool" where
  "thread_laws st K \<longleftrightarrow>
     (\<forall>tid x w. st (snd (ksceKernelChangeThreadSuspendStatus K tid x w)) = (st w)(tid := x)) \<and>
     registers_quiet st K \<and> (\<forall>p a n. keeps_mem st (ksceKernelCopyFromUserProc K p a n)) \<and>
     (\<forall>p a bs. keeps_mem st (write_user_text K p a bs)) \<and> (\<forall>p. keeps_mem st (ksceKernelGetProcessStatus K p)) \<and>
     (\<forall>p n. keeps_mem st (ksceKernelGetThreadIdList K p n)) \<and> (\<forall>p. keeps_mem st (ksceKernelResumeProcess K p))"

lemma set_sw_keeps:
  assumes "thread_laws st K" shows "st (snd (snd (set_sw_breakpoint K a k s w))) = st w"
proof -
  have "st (snd (write_user_text K p a bs v)) = st v" "st (snd (ksceKernelCopyFromUserProc K p a n v)) = st v" for p a bs v n
    using assms by (simp_all add: thread_laws_def keeps_mem_def)
  then show ?thesis
    by (auto simp: set_sw_breakpoint_def Let_def sce_call_def split_beta split: option.splits sum.splits if_splits)
qed

lemma plan_step_keeps:
  assumes "thread_laws st K" "plan_step A K pid tid s = (Ok (), s1)"
  shows "st (wld s1) = st (wld s) \<and> tgt s1 = (tgt s)\<lparr>t_step_action := None\<rparr>"
proof -
  let ?s = "s\<lparr>tgt := (tgt s)\<lparr>t_step_action := None\<rparr>\<rparr>"
  obtain r regs s2 where read: "read_registers K default_regs tid ?s = ((r, regs), s2)" by (metis prod.exhaust)
  have rest: "tgt s2 = tgt ?s" "st (wld s2) = st (wld s)"
    using read_registers_rest [OF _ read, of st] assms(1) by (simp_all add: thread_laws_def)
  show ?thesis
    using assms(2) read rest set_sw_keeps [OF assms(1)]
    by (auto simp: plan_step_def Let_def on_session_def split_beta split: if_splits sum.splits fault.splits option.splits)
qed

text \<open>The threads that are to run: all, or with the scheduler locked the stepped and continued ones.\<close>

definition to_run :: "vita_target \<Rightarrow> sce_uid \<Rightarrow> bool" where
  "to_run t tid \<longleftrightarrow> \<not> t_scheduler_lock t \<or> t_step_action t = Some tid \<or> tid \<in> set (t_continue_actions t)"

lemma resume_thread_status:
  assumes "thread_laws st K" "resume_thread A K pid tid s = (Ok (), s1)"
  shows "st (wld s1) = (st (wld s))(tid := if to_run (tgt s) tid then STATUS_RUNNING else STATUS_SUSPEND) \<and>
    tgt s1 = (tgt s)\<lparr>t_step_action := (if t_step_action (tgt s) = Some tid then None else t_step_action (tgt s))\<rparr>"
proof -
  have change: "st (snd (sce_call n (ksceKernelChangeThreadSuspendStatus K t x) w)) = (st w)(t := x)" for n t x w
    using assms(1) by (simp add: thread_laws_def sce_call_def split_beta)
  show ?thesis
  proof (cases "t_step_action (tgt s) = Some tid")
    case True
    then obtain s2 where s2: "plan_step A K pid tid s = (Ok (), s2)"
      using assms(2) by (auto simp: resume_thread_def seq_def split: prod.splits sum.splits)
    with True assms(2) change plan_step_keeps [OF assms(1) s2] show ?thesis
      by (auto simp: resume_thread_def seq_def run_def ret_def to_run_def Let_def split_beta)
  next
    case False
    with assms(2) change show ?thesis
      by (cases "tgt s") (auto simp: resume_thread_def seq_def run_def ret_def to_run_def Let_def split_beta)
  qed
qed

lemma resume_loop_status:
  assumes "thread_laws st K" "distinct tids" "resume_loop A K pid tids s = (Ok (), s1)"
  shows "(\<forall>tid. st (wld s1) tid = (if tid \<notin> set tids then st (wld s) tid
      else if to_run (tgt s) tid then STATUS_RUNNING else STATUS_SUSPEND)) \<and>
    t_step_action (tgt s1) = (if \<exists>tid \<in> set tids. t_step_action (tgt s) = Some tid then None else t_step_action (tgt s))"
  using assms(2,3)
proof (induction tids arbitrary: s)
  case Nil
  then show ?case by (simp add: ret_def)
next
  case (Cons tid tids)
  then obtain s2 where s2: "resume_thread A K pid tid s = (Ok (), s2)" "resume_loop A K pid tids s2 = (Ok (), s1)"
    by (auto simp: seq_def split: prod.splits sum.splits)
  note one = resume_thread_status [OF assms(1) s2(1)]
  have same: "to_run (tgt s2) x = to_run (tgt s) x" if "x \<in> set tids" for x
    using one that Cons.prems(1) by (auto simp: to_run_def split: if_splits)
  have one': "st (wld s2) = (st (wld s))(tid := if to_run (tgt s) tid then STATUS_RUNNING else STATUS_SUSPEND)"
      "t_step_action (tgt s2) = (if t_step_action (tgt s) = Some tid then None else t_step_action (tgt s))"
    using one by simp_all
  show ?case
    using Cons.IH [OF _ s2(2)] Cons.prems(1) by (auto simp: one' same)
qed

lemma thread_queries:
  assumes "thread_laws st K"
  shows "keeps_mem st (get_process_status K pid)" "keeps_mem st (get_thread_ids K pid)"
proof -
  have "keeps_mem st (ksceKernelGetProcessStatus K pid)" "keeps_mem st (ksceKernelGetThreadIdList K pid 64)"
    using assms by (simp_all add: thread_laws_def)
  then show "keeps_mem st (get_process_status K pid)" "keeps_mem st (get_thread_ids K pid)"
    unfolding get_process_status_def get_thread_ids_def
    by (auto intro!: keeps_seq keeps_sce_call keeps_case_prod keeps_final)
qed


text \<open>Threads 7 and 8 of a halted process; the scheduler is locked and 8 is to continue.\<close>

definition obedient_kernel :: "demo kernel" where
  "obedient_kernel = sound_kernel\<lparr>
     ksceKernelChangeThreadSuspendStatus := \<lambda>tid x w. ((0, ()), w\<lparr>d_threads := (d_threads w)(tid := x)\<rparr>),
     ksceKernelResumeProcess := \<lambda>_ w. ((0, ()), w),
     ksceKernelGetThreadIdList := \<lambda>_ _ w. ((0, [7, 8], 2), w)\<rparr>"

definition halted_sys :: "demo sys" where
  "halted_sys = demo_sys\<lparr>tgt := (tgt demo_sys)\<lparr>t_scheduler_lock := True, t_continue_actions := [8]\<rparr>,
     wld := demo_world\<lparr>d_suspending := True, d_suspend_at := 0\<rparr>\<rparr>"

definition step_isa :: "(u8, unit) isa" where
  "step_isa = demo_isa (demo_insn OpMOV (Reg 0, Reg 1, Nothing, Nothing) False)"


end
