(* ===== verification/Net.thy ===== *)
theory Net
  imports Kernel
begin

text \<open>
  \<open>vita-gdb/src/kernel/tcp_socket.rs\<close> and \<open>thread.rs\<close>: sockets and threads over the network and
  thread calls of the kernel, a second record of parameters (\<open>'w net\<close>). A socket is its
  descriptor; a closed one is -1. A thread is started with its entry and argument: the crate
  starts three kinds, listed in \<open>thread_arg\<close>. The trampolines run the entry and end the
  thread; they show as the entry point a thread was created with.
\<close>

section \<open>The calls\<close>

datatype thread_arg =
    GdbMain \<comment> \<open>\<open>main_thread\<close>, no argument\<close>
  | GdbWorker i32 \<comment> \<open>\<open>gdb_thread\<close>, its socket\<close>
  | NetRx i32 sce_uid nat \<comment> \<open>\<open>net_rx_thread\<close>: descriptor, event flag, connection slot\<close>

datatype trampoline = Trampoline | TrampolineDelete

record sockaddr_in =
  sin_addr :: u32
  sin_family :: u32
  sin_len :: nat
  sin_port :: u16
  sin_vport :: u16
  sin_zero :: "u8 list"

record 'w net =
  AF_INET :: u32
  SOCK_STREAM :: u32
  IPPROTO_TCP :: u32
  TCP_NODELAY :: u32
  sizeof_sockaddr_in :: nat
  CPU_AFFINITY_MASK_DEFAULT :: u32
  ksceNetSocket :: "string \<Rightarrow> u32 \<Rightarrow> u32 \<Rightarrow> u32 \<Rightarrow> ('w, unit) syscall"
  ksceNetBind :: "i32 \<Rightarrow> sockaddr_in \<Rightarrow> nat \<Rightarrow> ('w, unit) syscall"
  ksceNetListen :: "i32 \<Rightarrow> nat \<Rightarrow> ('w, unit) syscall"
  ksceNetAccept :: "i32 \<Rightarrow> ('w, unit) syscall"
  ksceNetSetsockopt :: "i32 \<Rightarrow> u32 \<Rightarrow> u32 \<Rightarrow> i32 \<Rightarrow> ('w, unit) syscall"
  ksceNetSendto :: "i32 \<Rightarrow> u8 list \<Rightarrow> ('w, unit) syscall"
  ksceNetRecvfrom :: "i32 \<Rightarrow> nat \<Rightarrow> ('w, u8 list) syscall"
  ksceNetClose :: "i32 \<Rightarrow> ('w, unit) syscall"
  ksceKernelCreateThread :: "string \<Rightarrow> trampoline \<Rightarrow> u32 \<Rightarrow> nat \<Rightarrow> u32 \<Rightarrow> ('w, unit) syscall"
  ksceKernelStartThread :: "sce_uid \<Rightarrow> thread_arg \<Rightarrow> ('w, unit) syscall"
  ksceKernelWaitThreadEnd :: "sce_uid \<Rightarrow> ('w, i32) syscall"
  ksceKernelDeleteThread :: "sce_uid \<Rightarrow> ('w, unit) syscall"

section \<open>Sockets\<close>

definition socket_send :: "'w net \<Rightarrow> i32 \<Rightarrow> u8 list \<Rightarrow> ('w, nat) sce_act" where
  "socket_send N sock bs =
     seq (sce_call ''ksceNetSendto'' (ksceNetSendto N sock bs)) (\<lambda>(n, _). ret (unat n))"

text \<open>Closing, also what \<open>Drop\<close> does: the descriptor left.\<close>

definition socket_close :: "'w net \<Rightarrow> i32 \<Rightarrow> 'w \<Rightarrow> i32 \<times> 'w" where
  "socket_close N sock w = (if 0 \<le> sint sock then (- 1, snd (ksceNetClose N sock w)) else (sock, w))"

definition listener_close :: "'w net \<Rightarrow> i32 \<Rightarrow> 'w \<Rightarrow> i32 \<times> 'w" where
  "listener_close N sock w = (if 0 \<le> sint sock then (- 1, snd (ksceNetClose N sock w)) else (sock, w))"

definition to_be16 :: "u16 \<Rightarrow> u16" where
  "to_be16 p = push_bit 8 p OR drop_bit 8 p"

definition listen_addr :: "'w net \<Rightarrow> u16 \<Rightarrow> sockaddr_in" where
  "listen_addr N port = \<lparr>sin_addr = 0, sin_family = AF_INET N, sin_len = sizeof_sockaddr_in N,
     sin_port = to_be16 port, sin_vport = 0, sin_zero = [0, 0, 0, 0, 0, 0]\<rparr>"

definition listener_listen :: "'w net \<Rightarrow> u16 \<Rightarrow> string \<Rightarrow> ('w, i32) sce_act" where
  "listener_listen N port name =
     seq (sce_call ''ksceNetSocket'' (ksceNetSocket N name (AF_INET N) (SOCK_STREAM N) (IPPROTO_TCP N))) (\<lambda>(socket, _).
     seq (sce_call ''ksceNetBind'' (ksceNetBind N socket (listen_addr N port) (sizeof_sockaddr_in N))) (\<lambda>_.
     seq (sce_call ''ksceNetListen'' (ksceNetListen N socket 128)) (\<lambda>_. ret socket)))"

definition listener_accept :: "'w net \<Rightarrow> i32 \<Rightarrow> ('w, i32) sce_act" where
  "listener_accept N listener =
     seq (sce_call ''ksceNetAccept'' (ksceNetAccept N listener)) (\<lambda>(socket, _).
     seq (sce_call ''ksceNetSetsockopt'' (ksceNetSetsockopt N socket (IPPROTO_TCP N) (TCP_NODELAY N) 1)) (\<lambda>_.
     ret socket))"

section \<open>Threads\<close>

text \<open>What dropping an argument does: only the worker's owns something, its socket.\<close>

definition drop_arg :: "'w net \<Rightarrow> thread_arg \<Rightarrow> 'w \<Rightarrow> 'w" where
  "drop_arg N arg w = (case arg of GdbWorker sock \<Rightarrow> snd (socket_close N sock w) | _ \<Rightarrow> w)"

definition create_thread :: "'w net \<Rightarrow> string \<Rightarrow> trampoline \<Rightarrow> u32 \<Rightarrow> nat \<Rightarrow> ('w, sce_uid) sce_act" where
  "create_thread N name entry priority stack =
     seq (sce_call ''ksceKernelCreateThread''
         (ksceKernelCreateThread N name entry priority stack (CPU_AFFINITY_MASK_DEFAULT N)))
       (\<lambda>(thid, _). ret thid)"

text \<open>A thread that starts takes its argument over; otherwise it is dropped here.\<close>

definition start_thread :: "'w net \<Rightarrow> sce_uid \<Rightarrow> thread_arg \<Rightarrow> ('w, unit) sce_act" where
  "start_thread N thid arg w =
     (case sce_call ''ksceKernelStartThread'' (ksceKernelStartThread N thid arg) w of
        (Inl e, w) \<Rightarrow> (Inl e, drop_arg N arg w)
      | (Inr _, w) \<Rightarrow> (Ok (), w))"

definition joinable_create where
  "joinable_create N name priority stack = create_thread N name Trampoline priority stack"

definition joinable_join :: "'w net \<Rightarrow> sce_uid \<Rightarrow> ('w, i32) sce_act" where
  "joinable_join N thid =
     seq (sce_call ''ksceKernelWaitThreadEnd'' (ksceKernelWaitThreadEnd N thid)) (\<lambda>(_, status).
     seq (sce_call ''ksceKernelDeleteThread'' (ksceKernelDeleteThread N thid)) (\<lambda>_. ret status))"

definition detached_create where
  "detached_create N name priority stack = create_thread N name TrampolineDelete priority stack"

definition detached_start :: "'w net \<Rightarrow> sce_uid \<Rightarrow> thread_arg \<Rightarrow> ('w, unit) sce_act" where
  "detached_start N thid arg w = (case start_thread N thid arg w of
     (Inl e, w) \<Rightarrow> (Inl e, snd (ksceKernelDeleteThread N thid w))
   | (Inr x, w) \<Rightarrow> (Inr x, w))"

section \<open>The server (\<open>gdb/main.rs\<close>)\<close>

definition GDB_PORT :: u16 where "GDB_PORT = 31337"

definition start_gdb :: "'w net \<Rightarrow> ('w, unit) sce_act" where
  "start_gdb N = seq (detached_create N ''gdb_main'' 0x40 0x4000) (\<lambda>thid. detached_start N thid GdbMain)"

text \<open>If no thread can be created the socket, an argument of the function, is dropped.\<close>

definition handle_connection :: "'w net \<Rightarrow> i32 \<Rightarrow> ('w, unit) sce_act" where
  "handle_connection N sock w = (case detached_create N ''gdb_worker'' 0x40 0x4000 w of
     (Inl e, w) \<Rightarrow> (Inl e, snd (socket_close N sock w))
   | (Inr thid, w) \<Rightarrow> detached_start N thid (GdbWorker sock) w)"

text \<open>
  \<open>main_thread\<close> never returns. One pass of its loops: without a listener it waits a second
  and listens again; with one it accepts a connection, or drops the listener on an error.
\<close>

definition main_step :: "'w kernel \<Rightarrow> 'w net \<Rightarrow> i32 option \<Rightarrow> 'w \<Rightarrow> i32 option \<times> 'w" where
  "main_step K N listener w = (case listener of
     None \<Rightarrow> (case listener_listen N GDB_PORT ''gdb'' (ksceKernelDelayThread K 1000000 w) of
         (Inl _, w) \<Rightarrow> (None, w)
       | (Inr l, w) \<Rightarrow> (Some l, w))
   | Some l \<Rightarrow> (case listener_accept N l w of
         (Inl _, w) \<Rightarrow> (None, snd (listener_close N l w))
       | (Inr sock, w) \<Rightarrow> (Some l, snd (handle_connection N sock w))))"

fun main_thread :: "'w kernel \<Rightarrow> 'w net \<Rightarrow> nat \<Rightarrow> i32 option \<Rightarrow> 'w \<Rightarrow> i32 option \<times> 'w" where
  "main_thread K N 0 listener w = (listener, w)"
| "main_thread K N (Suc n) listener w =
     (case main_step K N listener w of (listener, w) \<Rightarrow> main_thread K N n listener w)"

end
