(* ===== verification/Tcp_Conn.thy ===== *)
theory Tcp_Conn
  imports Net Sessions
begin

text \<open>
  \<open>vita-gdb/src/gdb/tcpconn.rs\<close>, one call at a time: the pool of four connection states the
  receiving thread and the worker share, reading a byte, and the buffered writer. The
  interleaving of the two threads is in Tcp_Rx.
\<close>

section \<open>Connection states\<close>

definition MAX_CONNS :: nat where "MAX_CONNS = 4"
definition BUFFER_SIZE :: nat where "BUFFER_SIZE = 0x40"

record conn_state =
  c_claimed :: bool
  c_buf :: "u8 list"
  c_len :: nat
  c_closed :: bool
  c_err :: "sce_error option"

definition conn_state_new :: conn_state where
  "conn_state_new = \<lparr>c_claimed = False, c_buf = replicate BUFFER_SIZE 0, c_len = 0,
     c_closed = False, c_err = None\<rparr>"

definition conn_reset :: "conn_state \<Rightarrow> conn_state" where
  "conn_reset c = c\<lparr>c_len := 0, c_closed := False, c_err := None\<rparr>"

definition conn_pool_new :: "conn_state list" where
  "conn_pool_new = replicate MAX_CONNS conn_state_new"

definition acquire_state :: "conn_state list \<Rightarrow> nat option \<times> conn_state list" where
  "acquire_state cs = (case position (\<lambda>c. \<not> c_claimed c) cs of
     None \<Rightarrow> (None, cs)
   | Some i \<Rightarrow> (Some i, cs[i := conn_reset ((cs ! i)\<lparr>c_claimed := True\<rparr>)]))"

definition release_state :: "nat \<Rightarrow> conn_state list \<Rightarrow> conn_state list" where
  "release_state i cs = cs[i := (cs ! i)\<lparr>c_claimed := False\<rparr>]"

section \<open>A connection\<close>

datatype read_result = Byte u8 | Closed | ReadErr sce_error | NoData

record tcp_conn =
  tc_socket :: i32
  tc_evflag :: sce_uid
  tc_thread :: "sce_uid option"
  tc_state :: nat
  tc_read_len :: nat
  tc_write_buffer :: "u8 list"
  tc_write_len :: nat

text \<open>On every error the socket, an argument of the function, is dropped.\<close>

definition tcp_conn_new ::
  "'w net \<Rightarrow> i32 \<Rightarrow> sce_uid \<Rightarrow> conn_state list \<Rightarrow> 'w \<Rightarrow> (sce_error, tcp_conn) res \<times> conn_state list \<times> 'w" where
  "tcp_conn_new N sock evflag cs w = (case acquire_state cs of
     (None, cs) \<Rightarrow> (Err (SceError (- 1) ''acquire_state''), cs, snd (socket_close N sock w))
   | (Some i, cs) \<Rightarrow> (case joinable_create N ''net_rx'' 0x40 0x1000 w of
       (Inl e, w) \<Rightarrow> (Inl e, cs, snd (socket_close N sock w))
     | (Inr thid, w) \<Rightarrow> (case start_thread N thid (NetRx sock evflag i) w of
         (Inl e, w) \<Rightarrow> (Inl e, cs, snd (socket_close N sock w))
       | (Inr _, w) \<Rightarrow> (Ok \<lparr>tc_socket = sock, tc_evflag = evflag, tc_thread = Some thid, tc_state = i,
             tc_read_len = 0, tc_write_buffer = replicate BUFFER_SIZE 0, tc_write_len = 0\<rparr>, cs, w))))"

definition tcp_read ::
  "'w kernel \<Rightarrow> tcp_conn \<Rightarrow> conn_state \<Rightarrow> 'w \<Rightarrow> (sce_error, read_result) res \<times> tcp_conn \<times> conn_state \<times> 'w" where
  "tcp_read K tc c w =
     (if c_closed c then (Ok (case c_err c of Some err \<Rightarrow> ReadErr err | None \<Rightarrow> Closed), tc, c, w)
      else if c_len c = 0 then (Ok NoData, tc, c, w)
      else (case index (c_buf c) (tc_read_len tc) of
          Inl e \<Rightarrow> (Inl e, tc, c, w)
        | Inr byte \<Rightarrow>
           (if tc_read_len tc + 1 = c_len c
            then (Ok (Byte byte), tc\<lparr>tc_read_len := 0\<rparr>, c\<lparr>c_len := 0\<rparr>,
              snd (evf_set K (tc_evflag tc) EV_WAKE_READER w))
            else (Ok (Byte byte), tc\<lparr>tc_read_len := tc_read_len tc + 1\<rparr>, c, w))))"

section \<open>Writing\<close>

text \<open>\<open>copy_within(n..len, 0)\<close>.\<close>

definition copy_down :: "nat \<Rightarrow> nat \<Rightarrow> 'a list \<Rightarrow> 'a list" where
  "copy_down n l xs = drop n (take l xs) @ drop (l - n) xs"

text \<open>\<open>None\<close>: the loop does not end (it repeats a send that takes nothing).\<close>

partial_function (option) flush_write_buffer ::
  "'w net \<Rightarrow> tcp_conn \<Rightarrow> 'w \<Rightarrow> ((sce_error, unit) res \<times> tcp_conn \<times> 'w) option" where
  "flush_write_buffer N tc w =
     (if tc_write_len tc > 0
      then (case socket_send N (tc_socket tc) (take (tc_write_len tc) (tc_write_buffer tc)) w of
          (Inl e, w) \<Rightarrow> Some (Inl e, tc, w)
        | (Inr n, w) \<Rightarrow>
           flush_write_buffer N
             (if n < tc_write_len tc
              then tc\<lparr>tc_write_buffer := copy_down n (tc_write_len tc) (tc_write_buffer tc),
                      tc_write_len := tc_write_len tc - n\<rparr>
              else tc\<lparr>tc_write_len := 0\<rparr>) w)
      else Some (Ok (), tc, w))"

definition flush_if_full ::
  "'w net \<Rightarrow> tcp_conn \<Rightarrow> 'w \<Rightarrow> ((sce_error, unit) res \<times> tcp_conn \<times> 'w) option" where
  "flush_if_full N tc w =
     (if tc_write_len tc = length (tc_write_buffer tc) then flush_write_buffer N tc w
      else Some (Ok (), tc, w))"

definition conn_write ::
  "'w net \<Rightarrow> u8 \<Rightarrow> tcp_conn \<Rightarrow> 'w \<Rightarrow> ((sce_error, unit) res \<times> tcp_conn \<times> 'w) option" where
  "conn_write N byte tc w = Option.bind (flush_if_full N tc w) (\<lambda>(r, tc, w). case r of
     Inl e \<Rightarrow> Some (Inl e, tc, w)
   | Inr _ \<Rightarrow>
      (if tc_write_len tc < length (tc_write_buffer tc)
       then flush_if_full N (tc\<lparr>tc_write_buffer := (tc_write_buffer tc)[tc_write_len tc := byte],
              tc_write_len := tc_write_len tc + 1\<rparr>) w
       else Some (panic, tc, w)))"

definition conn_flush where
  "conn_flush N tc w = flush_write_buffer N tc w"

section \<open>Closing\<close>

text \<open>
  \<open>close\<close>, also the \<open>Drop\<close> of a connection: the receiving thread is told and joined before the
  state is given back. What that thread still does to the state until it ends is its own.
\<close>

definition tcp_close ::
  "'w kernel \<Rightarrow> 'w net \<Rightarrow> (conn_state \<Rightarrow> conn_state) \<Rightarrow> tcp_conn \<Rightarrow> conn_state list \<Rightarrow> 'w \<Rightarrow> tcp_conn \<times> conn_state list \<times> 'w" where
  "tcp_close K N rest tc cs w =
     (let i = tc_state tc;
          cs1 = cs[i := (cs ! i)\<lparr>c_closed := True\<rparr>];
          (sock, w1) = socket_close N (tc_socket tc) w;
          w2 = snd (evf_set K (tc_evflag tc) EV_WAKE_READER w1);
          (cs3, w3) = (case tc_thread tc of
              None \<Rightarrow> (cs1, w2)
            | Some thid \<Rightarrow> (cs1[i := rest (cs1 ! i)], snd (joinable_join N thid w2)))
      in (tc\<lparr>tc_socket := sock, tc_thread := None\<rparr>, release_state i cs3, w3))"

end
