(* ===== verification/Tcp_Rx.thy ===== *)
theory Tcp_Rx
  imports Tcp_Conn
begin

text \<open>
  The two threads of a connection of \<open>gdb/tcpconn.rs\<close> interleaved: \<open>net_rx_thread\<close>, which
  receives into the shared buffer, and the worker, which reads it one byte at a time, waits when
  there is nothing and finally closes. Each rule is one access to shared memory or one system
  call of the source with the branch that follows it. The two event-flag bits are booleans; the
  rest of the stub may raise the worker's bit at any time, and the worker itself clears it
  between reads (when a session is reset). While \<open>ksceNetRecvfrom\<close> runs, the kernel may write
  anything into the buffer.

  \<open>received\<close> and \<open>answered\<close> are history: the bytes received and the bytes read.
\<close>

datatype rx_pc =
    RxTop \<comment> \<open>head of the loop\<close>
  | RxLen \<comment> \<open>not closed\<close>
  | RxBlocked \<comment> \<open>length not 0: waiting for the reader\<close>
  | RxRecv \<comment> \<open>inside \<open>ksceNetRecvfrom\<close>\<close>
  | RxData nat \<comment> \<open>received, length not yet stored\<close>
  | RxWake \<comment> \<open>length stored\<close>
  | RxFail sce_error \<comment> \<open>received an error, not yet stored\<close>
  | RxEof \<comment> \<open>received nothing, not yet marked closed\<close>
  | RxEnding \<comment> \<open>about to raise the flag and return\<close>
  | RxDone

datatype worker_pc =
    WkTop \<comment> \<open>about to read\<close>
  | WkClosed \<comment> \<open>saw the closed mark\<close>
  | WkLen \<comment> \<open>saw no closed mark\<close>
  | WkByte nat \<comment> \<open>saw a length\<close>
  | WkLast u8 \<comment> \<open>took the last byte\<close>
  | WkSignal u8 \<comment> \<open>stored length 0\<close>
  | WkGot read_result \<comment> \<open>\<open>read\<close> returned\<close>
  | WkWait \<comment> \<open>waiting for any event\<close>
  | WkClosing \<comment> \<open>stored the closed mark, socket closed\<close>
  | WkJoin \<comment> \<open>raised the reader's flag, joining\<close>

record conn_world =
  shared :: conn_state
  rx :: rx_pc
  worker :: worker_pc
  read_len :: nat
  ev_reader :: bool
  ev_worker :: bool
  received :: "u8 list"
  answered :: "u8 list"

definition conn_start :: "conn_state \<Rightarrow> conn_world" where
  "conn_start c = \<lparr>shared = conn_reset c, rx = RxTop, worker = WkTop, read_len = 0,
     ev_reader = False, ev_worker = False, received = [], answered = []\<rparr>"

inductive rx_step :: "conn_world \<Rightarrow> conn_world \<Rightarrow> bool" where
  rx_closed: "rx w = RxTop \<Longrightarrow> c_closed (shared w) \<Longrightarrow> rx_step w (w\<lparr>rx := RxDone\<rparr>)"
| rx_open: "rx w = RxTop \<Longrightarrow> \<not> c_closed (shared w) \<Longrightarrow> rx_step w (w\<lparr>rx := RxLen\<rparr>)"
| rx_full: "rx w = RxLen \<Longrightarrow> c_len (shared w) \<noteq> 0 \<Longrightarrow> rx_step w (w\<lparr>rx := RxBlocked\<rparr>)"
| rx_empty: "rx w = RxLen \<Longrightarrow> c_len (shared w) = 0 \<Longrightarrow> rx_step w (w\<lparr>rx := RxRecv\<rparr>)"
| rx_woken: "rx w = RxBlocked \<Longrightarrow> ev_reader w \<Longrightarrow> rx_step w (w\<lparr>rx := RxTop, ev_reader := False\<rparr>)"
| rx_data: "rx w = RxRecv \<Longrightarrow> bs \<noteq> [] \<Longrightarrow> length bs \<le> length (c_buf (shared w)) \<Longrightarrow>
    rx_step w (w\<lparr>rx := RxData (length bs),
      shared := (shared w)\<lparr>c_buf := fill_prefix (c_buf (shared w)) bs\<rparr>, received := received w @ bs\<rparr>)"
| rx_error: "rx w = RxRecv \<Longrightarrow> rx_step w (w\<lparr>rx := RxFail e\<rparr>)"
| rx_eof: "rx w = RxRecv \<Longrightarrow> rx_step w (w\<lparr>rx := RxEof\<rparr>)"
| rx_store: "rx w = RxData n \<Longrightarrow> rx_step w (w\<lparr>rx := RxWake, shared := (shared w)\<lparr>c_len := n\<rparr>\<rparr>)"
| rx_wake: "rx w = RxWake \<Longrightarrow> rx_step w (w\<lparr>rx := RxTop, ev_worker := True\<rparr>)"
| rx_store_err: "rx w = RxFail e \<Longrightarrow>
    rx_step w (w\<lparr>rx := RxEnding, shared := (shared w)\<lparr>c_err := Some e\<rparr>\<rparr>)"
| rx_store_eof: "rx w = RxEof \<Longrightarrow>
    rx_step w (w\<lparr>rx := RxEnding, shared := (shared w)\<lparr>c_closed := True\<rparr>\<rparr>)"
| rx_end: "rx w = RxEnding \<Longrightarrow> rx_step w (w\<lparr>rx := RxDone, ev_worker := True\<rparr>)"

inductive worker_step :: "conn_world \<Rightarrow> conn_world \<Rightarrow> bool" where
  wk_closed: "worker w = WkTop \<Longrightarrow> c_closed (shared w) \<Longrightarrow> worker_step w (w\<lparr>worker := WkClosed\<rparr>)"
| wk_err: "worker w = WkClosed \<Longrightarrow> c_err (shared w) = Some e \<Longrightarrow>
    worker_step w (w\<lparr>worker := WkGot (ReadErr e)\<rparr>)"
| wk_eof: "worker w = WkClosed \<Longrightarrow> c_err (shared w) = None \<Longrightarrow>
    worker_step w (w\<lparr>worker := WkGot Closed\<rparr>)"
| wk_open: "worker w = WkTop \<Longrightarrow> \<not> c_closed (shared w) \<Longrightarrow> worker_step w (w\<lparr>worker := WkLen\<rparr>)"
| wk_none: "worker w = WkLen \<Longrightarrow> c_len (shared w) = 0 \<Longrightarrow>
    worker_step w (w\<lparr>worker := WkGot NoData\<rparr>)"
| wk_some: "worker w = WkLen \<Longrightarrow> c_len (shared w) \<noteq> 0 \<Longrightarrow>
    worker_step w (w\<lparr>worker := WkByte (c_len (shared w))\<rparr>)"
| wk_byte: "worker w = WkByte l \<Longrightarrow> b = c_buf (shared w) ! read_len w \<Longrightarrow> read_len w + 1 \<noteq> l \<Longrightarrow>
    worker_step w (w\<lparr>worker := WkGot (Byte b), read_len := read_len w + 1, answered := answered w @ [b]\<rparr>)"
| wk_last: "worker w = WkByte l \<Longrightarrow> b = c_buf (shared w) ! read_len w \<Longrightarrow> read_len w + 1 = l \<Longrightarrow>
    worker_step w (w\<lparr>worker := WkLast b, read_len := 0, answered := answered w @ [b]\<rparr>)"
| wk_drained: "worker w = WkLast b \<Longrightarrow>
    worker_step w (w\<lparr>worker := WkSignal b, shared := (shared w)\<lparr>c_len := 0\<rparr>\<rparr>)"
| wk_signal: "worker w = WkSignal b \<Longrightarrow>
    worker_step w (w\<lparr>worker := WkGot (Byte b), ev_reader := True\<rparr>)"
| wk_again: "worker w = WkGot r \<Longrightarrow> r \<noteq> NoData \<Longrightarrow> worker_step w (w\<lparr>worker := WkTop\<rparr>)"
| wk_wait: "worker w = WkGot NoData \<Longrightarrow> worker_step w (w\<lparr>worker := WkWait\<rparr>)"
| wk_woken: "worker w = WkWait \<Longrightarrow> ev_worker w \<Longrightarrow>
    worker_step w (w\<lparr>worker := WkTop, ev_worker := False\<rparr>)"
| wk_close: "worker w = WkTop \<Longrightarrow>
    worker_step w (w\<lparr>worker := WkClosing, shared := (shared w)\<lparr>c_closed := True\<rparr>\<rparr>)"
| wk_release: "worker w = WkClosing \<Longrightarrow> worker_step w (w\<lparr>worker := WkJoin, ev_reader := True\<rparr>)"

inductive other_step :: "conn_world \<Rightarrow> conn_world \<Rightarrow> bool" where
  event: "other_step w (w\<lparr>ev_worker := True\<rparr>)"
| reset_clears: "worker w = WkTop \<Longrightarrow> other_step w (w\<lparr>ev_worker := False\<rparr>)"
| recv_writes: "rx w = RxRecv \<Longrightarrow> length bs = length (c_buf (shared w)) \<Longrightarrow>
    other_step w (w\<lparr>shared := (shared w)\<lparr>c_buf := bs\<rparr>\<rparr>)"

inductive conn_reachable :: "conn_state \<Rightarrow> conn_world \<Rightarrow> bool" for c where
  conn_init: "conn_reachable c (conn_start c)"
| rx_runs: "conn_reachable c w \<Longrightarrow> rx_step w w' \<Longrightarrow> conn_reachable c w'"
| worker_runs: "conn_reachable c w \<Longrightarrow> worker_step w w' \<Longrightarrow> conn_reachable c w'"
| other_runs: "conn_reachable c w \<Longrightarrow> other_step w w' \<Longrightarrow> conn_reachable c w'"

inductive_cases rx_stepE: "rx_step w w'"
inductive_cases worker_stepE: "worker_step w w'"
inductive_cases other_stepE: "other_step w w'"

section \<open>The invariant\<close>

text \<open>Who may touch the buffer: the receiver only while the length is 0.\<close>

definition receiving :: "rx_pc \<Rightarrow> bool" where
  "receiving pc = (case pc of RxRecv \<Rightarrow> True | RxData _ \<Rightarrow> True | RxFail _ \<Rightarrow> True | RxEof \<Rightarrow> True
     | RxEnding \<Rightarrow> True | RxDone \<Rightarrow> True | _ \<Rightarrow> False)"

definition leaving :: "worker_pc \<Rightarrow> bool" where
  "leaving pc \<longleftrightarrow> pc = WkClosing \<or> pc = WkJoin"

text \<open>The bytes received and not yet read.\<close>

definition pending :: "conn_world \<Rightarrow> u8 list" where
  "pending w = (case worker w of WkLast _ \<Rightarrow> []
     | _ \<Rightarrow> (case rx w of RxData n \<Rightarrow> take n (c_buf (shared w))
          | _ \<Rightarrow> drop (read_len w) (take (c_len (shared w)) (c_buf (shared w)))))"

definition buffer_inv :: "conn_world \<Rightarrow> bool" where
  "buffer_inv w \<longleftrightarrow>
     c_len (shared w) \<le> length (c_buf (shared w)) \<and>
     (if c_len (shared w) = 0 then read_len w = 0 else read_len w < c_len (shared w)) \<and>
     (receiving (rx w) \<and> rx w \<noteq> RxDone \<longrightarrow> c_len (shared w) = 0) \<and>
     (\<forall>n. rx w = RxData n \<longrightarrow> 0 < n \<and> n \<le> length (c_buf (shared w))) \<and>
     (\<forall>l. worker w = WkByte l \<longrightarrow> l = c_len (shared w) \<and> l \<noteq> 0) \<and>
     (\<forall>b. worker w = WkLast b \<longrightarrow> c_len (shared w) \<noteq> 0 \<and> read_len w = 0) \<and>
     received w = answered w @ pending w"

definition closing_inv :: "conn_world \<Rightarrow> bool" where
  "closing_inv w \<longleftrightarrow>
     (leaving (worker w) \<longrightarrow> c_closed (shared w)) \<and>
     (c_closed (shared w) \<and> \<not> leaving (worker w) \<longrightarrow>
        (rx w = RxEnding \<or> rx w = RxDone) \<and> c_len (shared w) = 0 \<and> c_err (shared w) = None) \<and>
     (rx w = RxDone \<and> \<not> leaving (worker w) \<longrightarrow> c_len (shared w) = 0) \<and>
     (c_err (shared w) \<noteq> None \<longrightarrow> rx w = RxEnding \<or> rx w = RxDone) \<and>
     (worker w = WkClosed \<or> worker w = WkGot Closed \<longrightarrow> c_closed (shared w)) \<and>
     (\<forall>e. worker w \<noteq> WkGot (ReadErr e))"

definition wakeup_inv :: "conn_world \<Rightarrow> bool" where
  "wakeup_inv w \<longleftrightarrow>
     ((worker w = WkWait \<or> worker w = WkGot NoData) \<and> c_len (shared w) \<noteq> 0 \<longrightarrow> ev_worker w \<or> rx w = RxWake) \<and>
     ((worker w = WkWait \<or> worker w = WkGot NoData \<or> worker w = WkLen) \<and> c_closed (shared w) \<longrightarrow>
        ev_worker w \<or> rx w = RxEnding) \<and>
     (rx w = RxBlocked \<and> c_len (shared w) = 0 \<longrightarrow> ev_reader w \<or> (\<exists>b. worker w = WkSignal b)) \<and>
     (worker w = WkJoin \<and> rx w \<noteq> RxTop \<and> rx w \<noteq> RxDone \<longrightarrow> ev_reader w)"

lemmas conn_inv_defs = buffer_inv_def closing_inv_def wakeup_inv_def receiving_def leaving_def pending_def

definition conn_inv :: "conn_world \<Rightarrow> bool" where
  "conn_inv w \<longleftrightarrow> buffer_inv w \<and> closing_inv w \<and> wakeup_inv w"

lemma conn_inv_start: "conn_inv (conn_start c)"
  by (simp add: conn_inv_def conn_inv_defs conn_start_def conn_reset_def)

lemma fill_prefix_take: "length bs \<le> length xs \<Longrightarrow> take (length bs) (fill_prefix xs bs) = bs"
  by (simp add: fill_prefix_def)

lemma drop_next: "i < l \<Longrightarrow> l \<le> length xs \<Longrightarrow> drop i (take l xs) = xs ! i # drop (Suc i) (take l xs)"
  by (metis Cons_nth_drop_Suc length_take min.absorb2 nth_take)

lemma conn_inv_rx: "rx_step w w' \<Longrightarrow> conn_inv w \<Longrightarrow> conn_inv w'"
  by (erule rx_stepE)
    (auto simp: conn_inv_def conn_inv_defs fill_prefix_take split: worker_pc.splits rx_pc.splits if_splits)

lemma conn_inv_worker: "worker_step w w' \<Longrightarrow> conn_inv w \<Longrightarrow> conn_inv w'"
  by (erule worker_stepE)
    (auto simp: conn_inv_def conn_inv_defs drop_next split: worker_pc.splits rx_pc.splits if_splits)

lemma conn_inv_other: "other_step w w' \<Longrightarrow> conn_inv w \<Longrightarrow> conn_inv w'"
  by (erule other_stepE)
    (auto simp: conn_inv_def conn_inv_defs split: worker_pc.splits rx_pc.splits if_splits)

lemma conn_reachable_inv: "conn_reachable c w \<Longrightarrow> conn_inv w"
  by (induction rule: conn_reachable.induct)
    (auto intro: conn_inv_start conn_inv_rx conn_inv_worker conn_inv_other)


section \<open>What the invariant gives\<close>

lemma conn_delivery:
  assumes "conn_reachable c w"
  shows "received w = answered w @ pending w"
    and "worker w = WkGot Closed \<Longrightarrow> answered w = received w"
    and "rx w = RxRecv \<Longrightarrow> worker w \<noteq> WkByte l \<and> worker w \<noteq> WkLast b"
proof -
  have B: "buffer_inv w" and C: "closing_inv w"
    using conn_reachable_inv [OF assms] by (simp_all add: conn_inv_def)
  show all: "received w = answered w @ pending w" using B by (simp add: buffer_inv_def)
  show "answered w = received w" if "worker w = WkGot Closed"
  proof -
    have "c_closed (shared w)" "c_len (shared w) = 0" "rx w = RxEnding \<or> rx w = RxDone"
      using C that by (auto simp: closing_inv_def leaving_def)
    with that all show ?thesis by (auto simp: pending_def)
  qed
  show "worker w \<noteq> WkByte l \<and> worker w \<noteq> WkLast b" if "rx w = RxRecv"
    using B that by (auto simp: buffer_inv_def receiving_def)
qed

lemma conn_blocked_worker:
  assumes "conn_reachable c w" "worker w = WkWait" "\<not> ev_worker w"
  shows "c_closed (shared w) \<Longrightarrow> rx w = RxEnding"
    and "pending w \<noteq> [] \<Longrightarrow> rx w = RxWake \<or> (\<exists>n. rx w = RxData n)"
    and "rx w = RxBlocked \<Longrightarrow> ev_reader w"
proof -
  have W: "wakeup_inv w" using conn_reachable_inv [OF assms(1)] by (simp add: conn_inv_def)
  show "rx w = RxEnding" if "c_closed (shared w)"
    using W assms(2,3) that by (simp add: wakeup_inv_def)
  have woken: "rx w = RxWake" if "c_len (shared w) \<noteq> 0"
    using W assms(2,3) that by (simp add: wakeup_inv_def)
  show "rx w = RxWake \<or> (\<exists>n. rx w = RxData n)" if "pending w \<noteq> []"
    using woken that assms(2) by (cases "c_len (shared w) = 0") (auto simp: pending_def split: rx_pc.splits)
  show "ev_reader w" if "rx w = RxBlocked"
    using W woken that assms(2) by (cases "c_len (shared w) = 0") (auto simp: wakeup_inv_def)
qed

section \<open>The receiver after a close\<close>

definition rx_left :: "rx_pc \<Rightarrow> nat" where
  "rx_left pc = (case pc of RxDone \<Rightarrow> 0 | RxTop \<Rightarrow> 1 | RxEnding \<Rightarrow> 1 | RxWake \<Rightarrow> 2 | RxFail _ \<Rightarrow> 2 | RxEof \<Rightarrow> 2
     | RxBlocked \<Rightarrow> 2 | RxData _ \<Rightarrow> 3 | RxRecv \<Rightarrow> 4 | RxLen \<Rightarrow> 5)"

lemma rx_left_decreases:
  "rx_step w w' \<Longrightarrow> c_closed (shared w) \<Longrightarrow> c_closed (shared w') \<and> rx_left (rx w') < rx_left (rx w)"
  by (erule rx_stepE) (auto simp: rx_left_def)

lemma other_keeps_rx: "other_step\<^sup>*\<^sup>* w w' \<Longrightarrow>
    c_closed (shared w') = c_closed (shared w) \<and> rx w' = rx w \<and> (worker w = WkJoin \<longrightarrow> worker w' = WkJoin)"
  by (induction rule: rtranclp_induct) (auto elim!: other_stepE)

lemma rx_bounded:
  "((other_step\<^sup>*\<^sup>* OO rx_step) ^^ n) w w' \<Longrightarrow> c_closed (shared w) \<Longrightarrow>
     c_closed (shared w') \<and> n + rx_left (rx w') \<le> rx_left (rx w)"
proof (induction n arbitrary: w')
  case 0
  then show ?case by simp
next
  case (Suc n)
  then obtain u v where "((other_step\<^sup>*\<^sup>* OO rx_step) ^^ n) w u" "other_step\<^sup>*\<^sup>* u v" "rx_step v w'" by auto
  with Suc.IH [of u] Suc.prems(2) rx_left_decreases [of v w'] other_keeps_rx [of u v]
  show ?case by fastforce
qed

lemma rx_progress:
  assumes "conn_reachable c w" "worker w = WkJoin" "rx w \<noteq> RxDone"
  shows "\<exists>w'. rx_step w w'"
  using conn_reachable_inv [OF assms(1)] assms(2,3)
  by (cases "rx w"; cases "c_len (shared w) = 0")
    (auto simp: conn_inv_def closing_inv_def wakeup_inv_def leaving_def intro: rx_step.intros)

section \<open>A read without interference\<close>

text \<open>
  Undisturbed by the receiver, the worker's steps are the sequential \<open>tcp_read\<close>.
\<close>

text \<open>Answering the last byte of a buffer takes three steps.\<close>

lemma last_byte_steps:
  assumes "worker u = WkByte (c_len (shared u))" "read_len u + 1 = c_len (shared u)" "b = c_buf (shared u) ! read_len u"
  shows "worker_step\<^sup>*\<^sup>* u (u\<lparr>worker := WkGot (Byte b), shared := (shared u)\<lparr>c_len := 0\<rparr>, read_len := 0,
    ev_reader := True, answered := answered u @ [b]\<rparr>)" (is "worker_step\<^sup>*\<^sup>* u ?w'")
proof -
  define u1 where "u1 = u\<lparr>worker := WkLast b, read_len := 0, answered := answered u @ [b]\<rparr>"
  define u2 where "u2 = u1\<lparr>worker := WkSignal b, shared := (shared u)\<lparr>c_len := 0\<rparr>\<rparr>"
  have "worker_step u u1" using wk_last [OF assms(1,3)] assms(2) by (simp add: u1_def)
  moreover have "worker_step u1 u2" using wk_drained [of u1 b] by (simp add: u2_def u1_def)
  moreover have "worker_step u2 ?w'" using wk_signal [of u2 b] by (cases u) (auto simp: u2_def u1_def)
  ultimately show ?thesis by (meson converse_rtranclp_into_rtranclp r_into_rtranclp)
qed

lemma read_steps:
  assumes "worker w = WkTop" "tcp_read K tc (shared w) x = (Ok r, tc', c', x')" "tc_read_len tc = read_len w"
  shows "worker_step\<^sup>*\<^sup>* w (w\<lparr>worker := WkGot r, shared := c', read_len := tc_read_len tc',
      ev_reader := (ev_reader w \<or> c_len c' \<noteq> c_len (shared w)),
      answered := answered w @ (case r of Byte b \<Rightarrow> [b] | _ \<Rightarrow> [])\<rparr>)"
    (is "worker_step\<^sup>*\<^sup>* w ?w'")
proof (cases "c_closed (shared w)")
  case True
  have "worker_step w (w\<lparr>worker := WkClosed\<rparr>)" using assms(1) True by (rule wk_closed)
  moreover have "worker_step (w\<lparr>worker := WkClosed\<rparr>) ?w'"
    using assms(2,3) True wk_err [of "w\<lparr>worker := WkClosed\<rparr>"] wk_eof [of "w\<lparr>worker := WkClosed\<rparr>"]
    by (auto simp: tcp_read_def split: option.splits)
  ultimately show ?thesis by (meson converse_rtranclp_into_rtranclp r_into_rtranclp)
next
  case False
  define v where "v = w\<lparr>worker := WkLen\<rparr>"
  have open_step: "worker_step w v" unfolding v_def using assms(1) False by (rule wk_open)
  show ?thesis
  proof (cases "c_len (shared w) = 0")
    case True
    have "worker_step v ?w'"
      using assms(2,3) False True wk_none [of v] by (cases w) (auto simp: tcp_read_def v_def)
    with open_step show ?thesis by (meson converse_rtranclp_into_rtranclp r_into_rtranclp)
  next
    case l: False
    define u where "u = v\<lparr>worker := WkByte (c_len (shared w))\<rparr>"
    define b where "b = c_buf (shared w) ! read_len w"
    have some: "worker_step v u" using wk_some [of v] l by (simp add: v_def u_def)
    have inr: "read_len w < length (c_buf (shared w))"
      using assms(2,3) False l by (auto simp: tcp_read_def index_def split: if_splits)
    have u: "worker u = WkByte (c_len (shared u))" "b = c_buf (shared u) ! read_len u" by (simp_all add: u_def v_def b_def)
    have "worker_step\<^sup>*\<^sup>* u ?w'"
    proof (cases "read_len w + 1 = c_len (shared w)")
      case False
      have "worker_step u ?w'"
        using assms(2,3) \<open>\<not> c_closed (shared w)\<close> l inr False wk_byte [OF u]
        by (auto simp: tcp_read_def v_def u_def b_def split: if_splits)
      then show ?thesis ..
    next
      case True
      then show ?thesis
        using last_byte_steps [OF u(1) _ u(2)] assms(2,3) \<open>\<not> c_closed (shared w)\<close> l inr
        by (cases w) (auto simp: u_def v_def tcp_read_def b_def)
    qed
    with open_step some show ?thesis by (meson converse_rtranclp_into_rtranclp)
  qed
qed

end
