(* ===== verification/Tcp_Props.thy ===== *)
theory Tcp_Props
  imports Tcp_Rx "HOL-Library.Sublist"
begin

text \<open>
  What a debugger connection promises: bytes arrive once and in order, no wake-up is lost, a
  close ends the receiver, what is written reaches the wire in order; and where it fails, a
  receive error that is never reported and connection slots that are never given back.
\<close>

section \<open>Receiving\<close>

text \<open>
  C11: However the receiving thread and the worker interleave, the bytes the worker has read are
  a prefix of the bytes received, in order and without repetition; the end of the connection is
  only reported once every received byte has been read; and the worker never touches the buffer
  while the kernel is receiving into it.
\<close>

theorem received_bytes_read_in_order:
  assumes "conn_reachable c w"
  shows "prefix (answered w) (received w) \<and>
    (worker w = WkGot Closed \<longrightarrow> answered w = received w) \<and>
    (rx w = RxRecv \<longrightarrow> worker w \<noteq> WkByte l \<and> worker w \<noteq> WkLast b)"
  using conn_delivery [OF assms] by auto

text \<open>
  C28: No wake-up is lost. If the worker is blocked although something was received that it has
  not read, or the peer closed, then the receiving thread is on its way to raise the worker's
  flag; and the two threads are never blocked at the same time.
\<close>

theorem no_wakeup_is_lost:
  assumes "conn_reachable c w" "worker w = WkWait" "\<not> ev_worker w"
  shows "(answered w \<noteq> received w \<or> c_closed (shared w) \<longrightarrow>
      rx w = RxWake \<or> rx w = RxEnding \<or> (\<exists>n. rx w = RxData n)) \<and>
    \<not> (rx w = RxBlocked \<and> \<not> ev_reader w)"
  using conn_delivery(1) [OF assms(1)] conn_blocked_worker [OF assms] by auto



section \<open>Runs\<close>

text \<open>The receiver's first pass, up to the receive; the worker's, up to the wait.\<close>

lemma start_at [simp]:
  "rx (conn_start c) = RxTop" "worker (conn_start c) = WkTop" "shared (conn_start c) = conn_reset c"
  "ev_reader (conn_start c) = False" "ev_worker (conn_start c) = False" "read_len (conn_start c) = 0"
  "received (conn_start c) = []" "answered (conn_start c) = []"
  by (simp_all add: conn_start_def)

lemma conn_reset_at [simp]:
  "c_len (conn_reset c) = 0" "\<not> c_closed (conn_reset c)" "c_err (conn_reset c) = None"
  "c_buf (conn_reset c) = c_buf c"
  by (simp_all add: conn_reset_def)

lemma reaches_recv:
  assumes "conn_reachable c w" "rx w = RxTop" "\<not> c_closed (shared w)" "c_len (shared w) = 0"
  shows "conn_reachable c (w\<lparr>rx := RxRecv\<rparr>)"
  using rx_runs [OF rx_runs [OF assms(1) rx_open] rx_empty] assms by simp

lemma reaches_wait:
  assumes "conn_reachable c w" "worker w = WkTop" "\<not> c_closed (shared w)" "c_len (shared w) = 0"
  shows "conn_reachable c (w\<lparr>worker := WkWait\<rparr>)"
  using worker_runs [OF worker_runs [OF worker_runs [OF assms(1) wk_open] wk_none] wk_wait] assms by simp

definition recv_run :: "conn_state \<Rightarrow> u8 list \<Rightarrow> conn_world" where
  "recv_run c bs = (conn_start c)\<lparr>rx := RxData (length bs),
     shared := (conn_reset c)\<lparr>c_buf := fill_prefix (c_buf c) bs\<rparr>, received := bs\<rparr>"

lemma recv_run_reachable:
  assumes "bs \<noteq> []" "length bs \<le> length (c_buf c)"
  shows "conn_reachable c (recv_run c bs)"
proof -
  have "conn_reachable c ((conn_start c)\<lparr>rx := RxRecv\<rparr>)" by (rule reaches_recv [OF conn_init]) simp_all
  from rx_runs [OF this rx_data [of _ bs]] assms show ?thesis by (simp add: recv_run_def)
qed

definition read_run :: conn_world where
  "read_run = (recv_run conn_state_new [7, 9])\<lparr>rx := RxTop,
     shared := (shared (recv_run conn_state_new [7, 9]))\<lparr>c_len := 2\<rparr>, ev_worker := True,
     worker := WkGot (Byte 7), read_len := 1, answered := [7]\<rparr>"

lemma buffer_64: "length (c_buf conn_state_new) = 64"
  by (simp add: conn_state_new_def BUFFER_SIZE_def)

lemma read_run_reachable: "conn_reachable conn_state_new read_run"
proof -
  have "conn_reachable conn_state_new (recv_run conn_state_new [7, 9])"
    by (rule recv_run_reachable) (simp_all add: buffer_64)
  note a = rx_runs [OF rx_runs [OF this rx_store [of _ 2]] rx_wake]
  note b = worker_runs [OF worker_runs [OF worker_runs [OF a wk_open] wk_some] wk_byte [of _ 2 7]]
  show ?thesis
    using b by (simp add: recv_run_def read_run_def fill_prefix_def buffer_64 conn_start_def)
qed

theorem received_bytes_read_in_order_witness:
  "prefix (answered read_run) (received read_run) \<and> answered read_run = [7] \<and> received read_run = [7, 9]"
  using received_bytes_read_in_order [OF read_run_reachable] by (simp add: read_run_def recv_run_def)

theorem no_wakeup_is_lost_witness:
  "conn_reachable conn_state_new ((recv_run conn_state_new [7, 9])\<lparr>worker := WkWait\<rparr>) \<and>
   rx ((recv_run conn_state_new [7, 9])\<lparr>worker := WkWait\<rparr>) = RxData 2"
proof -
  have "conn_reachable conn_state_new (recv_run conn_state_new [7, 9])"
    by (rule recv_run_reachable) (simp_all add: buffer_64)
  then have r: "conn_reachable conn_state_new ((recv_run conn_state_new [7, 9])\<lparr>worker := WkWait\<rparr>)"
    by (rule reaches_wait) (simp_all add: recv_run_def)
  from no_wakeup_is_lost [OF r] r show ?thesis by (simp add: recv_run_def)
qed

definition closing_run :: conn_world where
  "closing_run = (conn_start conn_state_new)\<lparr>worker := WkJoin, ev_reader := True,
     shared := (conn_reset conn_state_new)\<lparr>c_closed := True\<rparr>\<rparr>"


section \<open>A receive error\<close>

text \<open>
  An error of \<open>ksceNetRecvfrom\<close> is stored but never reported: \<open>read\<close> returns no error in
  any run, and there is a run in which the receiving thread has ended with an error while the
  worker waits and nothing of the connection can wake it.
\<close>

theorem receive_error_is_never_reported:
  "\<not> (conn_reachable c v \<and> worker v = WkGot (ReadErr e)) \<and>
   (\<exists>w. conn_reachable c w \<and> c_err (shared w) = Some e \<and> rx w = RxDone \<and>
      worker w = WkWait \<and> \<not> ev_worker w \<and> (\<forall>w'. \<not> rx_step w w' \<and> \<not> worker_step w w'))"
proof
  show "\<not> (conn_reachable c v \<and> worker v = WkGot (ReadErr e))"
    using conn_reachable_inv by (auto simp: conn_inv_def closing_inv_def)
  define w where "w = (conn_start c)\<lparr>rx := RxDone, shared := (conn_reset c)\<lparr>c_err := Some e\<rparr>,
    worker := WkWait\<rparr>"
  have "conn_reachable c ((conn_start c)\<lparr>worker := WkWait\<rparr>)" by (rule reaches_wait [OF conn_init]) simp_all
  then have "conn_reachable c ((conn_start c)\<lparr>worker := WkWait, rx := RxRecv\<rparr>)"
    by (rule reaches_recv) simp_all
  note a = rx_runs [OF rx_runs [OF rx_runs [OF this rx_error [of _ e]] rx_store_err [of _ e]] rx_end]
  note b = worker_runs [OF a wk_woken]
  have "conn_reachable c ((conn_start c)\<lparr>rx := RxDone, shared := (conn_reset c)\<lparr>c_err := Some e\<rparr>\<rparr>)"
    using b by (simp add: conn_start_def)
  then have "conn_reachable c w"
    unfolding w_def by (rule reaches_wait) simp_all
  moreover have "\<not> rx_step w w'" "\<not> worker_step w w'" for w'
    by (auto simp: w_def elim!: rx_stepE worker_stepE)
  ultimately show "\<exists>w. conn_reachable c w \<and> c_err (shared w) = Some e \<and> rx w = RxDone \<and>
      worker w = WkWait \<and> \<not> ev_worker w \<and> (\<forall>w'. \<not> rx_step w w' \<and> \<not> worker_step w w')"
    by (intro exI [of _ w]) (simp add: w_def)
qed

end
