(* ===== verification/Tcp_Write.thy ===== *)
theory Tcp_Write
  imports Tcp_Conn
begin

text \<open>
  The writing half of a connection (\<open>gdb/tcpconn.rs\<close>), and the life of its slot in the pool.
\<close>

section \<open>Sending\<close>

text \<open>
  What a stream socket documents: a send fails and sends nothing, or it takes a non-empty
  prefix of a non-empty buffer. \<open>sent\<close> reads from the world what has gone out on the socket.
\<close>

definition sends :: "'w net \<Rightarrow> i32 \<Rightarrow> ('w \<Rightarrow> u8 list) \<Rightarrow> bool" where
  "sends N sock sent \<longleftrightarrow> (\<forall>bs w. bs \<noteq> [] \<longrightarrow> (case ksceNetSendto N sock bs w of ((n, _), w') \<Rightarrow>
     (sint n < 0 \<and> sent w' = sent w) \<or>
     (0 < sint n \<and> unat n \<le> length bs \<and> sent w' = sent w @ take (unat n) bs)))"

lemma unat_pos: "0 < sint n \<Longrightarrow> 0 < unat n" for n :: i32
  by (metis gr0I sint_0 unat_eq_zero less_irrefl)

lemma socket_send_cases:
  assumes "sends N sock sent" "bs \<noteq> []"
  obtains (fail) e w' where "socket_send N sock bs w = (Err e, w')" "sent w' = sent w"
  | (part) n w' where "socket_send N sock bs w = (Ok n, w')" "0 < n" "n \<le> length bs"
      "sent w' = sent w @ take n bs"
proof -
  obtain r o' w' where c: "ksceNetSendto N sock bs w = ((r, o'), w')" by (metis prod.exhaust)
  have laws: "(sint r < 0 \<and> sent w' = sent w) \<or> (0 < sint r \<and> unat r \<le> length bs \<and> sent w' = sent w @ take (unat r) bs)"
    using assms c unfolding sends_def by (metis (mono_tags, lifting) case_prod_conv)
  show ?thesis
  proof (cases "sint r < 0")
    case True
    with laws c show ?thesis
      by (intro fail [of "SceError r ''ksceNetSendto''" w']) (simp_all add: socket_send_def seq_call)
  next
    case False
    with laws c unat_pos [of r] show ?thesis
      by (intro part [of "unat r" w']) (simp_all add: socket_send_def seq_call ret_def)
  qed
qed

definition unsent :: "tcp_conn \<Rightarrow> u8 list" where
  "unsent tc = take (tc_write_len tc) (tc_write_buffer tc)"

definition same_conn :: "tcp_conn \<Rightarrow> tcp_conn \<Rightarrow> bool" where
  "same_conn tc tc' \<longleftrightarrow> tc_socket tc' = tc_socket tc \<and> length (tc_write_buffer tc') = length (tc_write_buffer tc)"

lemma take_copy_down: "n \<le> l \<Longrightarrow> l \<le> length xs \<Longrightarrow> take (l - n) (copy_down n l xs) = drop n (take l xs)"
  by (simp add: copy_down_def)

lemma length_copy_down: "n \<le> l \<Longrightarrow> l \<le> length xs \<Longrightarrow> length (copy_down n l xs) = length xs"
  by (simp add: copy_down_def)

lemma flush_sends:
  assumes "sends N (tc_socket tc) sent" "tc_write_len tc \<le> length (tc_write_buffer tc)"
  shows "\<exists>r tc' w'. flush_write_buffer N tc w = Some (r, tc', w') \<and> same_conn tc tc' \<and>
      tc_write_len tc' \<le> length (tc_write_buffer tc') \<and> sent w' @ unsent tc' = sent w @ unsent tc \<and>
      (r = Ok () \<and> tc_write_len tc' = 0 \<or> (\<exists>e. r = Err e))"
  using assms
proof (induction "tc_write_len tc" arbitrary: tc w rule: less_induct)
  case less
  show ?case
  proof (cases "tc_write_len tc > 0")
    case False
    with less.prems show ?thesis
      by (subst flush_write_buffer.simps) (simp add: same_conn_def)
  next
    case True
    with less.prems have "unsent tc \<noteq> []" by (auto simp: unsent_def)
    with less.prems(1) show ?thesis
    proof (cases rule: socket_send_cases [where w = w])
      case (fail e w')
      with True less.prems show ?thesis
        by (subst flush_write_buffer.simps) (simp add: same_conn_def unsent_def)
    next
      case (part n w')
      define t where "t = (if n < tc_write_len tc
          then tc\<lparr>tc_write_buffer := copy_down n (tc_write_len tc) (tc_write_buffer tc),
                  tc_write_len := tc_write_len tc - n\<rparr>
          else tc\<lparr>tc_write_len := 0\<rparr>)"
      have n: "n \<le> tc_write_len tc" using part(3) less.prems(2) by (simp add: unsent_def)
      have fl: "flush_write_buffer N tc w = flush_write_buffer N t w'"
        using True part(1) by (subst flush_write_buffer.simps) (simp add: t_def unsent_def)
      have t: "tc_write_len t < tc_write_len tc" "same_conn tc t"
          "tc_write_len t \<le> length (tc_write_buffer t)" "unsent t = drop n (unsent tc)"
        using True part(2) n less.prems(2)
        by (auto simp: t_def same_conn_def unsent_def length_copy_down take_copy_down)
      have sock: "sends N (tc_socket t) sent" using less.prems(1) t(2) by (simp add: same_conn_def)
      obtain r tc' u where fin: "flush_write_buffer N t w' = Some (r, tc', u)" "same_conn t tc'"
          "tc_write_len tc' \<le> length (tc_write_buffer tc')" "sent u @ unsent tc' = sent w' @ unsent t"
          "r = Ok () \<and> tc_write_len tc' = 0 \<or> (\<exists>e. r = Err e)"
        using less.hyps [OF t(1) sock t(3), of w'] by blast
      have "sent u @ unsent tc' = sent w @ unsent tc"
        using fin(4) part(4) t(4) by simp
      moreover have "same_conn tc tc'" using fin(2) t(2) by (simp add: same_conn_def)
      ultimately show ?thesis using fl fin(1,3,5) by auto
    qed
  qed
qed

definition room :: "tcp_conn \<Rightarrow> bool" where
  "room tc \<longleftrightarrow> tc_write_len tc \<le> length (tc_write_buffer tc) \<and> tc_write_buffer tc \<noteq> []"

lemma room_same: "room tc \<Longrightarrow> same_conn tc tc' \<Longrightarrow> tc_write_len tc' \<le> length (tc_write_buffer tc') \<Longrightarrow> room tc'"
  unfolding room_def same_conn_def by (metis length_0_conv)

lemma flush_if_full_sends:
  assumes "sends N (tc_socket tc) sent" "room tc"
  shows "\<exists>r tc' w'. flush_if_full N tc w = Some (r, tc', w') \<and> same_conn tc tc' \<and> room tc' \<and>
      sent w' @ unsent tc' = sent w @ unsent tc \<and>
      (r = Ok () \<and> tc_write_len tc' < length (tc_write_buffer tc') \<or> (\<exists>e. r = Err e))"
proof (cases "tc_write_len tc = length (tc_write_buffer tc)")
  case False
  with assms show ?thesis by (auto simp: flush_if_full_def room_def same_conn_def)
next
  case True
  have "tc_write_len tc \<le> length (tc_write_buffer tc)" using assms(2) by (simp add: room_def)
  from flush_sends [OF assms(1) this, of w] obtain r tc' w' where f:
      "flush_write_buffer N tc w = Some (r, tc', w')" "same_conn tc tc'"
      "tc_write_len tc' \<le> length (tc_write_buffer tc')" "sent w' @ unsent tc' = sent w @ unsent tc"
      "r = Ok () \<and> tc_write_len tc' = 0 \<or> (\<exists>e. r = Err e)" by blast
  from room_same [OF assms(2) f(2,3)] f True show ?thesis by (auto simp: flush_if_full_def room_def)
qed

lemma unsent_put:
  "tc_write_len tc < length (tc_write_buffer tc) \<Longrightarrow>
   unsent (tc\<lparr>tc_write_buffer := (tc_write_buffer tc)[tc_write_len tc := b], tc_write_len := tc_write_len tc + 1\<rparr>)
     = unsent tc @ [b]"
  by (simp add: unsent_def take_Suc_conv_app_nth)

text \<open>One byte: it is buffered or sent, or an error came first and it was left out.\<close>

lemma write_sends:
  assumes "sends N (tc_socket tc) sent" "room tc"
  shows "\<exists>r tc' w'. conn_write N b tc w = Some (r, tc', w') \<and> same_conn tc tc' \<and> room tc' \<and>
      (r = Ok () \<and> sent w' @ unsent tc' = sent w @ unsent tc @ [b] \<or>
       (\<exists>e. r = Err e) \<and> (\<exists>k \<le> 1. sent w' @ unsent tc' = sent w @ unsent tc @ take k [b]))"
proof -
  obtain r tc1 w1 where f: "flush_if_full N tc w = Some (r, tc1, w1)" "same_conn tc tc1" "room tc1"
      "sent w1 @ unsent tc1 = sent w @ unsent tc"
      "r = Ok () \<and> tc_write_len tc1 < length (tc_write_buffer tc1) \<or> (\<exists>e. r = Err e)"
    using flush_if_full_sends [OF assms] by blast
  show ?thesis
  proof (cases r)
    case (Inl e)
    with f show ?thesis by (auto simp: conn_write_def intro!: exI [of _ "0 :: nat"])
  next
    case (Inr u)
    define t where "t = tc1\<lparr>tc_write_buffer := (tc_write_buffer tc1)[tc_write_len tc1 := b],
        tc_write_len := tc_write_len tc1 + 1\<rparr>"
    have lt: "tc_write_len tc1 < length (tc_write_buffer tc1)" using f(5) Inr by auto
    have t: "same_conn tc1 t" "room t" "unsent t = unsent tc1 @ [b]"
      using lt f(3) unsent_put [OF lt] by (auto simp: t_def same_conn_def room_def)
    have "sends N (tc_socket t) sent" using assms(1) f(2) t(1) by (simp add: same_conn_def)
    from flush_if_full_sends [OF this t(2), of w1] obtain r2 tc2 w2 where g:
        "flush_if_full N t w1 = Some (r2, tc2, w2)" "same_conn t tc2" "room tc2"
        "sent w2 @ unsent tc2 = sent w1 @ unsent t" "r2 = Ok () \<or> (\<exists>e. r2 = Err e)" by blast
    have "conn_write N b tc w = Some (r2, tc2, w2)"
      using f(1) Inr lt g(1) by (simp add: conn_write_def t_def)
    moreover have "same_conn tc tc2" using f(2) t(1) g(2) by (simp add: same_conn_def)
    moreover have "sent w2 @ unsent tc2 = sent w @ unsent tc @ [b]"
      using g(4) t(3) f(4) by (metis append.assoc)
    ultimately show ?thesis
      using g(3,5) by (auto intro!: exI [of _ "Suc 0"])
  qed
qed

text \<open>The packet writer: bytes one after the other, up to the first error.\<close>

fun write_all ::
  "'w net \<Rightarrow> u8 list \<Rightarrow> tcp_conn \<Rightarrow> 'w \<Rightarrow> ((sce_error, unit) res \<times> tcp_conn \<times> 'w) option" where
  "write_all N [] tc w = Some (Ok (), tc, w)"
| "write_all N (b # bs) tc w = Option.bind (conn_write N b tc w) (\<lambda>(r, tc, w). case r of
     Inl e \<Rightarrow> Some (Inl e, tc, w) | Inr _ \<Rightarrow> write_all N bs tc w)"

text \<open>Everything went, or an error came after a prefix; and what that says of a longer write.\<close>

definition prefix_sent :: "u8 list \<Rightarrow> u8 list \<Rightarrow> (sce_error, unit) res \<Rightarrow> u8 list \<Rightarrow> bool" where
  "prefix_sent old bs r new \<longleftrightarrow> r = Ok () \<and> new = old @ bs \<or>
     (\<exists>e. r = Err e) \<and> (\<exists>k \<le> length bs. new = old @ take k bs)"

lemma prefix_sent_stop: "prefix_sent old [b] (Err e) new \<Longrightarrow> prefix_sent old (b # bs) (Err e) new"
  by (auto simp: prefix_sent_def intro: exI [of _ "0 :: nat"] exI [of _ "1 :: nat"] elim!: le_SucE)

lemma prefix_sent_go_on:
  assumes "prefix_sent old [b] (Ok ()) mid" "prefix_sent mid bs r new" shows "prefix_sent old (b # bs) r new"
proof -
  have "mid = old @ [b]" using assms(1) by (simp add: prefix_sent_def)
  with assms(2) show ?thesis
    by (auto simp: prefix_sent_def intro!: exI [of _ "Suc _"])
qed

lemma write_all_sends:
  assumes "sends N (tc_socket tc) sent" "room tc"
  shows "\<exists>r tc' w'. write_all N bs tc w = Some (r, tc', w') \<and> same_conn tc tc' \<and> room tc' \<and>
    prefix_sent (sent w @ unsent tc) bs r (sent w' @ unsent tc')"
  using assms
proof (induction bs arbitrary: tc w)
  case Nil
  then show ?case by (simp add: same_conn_def prefix_sent_def)
next
  case (Cons b bs)
  from write_sends [OF Cons.prems, of b w] obtain r tc1 w1 where f:
      "conn_write N b tc w = Some (r, tc1, w1)" "same_conn tc tc1" "room tc1"
      "prefix_sent (sent w @ unsent tc) [b] r (sent w1 @ unsent tc1)" by (auto simp: prefix_sent_def)
  show ?case
  proof (cases r)
    case (Inl e)
    moreover from this f(4) obtain e' where "r = Err e'" by (auto simp: prefix_sent_def)
    ultimately show ?thesis using f prefix_sent_stop by auto
  next
    case (Inr u)
    then have r: "r = Ok ()" by simp
    have "sends N (tc_socket tc1) sent" using Cons.prems(1) f(2) by (simp add: same_conn_def)
    from Cons.IH [OF this f(3), of w1] obtain r2 tc2 w2 where g:
        "write_all N bs tc1 w1 = Some (r2, tc2, w2)" "same_conn tc1 tc2" "room tc2"
        "prefix_sent (sent w1 @ unsent tc1) bs r2 (sent w2 @ unsent tc2)" by blast
    have "write_all N (b # bs) tc w = Some (r2, tc2, w2)" using f(1) r g(1) by simp
    moreover have "same_conn tc tc2" using f(2) g(2) by (simp add: same_conn_def)
    ultimately show ?thesis using g(3) prefix_sent_go_on [OF f(4) [unfolded r] g(4)] by blast
  qed
qed


section \<open>Properties\<close>

text \<open>
  C14: Over a socket that keeps its documented contract, writing bytes and flushing always
  returns and never panics, and the bytes go out once, in order and completely: whenever both
  succeed, exactly the buffered bytes followed by the written ones have been sent. After an
  error in between, what was sent and what is still buffered together are the old bytes
  followed by a prefix of the new ones.
\<close>

theorem written_bytes_reach_wire:
  assumes "sends N (tc_socket tc) sent" "tc_write_len tc \<le> length (tc_write_buffer tc)" "tc_write_buffer tc \<noteq> []"
  shows "\<exists>r tc' w'. write_all N bs tc w = Some (r, tc', w') \<and>
      ((\<exists>e. r = Err e) \<and> (\<exists>k \<le> length bs. sent w' @ unsent tc' = sent w @ unsent tc @ take k bs) \<or>
       r = Ok () \<and> (\<exists>r2 tc2 w2. conn_flush N tc' w' = Some (r2, tc2, w2) \<and>
         sent w2 @ unsent tc2 = sent w @ unsent tc @ bs \<and>
         (r2 = Ok () \<and> sent w2 = sent w @ unsent tc @ bs \<or> (\<exists>e. r2 = Err e))))"
proof -
  have "room tc" using assms(2,3) by (simp add: room_def)
  then obtain r tc1 w1 where f:
      "write_all N bs tc w = Some (r, tc1, w1)" "same_conn tc tc1" "room tc1"
      "r = Ok () \<and> sent w1 @ unsent tc1 = sent w @ unsent tc @ bs \<or>
       (\<exists>e. r = Err e) \<and> (\<exists>k \<le> length bs. sent w1 @ unsent tc1 = sent w @ unsent tc @ take k bs)"
    using write_all_sends [OF assms(1), of bs w] unfolding prefix_sent_def append_assoc by blast
  have "sends N (tc_socket tc1) sent" "tc_write_len tc1 \<le> length (tc_write_buffer tc1)"
    using assms(1) f(2,3) by (simp_all add: same_conn_def room_def)
  from flush_sends [OF this, of w1] obtain r2 tc2 w2 where g:
      "conn_flush N tc1 w1 = Some (r2, tc2, w2)" "sent w2 @ unsent tc2 = sent w1 @ unsent tc1"
      "r2 = Ok () \<and> tc_write_len tc2 = 0 \<or> (\<exists>e. r2 = Err e)" by (auto simp: conn_flush_def)
  have "r2 = Ok () \<Longrightarrow> unsent tc2 = []" using g(3) by (auto simp: unsent_def)
  with f g show ?thesis by (intro exI [of _ r] exI [of _ tc1] exI [of _ w1]) auto
qed

text \<open>A network whose sends take at most five bytes at a time; its world is what was sent.\<close>

definition slow_net :: "u8 list net" where
  "slow_net = \<lparr>AF_INET = 2, SOCK_STREAM = 1, IPPROTO_TCP = 6, TCP_NODELAY = 1, sizeof_sockaddr_in = 16,
     CPU_AFFINITY_MASK_DEFAULT = 0, ksceNetSocket = (\<lambda>_ _ _ _ w. ((3, ()), w)),
     ksceNetBind = (\<lambda>_ _ _ w. ((0, ()), w)), ksceNetListen = (\<lambda>_ _ w. ((0, ()), w)),
     ksceNetAccept = (\<lambda>_ w. ((4, ()), w)), ksceNetSetsockopt = (\<lambda>_ _ _ _ w. ((0, ()), w)),
     ksceNetSendto = (\<lambda>_ bs w. ((of_nat (min 5 (length bs)), ()), w @ take 5 bs)),
     ksceNetRecvfrom = (\<lambda>_ _ w. ((0, []), w)), ksceNetClose = (\<lambda>_ w. ((0, ()), w)),
     ksceKernelCreateThread = (\<lambda>_ _ _ _ _ w. ((- 1, ()), w)), ksceKernelStartThread = (\<lambda>_ _ w. ((- 1, ()), w)),
     ksceKernelWaitThreadEnd = (\<lambda>_ w. ((0, 0), w)), ksceKernelDeleteThread = (\<lambda>_ w. ((0, ()), w))\<rparr>"

lemma slow_net_sends: "sends slow_net s id"
proof -
  have "0 < sint (of_nat (min 5 (length bs)) :: i32) \<and> unat (of_nat (min 5 (length bs)) :: i32) = min 5 (length bs)"
    if "bs \<noteq> []" for bs :: "u8 list"
  proof -
    have "0 < length bs" using that by simp
    then consider "length bs = 1" | "length bs = 2" | "length bs = 3" | "length bs = 4" | "5 \<le> length bs"
      by linarith
    then show ?thesis by cases simp_all
  qed
  then show ?thesis by (auto simp: sends_def slow_net_def min_def)
qed

theorem written_bytes_reach_wire_witness:
  "\<exists>r tc' w'. write_all slow_net [1, 2, 3] \<lparr>tc_socket = 4, tc_evflag = 0, tc_thread = None, tc_state = 0,
       tc_read_len = 0, tc_write_buffer = replicate 64 0, tc_write_len = 0\<rparr> [] = Some (r, tc', w')"
  using written_bytes_reach_wire [OF slow_net_sends, of "\<lparr>tc_socket = 4, tc_evflag = 0, tc_thread = None,
       tc_state = 0, tc_read_len = 0, tc_write_buffer = replicate 64 0, tc_write_len = 0\<rparr>" "[1, 2, 3]" "[]"]
  by auto

definition claimed :: "conn_state list \<Rightarrow> nat" where
  "claimed cs = length (filter c_claimed cs)"

lemma claimed_update:
  "i < length cs \<Longrightarrow> \<not> c_claimed (cs ! i) \<Longrightarrow> c_claimed c \<Longrightarrow> claimed (cs[i := c]) = Suc (claimed cs)"
  by (simp add: claimed_def upd_conv_take_nth_drop id_take_nth_drop [symmetric])
    (subst (3) id_take_nth_drop [of i cs], simp_all)

lemma reset_claimed: "c_claimed (conn_reset c) = c_claimed c"
  by (simp add: conn_reset_def)

lemma acquire_cases:
  obtains (full) "acquire_state cs = (None, cs)" "\<forall>c \<in> set cs. c_claimed c"
  | (slot) i c where "acquire_state cs = (Some i, cs[i := c])" "i < length cs" "\<not> c_claimed (cs ! i)" "c_claimed c"
proof (cases "position (\<lambda>c. \<not> c_claimed c) cs")
  case None
  then have "acquire_state cs = (None, cs)" by (simp add: acquire_state_def)
  with None show ?thesis by (intro full) (simp_all add: position_None_iff)
next
  case (Some i)
  from position_SomeD [OF Some] Some show ?thesis
    by (intro slot [of i "conn_reset ((cs ! i)\<lparr>c_claimed := True\<rparr>)"])
      (simp_all add: acquire_state_def reset_claimed)
qed

text \<open>
  C38: The slot of a connection. A connection that was set up and closed has given its slot
  back, closed its socket and changed no other slot; but when no thread can be made for it, the
  slot it took stays claimed, so each such failure leaves one slot less for good.
\<close>

theorem connection_slot_life:
  "(\<forall>tc cs1 w1 tc' cs2 w2. tcp_conn_new N sock evflag cs w = (Inr tc, cs1, w1) \<longrightarrow>
      tcp_close K N rest tc cs1 w1 = (tc', cs2, w2) \<longrightarrow> sint (tc_socket tc') < 0 \<and> tc_thread tc' = None \<and>
        (\<exists>i < length cs. \<not> c_claimed (cs ! i) \<and> \<not> c_claimed (cs2 ! i) \<and> (\<forall>j. j \<noteq> i \<longrightarrow> cs2 ! j = cs ! j))) \<and>
   (\<forall>e cs3 w3. tcp_conn_new N sock evflag cs w = (Inl e, cs3, w3) \<longrightarrow> claimed cs < length cs \<longrightarrow>
      claimed cs3 = Suc (claimed cs))"
proof (intro conjI allI impI)
  fix tc cs1 w1 tc' cs2 w2
  assume new: "tcp_conn_new N sock evflag cs w = (Inr tc, cs1, w1)"
    and close: "tcp_close K N rest tc cs1 w1 = (tc', cs2, w2)"
  have "sint (tc_socket tc') < 0 \<and> tc_thread tc' = None \<and>
        (\<exists>i < length cs. \<not> c_claimed (cs ! i) \<and> \<not> c_claimed (cs2 ! i) \<and> (\<forall>j. j \<noteq> i \<longrightarrow> cs2 ! j = cs ! j))"
  proof (cases rule: acquire_cases [of cs])
    case full
    with new show ?thesis by (simp add: tcp_conn_new_def)
  next
    case (slot i c)
    with new have tc: "tc_state tc = i" "cs1 = cs[i := c]"
      by (auto simp: tcp_conn_new_def split: prod.splits sum.splits)
    from close have "sint (tc_socket tc') < 0 \<and> tc_thread tc' = None \<and> \<not> c_claimed (cs2 ! i) \<and> (\<forall>j. j \<noteq> i \<longrightarrow> cs2 ! j = cs ! j)"
      using tc slot(2)
      by (auto simp: tcp_close_def Let_def socket_close_def release_state_def split: option.splits if_splits)
    with slot(2,3) show ?thesis by blast
  qed
  then show "sint (tc_socket tc') < 0" "tc_thread tc' = None"
    "\<exists>i < length cs. \<not> c_claimed (cs ! i) \<and> \<not> c_claimed (cs2 ! i) \<and> (\<forall>j. j \<noteq> i \<longrightarrow> cs2 ! j = cs ! j)" by blast+
next
  fix e cs3 w3
  assume new: "tcp_conn_new N sock evflag cs w = (Inl e, cs3, w3)" and free: "claimed cs < length cs"
  show "claimed cs3 = Suc (claimed cs)"
  proof (cases rule: acquire_cases [of cs])
    case full
    with free show ?thesis by (simp add: claimed_def filter_id_conv)
  next
    case (slot i c)
    with new have "cs3 = cs[i := c]"
      by (auto simp: tcp_conn_new_def split: prod.splits sum.splits)
    with slot claimed_update show ?thesis by blast
  qed
qed

theorem connection_slot_life_witness:
  "\<exists>e cs3 w3. tcp_conn_new slow_net 4 5 conn_pool_new [] = (Inl e, cs3, w3) \<and> claimed cs3 = 1"
proof -
  obtain cs3 w3 where n: "tcp_conn_new slow_net 4 5 conn_pool_new [] =
      (Err (SceError (- 1) ''ksceKernelCreateThread''), cs3, w3)"
    by (auto simp: tcp_conn_new_def joinable_create_def create_thread_def seq_call slow_net_def
        acquire_state_def conn_pool_new_def MAX_CONNS_def conn_state_new_def numeral_eq_Suc)
  from connection_slot_life [of slow_net 4 5 conn_pool_new "[]" K rest] n have "claimed cs3 = 1"
    by (simp add: conn_pool_new_def MAX_CONNS_def conn_state_new_def claimed_def)
  with n show ?thesis by blast
qed

text \<open>
  Should a send ever take nothing without an error, the loop of the flush repeats it for ever.
\<close>

lemma flush_stuck:
  fixes N :: "'w net"
  assumes "ksceNetSendto N (tc_socket tc) (unsent tc) w = ((0, ()), w)" "0 < tc_write_len tc"
  shows "flush_write_buffer N tc w = None"
proof -
  have "\<not> (N' = N \<and> tc' = tc \<and> w' = w)" if "flush_write_buffer N' tc' w' = Some y" for N' :: "'w net" and tc' w' y
  proof (rule flush_write_buffer.raw_induct [OF _ that, where P = "\<lambda>N' tc' w' y. \<not> (N' = N \<and> tc' = tc \<and> w' = w)"])
    fix f :: "'w net \<Rightarrow> tcp_conn \<Rightarrow> 'w \<Rightarrow> ((sce_error, unit) res \<times> tcp_conn \<times> 'w) option"
    fix N' tc' w' y
    assume ih: "\<And>N' tc' w' y. f N' tc' w' = Some y \<Longrightarrow> \<not> (N' = N \<and> tc' = tc \<and> w' = w)"
    assume run: "(if tc_write_len tc' > 0
      then (case socket_send N' (tc_socket tc') (take (tc_write_len tc') (tc_write_buffer tc')) w' of
          (Inl e, w) \<Rightarrow> Some (Inl e, tc', w)
        | (Inr n, w) \<Rightarrow>
           f N'
             (if n < tc_write_len tc'
              then tc'\<lparr>tc_write_buffer := copy_down n (tc_write_len tc') (tc_write_buffer tc'),
                      tc_write_len := tc_write_len tc' - n\<rparr>
              else tc'\<lparr>tc_write_len := 0\<rparr>) w)
      else Some (Ok (), tc', w')) = Some y"
    show "\<not> (N' = N \<and> tc' = tc \<and> w' = w)"
    proof
      assume "N' = N \<and> tc' = tc \<and> w' = w"
      moreover have "socket_send N (tc_socket tc) (take (tc_write_len tc) (tc_write_buffer tc)) w = (Ok 0, w)"
        using assms(1) by (simp add: socket_send_def seq_call ret_def unsent_def)
      ultimately have "f N tc w = Some y" using run assms(2) by (simp add: copy_down_def)
      with ih show False by blast
    qed
  qed
  then show ?thesis by (metis not_None_eq)
qed

end
