(* ===== verification/Event_Loop.thy ===== *)
theory Event_Loop
  imports Handlers Target Tcp_Conn
begin

text \<open>
  \<open>vita-gdb/src/gdb/event_loop.rs\<close> and the worker thread of \<open>gdb/main.rs\<close>: the loop that feeds
  the protocol library with bytes from the connection and with stops of the process.

  The library (\<open>gdbstub\<close>) is a record of its four entry points, a parameter: each takes the
  library's own state and the whole of the stub's, since it calls back into the target and
  writes to the connection, and answers the library's next state. What the other threads
  (exception handlers, the receiving thread) do to the shared state while the worker waits is a
  parameter too, \<open>meanwhile\<close>.
\<close>

section \<open>The library's types\<close>

datatype signal = SIGINT | SIGTRAP | SIGSEGV | SIGBUS | SIGILL

datatype stop_reason =
    Signal signal
  | Exited u8
  | SignalWithThread sce_uid signal
  | StopHwBreak sce_uid
  | StopSwBreak sce_uid
  | StopWatch sce_uid watch_kind u32

datatype disconnect_reason = TargetExited u8 | TargetTerminated signal | Disconnect | Kill

datatype 'g gdb_machine = Idle 'g | Running 'g | CtrlCInterrupt 'g | Disconnected disconnect_reason

section \<open>The state of a worker\<close>

record 'w app =
  sys :: "'w sys"
  conn :: tcp_conn
  conns :: "conn_state list"

type_synonym ('w, 'e, 'a) app_act = "'w app \<Rightarrow> ('e, 'a) res \<times> 'w app"

record ('g, 'w, 'e) gdbstub =
  run_state_machine :: "('w, 'e, 'g gdb_machine) app_act"
  incoming_data :: "'g \<Rightarrow> u8 \<Rightarrow> ('w, 'e, 'g gdb_machine) app_act"
  report_stop :: "'g \<Rightarrow> stop_reason \<Rightarrow> ('w, 'e, 'g gdb_machine) app_act"
  interrupt_handled :: "'g \<Rightarrow> stop_reason option \<Rightarrow> ('w, 'e, 'g gdb_machine) app_act"

definition on_sys :: "('w sys \<Rightarrow> 'a \<times> 'w sys) \<Rightarrow> 'w app \<Rightarrow> 'a \<times> 'w app" where
  "on_sys f a = (case f (sys a) of (x, s) \<Rightarrow> (x, a\<lparr>sys := s\<rparr>))"

definition app_read :: "'w kernel \<Rightarrow> ('w, sce_error, read_result) app_act" where
  "app_read K a = (case tcp_read K (conn a) (conns a ! tc_state (conn a)) (wld (sys a)) of
     (r, tc, c, w) \<Rightarrow>
       (r, a\<lparr>conn := tc, conns := (conns a)[tc_state tc := c], sys := (sys a)\<lparr>wld := w\<rparr>\<rparr>))"

section \<open>Stops\<close>

text \<open>A thread id of the library is not zero: \<open>Tid::new(tid).unwrap()\<close>.\<close>

definition tid_of :: "sce_uid \<Rightarrow> ('e, sce_uid) res" where
  "tid_of tid = (if tid = 0 then panic else Ok tid)"

definition exception_signal :: "exception_kind \<Rightarrow> signal" where
  "exception_signal kind = (case kind of Dabt \<Rightarrow> SIGSEGV | Pabt \<Rightarrow> SIGBUS | Undef \<Rightarrow> SIGILL)"

definition stop_reason_from :: "exception_event \<Rightarrow> ('e, stop_reason) res" where
  "stop_reason_from ev = (case ev of
     HwBreak tid \<Rightarrow> and_then (tid_of tid) (\<lambda>tid. Ok (StopHwBreak tid))
   | Watch tid addr kind \<Rightarrow> and_then (tid_of tid) (\<lambda>tid. Ok (StopWatch tid kind addr))
   | SwBreak tid \<Rightarrow> and_then (tid_of tid) (\<lambda>tid. Ok (StopSwBreak tid))
   | Exception tid kind \<Rightarrow> and_then (tid_of tid) (\<lambda>tid. Ok (SignalWithThread tid (exception_signal kind))))"

datatype incoming = InByte u8 | InStop stop_reason | InClosed

text \<open>The checks of the attached session, in their order; they take what they report.\<close>

definition on_pool :: "nat \<Rightarrow> (session \<Rightarrow> 'a \<times> session) \<Rightarrow> 'w app \<Rightarrow> 'a \<times> 'w app" where
  "on_pool i f a = (case f (pool (sys a) ! i) of (x, ses) \<Rightarrow>
     (x, a\<lparr>sys := (sys a)\<lparr>pool := (pool (sys a))[i := ses]\<rparr>\<rparr>))"

definition take_exited :: "('w, sce_error, incoming option) app_act" where
  "take_exited a = (case t_session (tgt (sys a)) of
     None \<Rightarrow> (Ok None, a)
   | Some i \<Rightarrow> (case on_pool i pop_exited a of (b, a) \<Rightarrow>
       (Ok (if b then Some (InStop (Exited 0)) else None), a)))"

definition take_step :: "('w, sce_error, incoming option) app_act" where
  "take_step a = (case t_session (tgt (sys a)) of
     None \<Rightarrow> (Ok None, a)
   | Some i \<Rightarrow> (case on_pool i pop_step_finished a of
       (None, a) \<Rightarrow> (Ok None, a)
     | (Some tid, a) \<Rightarrow> (and_then (tid_of tid) (\<lambda>tid. Ok (Some (InStop (SignalWithThread tid SIGTRAP)))), a)))"

definition take_excp :: "('w, sce_error, incoming option) app_act" where
  "take_excp a = (case t_session (tgt (sys a)) of
     None \<Rightarrow> (Ok None, a)
   | Some i \<Rightarrow> (case on_pool i pop_excp a of
       (None, a) \<Rightarrow> (Ok None, a)
     | (Some ev, a) \<Rightarrow> (and_then (stop_reason_from ev) (\<lambda>reason. Ok (Some (InStop reason))), a)))"

definition take_detached :: "('w, sce_error, incoming option) app_act" where
  "take_detached a =
     (if t_detached (tgt (sys a))
      then (Ok (Some (InStop (Exited 0))), a\<lparr>sys := (sys a)\<lparr>tgt := (tgt (sys a))\<lparr>t_detached := False\<rparr>\<rparr>\<rparr>)
      else (Ok None, a))"

definition take_byte :: "'w kernel \<Rightarrow> ('w, sce_error, incoming option) app_act" where
  "take_byte K = seq (app_read K) (\<lambda>r. case r of
     Byte b \<Rightarrow> ret (Some (InByte b))
   | Closed \<Rightarrow> ret (Some InClosed)
   | ReadErr err \<Rightarrow> throw (Err err)
   | NoData \<Rightarrow> ret None)"

text \<open>One pass over the sources: the first that has something decides.\<close>

fun first_of :: "('s \<Rightarrow> (sce_error, 'a option) res \<times> 's) list \<Rightarrow> 's \<Rightarrow> (sce_error, 'a option) res \<times> 's" where
  "first_of [] = ret None"
| "first_of (m # ms) = seq m (\<lambda>x. case x of Some _ \<Rightarrow> ret x | None \<Rightarrow> first_of ms)"

definition poll_running :: "'w kernel \<Rightarrow> ('w, sce_error, incoming option) app_act" where
  "poll_running K = first_of [take_detached, take_exited, take_step, take_excp, take_byte K]"

definition poll_idle :: "'w kernel \<Rightarrow> ('w, sce_error, incoming option) app_act" where
  "poll_idle K = first_of [take_exited, take_byte K]"

text \<open>\<open>None\<close>: the worker waits for ever.\<close>

partial_function (option) poll_loop ::
  "('w, sce_error, incoming option) app_act \<Rightarrow> 'w kernel \<Rightarrow> ('w app \<Rightarrow> 'w app) \<Rightarrow> 'w app \<Rightarrow>
     ((sce_error, incoming) res \<times> 'w app) option" where
  "poll_loop poll K meanwhile a = (case poll a of
     (Inl e, a) \<Rightarrow> Some (Inl e, a)
   | (Inr (Some x), a) \<Rightarrow> Some (Inr x, a)
   | (Inr None, a) \<Rightarrow>
      (case on_sys (on_world (evf_wait K (t_evflag (tgt (sys a))) EV_WAKE_WORKER WAITCLEAR_PAT)) a of
         (Inl e, a) \<Rightarrow> Some (Inl e, a)
       | (Inr _, a) \<Rightarrow> poll_loop poll K meanwhile (meanwhile a)))"

definition next_event_or_byte where
  "next_event_or_byte K meanwhile a = poll_loop (poll_running K) K meanwhile a"

definition next_byte where
  "next_byte K meanwhile a = poll_loop (poll_idle K) K meanwhile a"

definition interrupt_target :: "'w kernel \<Rightarrow> ('w, 'e, stop_reason option) app_act" where
  "interrupt_target K a = (case target_pid (sys a) of
     None \<Rightarrow> (Ok (Some (Signal SIGINT)), a)
   | Some pid \<Rightarrow> (case on_sys (on_world (halt_process K pid)) a of
        (Inl Panicked, a) \<Rightarrow> (panic, a)
      | (Inl (Error _), a) \<Rightarrow> (Ok (Some (Signal SIGINT)), a)
      | (Inr tid, a) \<Rightarrow> (and_then (tid_of tid) (\<lambda>tid. Ok (Some (SignalWithThread tid SIGINT))), a)))"

section \<open>The loop\<close>

text \<open>An error of reading, or the end of the connection, ends the session as a disconnect.\<close>

partial_function (option) session_loop ::
  "('g, 'w, 'e) gdbstub \<Rightarrow> 'w kernel \<Rightarrow> ('w app \<Rightarrow> 'w app) \<Rightarrow>
     ('e, 'g gdb_machine) res \<times> 'w app \<Rightarrow> (('e, disconnect_reason) res \<times> 'w app) option" where
  "session_loop G K meanwhile ga = (case ga of
     (Inl e, a) \<Rightarrow> Some (Inl e, a)
   | (Inr (Idle g), a) \<Rightarrow> Option.bind (next_byte K meanwhile a) (\<lambda>(r, a). case r of
        Inr (InByte b) \<Rightarrow> session_loop G K meanwhile (incoming_data G g b a)
      | Inl Panicked \<Rightarrow> Some (panic, a)
      | _ \<Rightarrow> Some (Ok Disconnect, a))
   | (Inr (Running g), a) \<Rightarrow> Option.bind (next_event_or_byte K meanwhile a) (\<lambda>(r, a). case r of
        Inr (InByte b) \<Rightarrow> session_loop G K meanwhile (incoming_data G g b a)
      | Inr (InStop reason) \<Rightarrow> session_loop G K meanwhile (report_stop G g reason a)
      | Inl Panicked \<Rightarrow> Some (panic, a)
      | _ \<Rightarrow> Some (Ok Disconnect, a))
   | (Inr (CtrlCInterrupt g), a) \<Rightarrow> (case interrupt_target K a of
        (Inl e, a) \<Rightarrow> Some (Inl e, a)
      | (Inr reason, a) \<Rightarrow> session_loop G K meanwhile (interrupt_handled G g reason a))
   | (Inr (Disconnected reason), a) \<Rightarrow> Some (Ok reason, a))"

text \<open>\<open>run_session\<close> owns the connection: it is dropped, so closed, when the function returns.\<close>

definition app_close ::
  "'w kernel \<Rightarrow> 'w net \<Rightarrow> (conn_state \<Rightarrow> conn_state) \<Rightarrow> 'w app \<Rightarrow> 'w app" where
  "app_close K N rest a = (case tcp_close K N rest (conn a) (conns a) (wld (sys a)) of (tc, cs, w) \<Rightarrow>
     a\<lparr>conn := tc, conns := cs, sys := (sys a)\<lparr>wld := w\<rparr>\<rparr>)"

definition run_session where
  "run_session G K N meanwhile rest a =
     map_option (\<lambda>(r, a). (r, app_close K N rest a)) (session_loop G K meanwhile (run_state_machine G a))"

section \<open>The worker thread\<close>

text \<open>
  \<open>gdb_thread\<close>: it owns the socket, the event flag and the target; the target is detached and
  the flag deleted when it ends. A panic stops the stub, whatever is left of it.
  (\<open>built\<close>: whether the library accepts its packet buffer.)
\<close>

definition gdb_thread ::
  "('g, 'w, 'e) gdbstub \<Rightarrow> 'w kernel \<Rightarrow> 'w net \<Rightarrow> ('w app \<Rightarrow> 'w app) \<Rightarrow> (conn_state \<Rightarrow> conn_state) \<Rightarrow> bool \<Rightarrow>
     i32 \<Rightarrow> session list \<Rightarrow> conn_state list \<Rightarrow> 'w \<Rightarrow> (unit, session list \<times> conn_state list \<times> 'w) res option" where
  "gdb_thread G K N meanwhile rest built sock ses cs w = (case evf_new K ''GdbEvtFlag'' w of
     (Inl _, w) \<Rightarrow> Some (Ok (ses, cs, snd (socket_close N sock w)))
   | (Inr flag, w) \<Rightarrow> (case tcp_conn_new N sock flag cs w of
       (Inl _, cs, w) \<Rightarrow> Some (Ok (ses, cs, snd (evf_delete K flag w)))
     | (Inr tc, cs, w) \<Rightarrow>
        (let a = \<lparr>sys = \<lparr>tgt = target_new flag, pool = ses, wld = w\<rparr>, conn = tc, conns = cs\<rparr> in
         if \<not> built
         then (let a = app_close K N rest a
               in Some (Ok (ses, conns a, snd (evf_delete K flag (wld (sys a))))))
         else Option.bind (run_session G K N meanwhile rest a) (\<lambda>(r, a). case r of
            Inl Panicked \<Rightarrow> Some panic
          | _ \<Rightarrow> map_option (\<lambda>s. Ok (pool s, conns a, snd (evf_delete K flag (wld s))))
                  (target_detach K (sys a))))))"

end
