(* ===== verification/Event_Props.thy ===== *)
theory Event_Props
  imports Event_Loop Handler_Props
begin

text \<open>
  What the event loop tells the debugger: every stop once and in order, before any byte of the
  connection; and it returns as soon as there is something to tell.
\<close>

section \<open>What there is to report\<close>

fun event_tid :: "exception_event \<Rightarrow> sce_uid" where
  "event_tid (HwBreak tid) = tid"
| "event_tid (SwBreak tid) = tid"
| "event_tid (Watch tid _ _) = tid"
| "event_tid (Exception tid _) = tid"

fun reason :: "exception_event \<Rightarrow> stop_reason" where
  "reason (HwBreak tid) = StopHwBreak tid"
| "reason (SwBreak tid) = StopSwBreak tid"
| "reason (Watch tid addr kind) = StopWatch tid kind addr"
| "reason (Exception tid kind) = SignalWithThread tid (exception_signal kind)"

definition session_stops :: "session \<Rightarrow> stop_reason list" where
  "session_stops s = (if s_exited s then [Exited 0] else []) @
     (case s_step_result s of None \<Rightarrow> [] | Some tid \<Rightarrow> [SignalWithThread tid SIGTRAP]) @
     map reason (contents (s_exceptions s))"

definition queued_stops :: "'w app \<Rightarrow> stop_reason list" where
  "queued_stops a = (if t_detached (tgt (sys a)) then [Exited 0] else []) @
     (case t_session (tgt (sys a)) of None \<Rightarrow> [] | Some i \<Rightarrow> session_stops (pool (sys a) ! i))"

text \<open>A worker whose session, if it has one, is well formed and names real threads.\<close>

definition stops_ok :: "'w app \<Rightarrow> bool" where
  "stops_ok a \<longleftrightarrow> (case t_session (tgt (sys a)) of None \<Rightarrow> True
     | Some i \<Rightarrow> i < length (pool (sys a)) \<and> session_ok (pool (sys a) ! i) \<and>
         s_step_result (pool (sys a) ! i) \<noteq> Some 0 \<and>
         (\<forall>ev \<in> set (contents (s_exceptions (pool (sys a) ! i))). event_tid ev \<noteq> 0))"

lemma stop_reason_from_reason: "event_tid ev \<noteq> 0 \<Longrightarrow> stop_reason_from ev = Ok (reason ev)"
  by (cases ev) (simp_all add: stop_reason_from_def tid_of_def)

lemma seq_result: "m s = (x, s') \<Longrightarrow> seq m f s = (case x of Inl e \<Rightarrow> (Inl e, s') | Inr y \<Rightarrow> f y s')"
  by (simp add: seq_def)

lemma seq_none:
  "m s = (Ok None, s') \<Longrightarrow> seq m f s = f None s'" by (simp add: seq_def)

text \<open>What the rest of the stub sees of a worker; taking a stop leaves it alone.\<close>

definition same_rest :: "'w app \<Rightarrow> 'w app \<Rightarrow> bool" where
  "same_rest a b \<longleftrightarrow> conn b = conn a \<and> conns b = conns a \<and> wld (sys b) = wld (sys a) \<and>
     t_session (tgt (sys b)) = t_session (tgt (sys a)) \<and> t_evflag (tgt (sys b)) = t_evflag (tgt (sys a)) \<and>
     length (pool (sys b)) = length (pool (sys a)) \<and>
     (\<forall>j. t_session (tgt (sys a)) \<noteq> Some j \<longrightarrow> pool (sys b) ! j = pool (sys a) ! j)"

lemma pop_empty: "session_ok s \<Longrightarrow> contents (s_exceptions s) = [] \<Longrightarrow> pop_excp s = (None, s)"
  using contents_empty_iff [of "s_exceptions s"] by (simp add: pop_excp_def pop_def session_ok_def)

lemma unchanged: "s_exited s = b \<Longrightarrow> s\<lparr>s_exited := b\<rparr> = s" "s_step_result s = r \<Longrightarrow> s\<lparr>s_step_result := r\<rparr> = s"
  by (auto intro: session.equality)

lemma take_none:
  assumes "stops_ok a"
  shows "\<not> t_detached (tgt (sys a)) \<Longrightarrow> take_detached a = (Ok None, a)"
    and "(\<And>i. t_session (tgt (sys a)) = Some i \<Longrightarrow> \<not> s_exited (pool (sys a) ! i)) \<Longrightarrow> take_exited a = (Ok None, a)"
    and "(\<And>i. t_session (tgt (sys a)) = Some i \<Longrightarrow> s_step_result (pool (sys a) ! i) = None) \<Longrightarrow> take_step a = (Ok None, a)"
    and "(\<And>i. t_session (tgt (sys a)) = Some i \<Longrightarrow> contents (s_exceptions (pool (sys a) ! i)) = []) \<Longrightarrow> take_excp a = (Ok None, a)"
  using assms
  by (auto simp: take_detached_def take_exited_def take_step_def take_excp_def on_pool_def stops_ok_def
      pop_exited_def pop_step_finished_def pop_empty unchanged split: option.splits)

lemma nothing_queued:
  assumes "stops_ok a" "queued_stops a = []"
  shows "poll_running K a = take_byte K a"
proof -
  have none: "take_detached a = (Ok None, a)" "take_exited a = (Ok None, a)" "take_step a = (Ok None, a)"
      "take_excp a = (Ok None, a)"
    using assms(2) by (auto intro!: take_none [OF assms(1)] simp: queued_stops_def session_stops_def
        split: if_splits option.splits)
  have "poll_running K a = seq (take_byte K) (\<lambda>x. case x of Some _ \<Rightarrow> ret x | None \<Rightarrow> first_of []) a"
    using none by (simp add: poll_running_def seq_none)
  also have "\<dots> = take_byte K a"
    by (simp add: seq_def ret_def split: prod.splits sum.splits option.splits)
  finally show ?thesis .
qed

text \<open>A stop taken from the session, leaving it as \<open>t\<close>.\<close>

lemma stop_taken:
  assumes "stops_ok a" "\<not> t_detached (tgt (sys a))" "t_session (tgt (sys a)) = Some i"
    and "session_stops t = rs" "session_ok t" "s_step_result t \<noteq> Some 0" "\<forall>ev \<in> set (contents (s_exceptions t)). event_tid ev \<noteq> 0"
    and "poll_running K a = (Ok (Some (InStop r)), a\<lparr>sys := (sys a)\<lparr>pool := (pool (sys a))[i := t]\<rparr>\<rparr>)"
  shows "\<exists>b. poll_running K a = (Ok (Some (InStop r)), b) \<and> queued_stops b = rs \<and> stops_ok b \<and> same_rest a b"
  using assms by (simp add: queued_stops_def stops_ok_def same_rest_def)

lemma first_session_stop:
  assumes ok: "stops_ok a" and det: "\<not> t_detached (tgt (sys a))" and i: "t_session (tgt (sys a)) = Some i"
    and q': "session_stops (pool (sys a) ! i) = r # rs"
  shows "\<exists>b. poll_running K a = (Ok (Some (InStop r)), b) \<and> queued_stops b = rs \<and> stops_ok b \<and> same_rest a b"
proof -
  note d = seq_result [where m = take_detached, OF take_none(1) [OF ok det]]
  let ?s = "pool (sys a) ! i"
  have s: "i < length (pool (sys a))" "session_ok ?s" "s_step_result ?s \<noteq> Some 0"
      "\<forall>ev \<in> set (contents (s_exceptions ?s)). event_tid ev \<noteq> 0"
    using ok i by (simp_all add: stops_ok_def)
  note res = stop_taken [OF ok det i]
  show ?thesis
  proof (cases "s_exited ?s")
    case True
    then have e: "take_exited a = (Ok (Some (InStop (Exited 0))), a\<lparr>sys := (sys a)\<lparr>pool := (pool (sys a))[i := ?s\<lparr>s_exited := False\<rparr>]\<rparr>\<rparr>)"
      using i by (simp add: take_exited_def on_pool_def pop_exited_def)
    show ?thesis
      by (rule res [of "?s\<lparr>s_exited := False\<rparr>"])
        (use True q' s in \<open>simp_all add: poll_running_def d seq_result [where m = take_exited, OF e] ret_def session_stops_def session_ok_def\<close>)
  next
    case ex: False
    have e: "take_exited a = (Ok None, a)" by (rule take_none(2) [OF ok]) (use ex i in simp)
    show ?thesis
    proof (cases "s_step_result ?s")
      case (Some tid)
      then have st: "take_step a = (Ok (Some (InStop (SignalWithThread tid SIGTRAP))),
          a\<lparr>sys := (sys a)\<lparr>pool := (pool (sys a))[i := ?s\<lparr>s_step_result := None\<rparr>]\<rparr>\<rparr>)"
        using i s(3) by (simp add: take_step_def on_pool_def pop_step_finished_def tid_of_def)
      show ?thesis
        by (rule res [of "?s\<lparr>s_step_result := None\<rparr>"])
          (use Some ex q' s in \<open>simp_all add: poll_running_def d seq_result [where m = take_exited, OF e] seq_result [where m = take_step, OF st] ret_def session_stops_def session_ok_def\<close>)
    next
      case None
      have st: "take_step a = (Ok None, a)" by (rule take_none(3) [OF ok]) (use None i in simp)
      have ring: "ring_ok (s_exceptions ?s)" using s(2) by (simp add: session_ok_def)
      obtain ev evs where c: "contents (s_exceptions ?s) = ev # evs" "r = reason ev" "rs = map reason evs"
        using q' ex None by (auto simp: session_stops_def)
      let ?t = "?s\<lparr>s_exceptions := snd (pop (s_exceptions ?s))\<rparr>"
      have p: "pop_excp ?s = (Some ev, ?t)" using pop_result [OF ring] c(1) by (simp add: pop_excp_def)
      have "take_excp a = (Ok (Some (InStop r)), a\<lparr>sys := (sys a)\<lparr>pool := (pool (sys a))[i := ?t]\<rparr>\<rparr>)"
        using i p s(4) c by (simp add: take_excp_def on_pool_def stop_reason_from_reason)
      note x = seq_result [where m = take_excp, OF this]
      show ?thesis
        by (rule res [of ?t])
          (use None ex c s pop_contents [OF ring] ok_events(2) [OF s(2)] p in
            \<open>simp_all add: poll_running_def d seq_result [where m = take_exited, OF e] seq_result [where m = take_step, OF st] x ret_def session_stops_def\<close>)
    qed
  qed
qed

lemma first_stop:
  assumes ok: "stops_ok a" and q: "queued_stops a = r # rs"
  shows "\<exists>b. poll_running K a = (Ok (Some (InStop r)), b) \<and> queued_stops b = rs \<and> stops_ok b \<and> same_rest a b"
proof (cases "t_detached (tgt (sys a))")
  case True
  let ?b = "a\<lparr>sys := (sys a)\<lparr>tgt := (tgt (sys a))\<lparr>t_detached := False\<rparr>\<rparr>\<rparr>"
  have t: "take_detached a = (Ok (Some (InStop (Exited 0))), ?b)" using True by (simp add: take_detached_def)
  have "poll_running K a = (Ok (Some (InStop (Exited 0))), ?b)"
    by (simp add: poll_running_def seq_result [where m = take_detached, OF t] ret_def)
  moreover have "queued_stops ?b = rs" "r = Exited 0" using True q by (auto simp: queued_stops_def split: option.splits)
  moreover have "stops_ok ?b" "same_rest a ?b" using ok by (simp_all add: stops_ok_def same_rest_def split: option.splits)
  ultimately show ?thesis by blast
next
  case False
  then obtain i where "t_session (tgt (sys a)) = Some i" "session_stops (pool (sys a) ! i) = r # rs"
    using q by (auto simp: queued_stops_def split: option.splits)
  with False show ?thesis using first_session_stop [OF ok] by blast
qed

section \<open>Waiting\<close>

text \<open>One pass that reports nothing, the wait after it, and what the other threads do meanwhile.\<close>

inductive waits ::
  "('w, sce_error, incoming option) app_act \<Rightarrow> 'w kernel \<Rightarrow> ('w app \<Rightarrow> 'w app) \<Rightarrow> 'w app \<Rightarrow> 'w app \<Rightarrow> bool"
  for poll K meanwhile where
  "poll a = (Ok None, b) \<Longrightarrow>
   on_sys (on_world (evf_wait K (t_evflag (tgt (sys b))) EV_WAKE_WORKER WAITCLEAR_PAT)) b = (Ok bits, c) \<Longrightarrow>
   waits poll K meanwhile a (meanwhile c)"

inductive_cases waitsE: "waits poll K meanwhile a c"

lemma waits_loop: "waits poll K meanwhile a c \<Longrightarrow> poll_loop poll K meanwhile a = poll_loop poll K meanwhile c"
  by (erule waitsE) (subst poll_loop.simps, simp)

lemma poll_loop_after:
  assumes "(waits poll K meanwhile)\<^sup>*\<^sup>* a c" "poll c = (Ok (Some x), d)"
  shows "poll_loop poll K meanwhile a = Some (Ok x, d)"
  using assms
proof (induction rule: converse_rtranclp_induct)
  case base
  then show ?case by (subst poll_loop.simps) simp
qed (simp add: waits_loop)

lemma next_stop:
  assumes "stops_ok a" "queued_stops a = r # rs"
  shows "\<exists>b. next_event_or_byte K meanwhile a = Some (Ok (InStop r), b) \<and>
    queued_stops b = rs \<and> stops_ok b \<and> same_rest a b"
proof -
  obtain b where b: "poll_running K a = (Ok (Some (InStop r)), b)" "queued_stops b = rs" "stops_ok b" "same_rest a b"
    using first_stop [OF assms] by blast
  with poll_loop_after [where poll = "poll_running K", OF rtranclp.rtrancl_refl b(1), of K meanwhile] show ?thesis
    by (auto simp: next_event_or_byte_def)
qed

section \<open>Stops are reported in order\<close>

fun next_events ::
  "'w kernel \<Rightarrow> ('w app \<Rightarrow> 'w app) \<Rightarrow> nat \<Rightarrow> 'w app \<Rightarrow> ((sce_error, incoming) res list \<times> 'w app) option" where
  "next_events K meanwhile 0 a = Some ([], a)"
| "next_events K meanwhile (Suc n) a = Option.bind (next_event_or_byte K meanwhile a) (\<lambda>(r, a).
     Option.bind (next_events K meanwhile n a) (\<lambda>(rs, a). Some (r # rs, a)))"

lemma same_rest_trans: "same_rest a b \<Longrightarrow> same_rest b c \<Longrightarrow> same_rest a c"
  by (auto simp: same_rest_def)

lemma next_events_stops:
  "stops_ok a \<Longrightarrow> queued_stops a = rs \<Longrightarrow>
   \<exists>b. next_events K meanwhile (length rs) a = Some (map (\<lambda>r. Ok (InStop r)) rs, b) \<and>
     queued_stops b = [] \<and> stops_ok b \<and> same_rest a b"
proof (induction rs arbitrary: a)
  case Nil
  then show ?case by (simp add: same_rest_def)
next
  case (Cons r rs)
  obtain b where b: "next_event_or_byte K meanwhile a = Some (Ok (InStop r), b)" "queued_stops b = rs"
      "stops_ok b" "same_rest a b"
    using next_stop [OF Cons.prems] by blast
  obtain c where "next_events K meanwhile (length rs) b = Some (map (\<lambda>r. Ok (InStop r)) rs, c)"
      "queued_stops c = []" "stops_ok c" "same_rest b c"
    using Cons.IH [OF b(3,2)] by blast
  with b same_rest_trans [OF b(4)] show ?case by auto
qed

text \<open>
  C9: Everything the session has to tell is reported while the process runs, once each and
  before any byte from the debugger: a detach and an exit as the end of the process, then the
  thread whose step finished, then the queued exceptions in the order they were raised, each
  with its own reason. None of it waits or touches the connection, and the next answer
  after the last one is whatever the connection has.
\<close>

theorem stops_reported_once_in_order:
  assumes "stops_ok a"
  shows "\<exists>b. next_events K meanwhile (length (queued_stops a)) a =
      Some (map (\<lambda>r. Ok (InStop r)) (queued_stops a), b) \<and>
    conn b = conn a \<and> conns b = conns a \<and> wld (sys b) = wld (sys a) \<and> poll_running K b = take_byte K b"
  using next_events_stops [OF assms refl, of K meanwhile] nothing_queued by (auto simp: same_rest_def)

text \<open>What queuing an event adds.\<close>

lemma push_stops:
  assumes "session_ok s" "s_evflag s = Some f" "length (contents (s_exceptions s)) < 7"
  shows "session_stops (fst (push_excp K ev s w)) = session_stops s @ [reason ev]"
    "s_step_result (fst (push_excp K ev s w)) = s_step_result s"
    "set (contents (s_exceptions (fst (push_excp K ev s w)))) = insert ev (set (contents (s_exceptions s)))"
  using push_excp_contents [OF assms, of K ev w] assms(2)
  by (simp_all add: session_stops_def push_excp_def)

text \<open>A worker attached through the first slot of a pool, with an idle connection.\<close>

definition worker_on :: "session list \<Rightarrow> 'w \<Rightarrow> 'w app" where
  "worker_on p w = \<lparr>sys = \<lparr>tgt = (target_new 9)\<lparr>t_session := Some 0\<rparr>, pool = p, wld = w\<rparr>,
     conn = \<lparr>tc_socket = 4, tc_evflag = 9, tc_thread = Some 11, tc_state = 0, tc_read_len = 0,
       tc_write_buffer = replicate 64 0, tc_write_len = 0\<rparr>,
     conns = conn_pool_new\<rparr>"

definition busy_session :: session where
  "busy_session = fst (push_excp demo_kernel (SwBreak 7) (demo_session\<lparr>s_step_result := Some 8\<rparr>) demo_world)"

theorem stops_reported_once_in_order_witness:
  "\<exists>b. next_events demo_kernel id 2 (worker_on [busy_session] demo_world) =
     Some ([Ok (InStop (SignalWithThread 8 SIGTRAP)), Ok (InStop (StopSwBreak 7))], b)"
proof -
  let ?s = "demo_session\<lparr>s_step_result := Some 8\<rparr>" and ?a = "worker_on [busy_session] demo_world"
  have s: "session_ok ?s" "s_evflag ?s = Some 9" "contents (s_exceptions ?s) = []" "session_stops ?s = [SignalWithThread 8 SIGTRAP]"
    using demo_session_ok(1) ok_step_fields(2) by (blast, simp_all add: demo_session_def uninit_def session_stops_def)
  then have push: "session_stops busy_session = [SignalWithThread 8 SIGTRAP, StopSwBreak 7]"
      "s_step_result busy_session = Some 8" "set (contents (s_exceptions busy_session)) = {SwBreak 7}"
      "session_ok busy_session"
    using push_stops [OF s(1,2), of demo_kernel "SwBreak 7" demo_world] ok_events(1) [OF s(1), of demo_kernel "SwBreak 7" demo_world]
    by (simp_all add: busy_session_def)
  then have "stops_ok ?a" "queued_stops ?a = [SignalWithThread 8 SIGTRAP, StopSwBreak 7]"
    by (simp_all add: stops_ok_def queued_stops_def worker_on_def target_new_def)
  then show ?thesis
    using stops_reported_once_in_order [of ?a demo_kernel id] by (auto simp: numeral_2_eq_2 simp del: next_events.simps)
qed

end
