(* ===== verification/Detach.thy ===== *)
theory Detach
  imports Target
begin

text \<open>
  What detaching (\<open>detach\<close> of \<open>gdb/target.rs\<close>, also the \<open>Drop\<close> of the target) does to the process,
  its session and the pool.
\<close>

lemma text_none: "program_text (replicate n None) m = m" "program_text (map (\<lambda>_. None) xs) m = m"
  by (induction n, simp_all) (induction xs, simp_all)

lemma keeps_set_suspend:
  assumes "memory_laws mem K" shows "mem (set_suspend_status K st tids w) = mem w"
  using quiet_calls(9) [OF assms] by (induction tids arbitrary: w) (simp_all add: keeps_mem_def)

lemma keeps_resume:
  assumes laws: "memory_laws mem K" shows "keeps_mem mem (resume_process K pid)"
proof -
  have rest: "keeps_mem mem (\<lambda>w. seq (sce_call ''ksceKernelResumeProcess'' (ksceKernelResumeProcess K pid)) (\<lambda>_. ret ())
      (set_suspend_status K 2 tids w))" for tids
  proof -
    have "keeps_mem mem (seq (sce_call ''ksceKernelResumeProcess'' (ksceKernelResumeProcess K pid)) (\<lambda>_. ret ()))"
      using laws by (intro keeps_intros)
    then show ?thesis using keeps_set_suspend [OF laws] by (simp add: keeps_mem_def)
  qed
  show ?thesis
    unfolding resume_process_def get_process_status_def get_thread_ids_def
    using laws by (intro keeps_intros rest) (auto intro!: keeps_intros rest)
qed

lemma detach_effect:
  assumes "memory_laws mem K" "text_ready K" "t_session (tgt s) = Some i" "i < length (pool s)"
    and "session_ok (pool s ! i)" "compatible (sites (s_sw_breakpoints (pool s ! i)))"
  shows "\<exists>s'. target_detach K s = Some s' \<and> t_session (tgt s') = None \<and> t_detached (tgt s') \<and>
    session_pid (pool s' ! i) = None \<and> (\<forall>j. j \<noteq> i \<longrightarrow> pool s' ! j = pool s ! j) \<and>
    mem (wld s') = (mem (wld s))(s_pid (pool s ! i) :=
      program_text (s_sw_breakpoints (pool s ! i)) (mem (wld s) (s_pid (pool s ! i))))"
proof -
  let ?s = "pool s ! i"
  have apart: "sorted_wrt slots_apart (s_sw_breakpoints ?s)" "list_all entry_ok (s_sw_breakpoints ?s)"
    using compatible_apart [OF assms(6)] assms(5) by (simp_all add: session_ok_def)
  obtain ses w where c: "clear_all K ?s (wld s) = (ses, w)" by (metis prod.exhaust)
  have w: "mem w = (mem (wld s))(s_pid ?s := program_text (s_sw_breakpoints ?s) (mem (wld s) (s_pid ?s)))"
    using restore_text [OF assms(1,2) apart] clear_regs_mem [OF assms(1)] c
    by (auto simp: clear_all_def Let_def split_beta)
  have ses: "session_ok ses" "s_sw_breakpoints ses = map (\<lambda>_. None) (s_sw_breakpoints ?s)"
    using ok_clear_all [OF assms(5), of K "wld s"] clear_all_session [of K ?s "wld s"] c by simp_all
  let ?w1 = "case session_pid ses of None \<Rightarrow> w | Some pid \<Rightarrow> snd (resume_process K pid w)"
  have w1: "mem ?w1 = mem w"
    using keeps_resume [OF assms(1)] by (simp add: keeps_mem_def split: option.splits)
  obtain t w2 where c2: "clear_all K ses ?w1 = (t, w2)" by (metis prod.exhaust)
  have apart2: "sorted_wrt slots_apart (s_sw_breakpoints ses)" "list_all entry_ok (s_sw_breakpoints ses)"
    unfolding ses(2) by (auto simp: sorted_wrt_iff_nth_less slots_apart_def)
  have w2: "mem w2 = mem w"
    using restore_text [OF assms(1,2) apart2] clear_regs_mem [OF assms(1)] c2 w1
    by (auto simp: clear_all_def Let_def split_beta ses(2) text_none)
  have t: "session_ok t" using ok_clear_all [OF ses(1), of K ?w1] c2 by simp
  obtain u w3 where r: "reset K t w2 = Some (u, w3)" by (rule that [OF reset_effect [OF t]])
  then have u: "session_pid u = None" and w3: "mem w3 = mem w2"
    using reset_effect [OF t, of K w2] quiet_calls(6) [OF assms(1)]
    by (auto simp: session_pid_def evf_clear_def seq_call ret_def keeps_mem_def split: option.splits)
  have "gdb_session_drop K ses ?w1 = Some (u, w3)" using c2 r by (simp add: gdb_session_drop_def)
  then have "target_detach K s = Some \<lparr>tgt = (tgt s)\<lparr>t_session := None, t_detached := True\<rparr>, pool = (pool s)[i := u], wld = w3\<rparr>"
    using assms(3) c by (simp add: target_detach_def Let_def)
  then show ?thesis using u w w2 w3 assms(4) by simp
qed

end
