(* ===== verification/Worker_End.thy ===== *)
theory Worker_End
  imports Event_Props Detach
begin

text \<open>
  How a worker ends (\<open>gdb/main.rs\<close>, \<open>gdb/event_loop.rs\<close>): whatever the protocol library did before,
  a connection that closes ends the loop, and the worker gives everything back.
\<close>

section \<open>Passes of the loop\<close>

text \<open>One pass that goes on: a byte or a stop handed to the library, an interrupt handled.\<close>

inductive session_step ::
  "('g, 'w, 'e) gdbstub \<Rightarrow> 'w kernel \<Rightarrow> ('w app \<Rightarrow> 'w app) \<Rightarrow>
     ('e, 'g gdb_machine) res \<times> 'w app \<Rightarrow> ('e, 'g gdb_machine) res \<times> 'w app \<Rightarrow> bool"
  for G K meanwhile where
  idle_byte: "next_byte K meanwhile a = Some (Inr (InByte x), b) \<Longrightarrow>
    session_step G K meanwhile (Inr (Idle g), a) (incoming_data G g x b)"
| running_byte: "next_event_or_byte K meanwhile a = Some (Inr (InByte x), b) \<Longrightarrow>
    session_step G K meanwhile (Inr (Running g), a) (incoming_data G g x b)"
| running_stop: "next_event_or_byte K meanwhile a = Some (Inr (InStop r), b) \<Longrightarrow>
    session_step G K meanwhile (Inr (Running g), a) (report_stop G g r b)"
| interrupted: "interrupt_target K a = (Inr r :: ('e, stop_reason option) res, b) \<Longrightarrow>
    session_step G K meanwhile (Inr (CtrlCInterrupt g), a) (interrupt_handled G g r b)"

lemma session_step_loop:
  assumes "session_step G K meanwhile x y"
  shows "session_loop G K meanwhile x = session_loop G K meanwhile y"
  using assms by (cases rule: session_step.cases) (subst session_loop.simps, simp)+

lemma session_steps_loop:
  assumes "(session_step G K meanwhile)\<^sup>*\<^sup>* x y"
  shows "session_loop G K meanwhile x = session_loop G K meanwhile y"
  using assms by (induction rule: rtranclp_induct) (simp_all add: session_step_loop)

section \<open>The connection closes\<close>

lemma closed_read:
  assumes "c_closed (conns a ! tc_state (conn a))"
  shows "take_byte K a = (case c_err (conns a ! tc_state (conn a)) of None \<Rightarrow> (Ok (Some InClosed), a) | Some e \<Rightarrow> (Err e, a))"
  using assms by (auto simp: take_byte_def seq_def app_read_def tcp_read_def ret_def throw_def split: option.splits)

lemma idle_polls_byte:
  assumes "stops_ok a" "queued_stops a = []"
  shows "poll_idle K a = take_byte K a"
proof -
  have "take_exited a = (Ok None, a)"
    using assms(2) by (intro take_none(2) [OF assms(1)]) (auto simp: queued_stops_def session_stops_def split: if_splits)
  then have "poll_idle K a = seq (take_byte K) (\<lambda>x. case x of Some _ \<Rightarrow> ret x | None \<Rightarrow> first_of []) a"
    by (simp add: poll_idle_def seq_none)
  also have "\<dots> = take_byte K a"
    by (simp add: seq_def ret_def split: prod.splits sum.splits option.splits)
  finally show ?thesis .
qed

lemma closed_ends_loop:
  assumes "stops_ok a" "queued_stops a = []" "c_closed (conns a ! tc_state (conn a))" "m = Idle g \<or> m = Running g"
  shows "session_loop G K meanwhile (Inr m, a) = Some (Ok Disconnect, a)"
proof -
  have polls: "poll_running K a = take_byte K a" "poll_idle K a = take_byte K a"
    using nothing_queued [OF assms(1,2)] idle_polls_byte [OF assms(1,2)] by simp_all
  obtain r where r: "take_byte K a = (r, a)" "r = Ok (Some InClosed) \<or> (\<exists>e. r = Err e)"
    using closed_read [OF assms(3), of K] by (cases "c_err (conns a ! tc_state (conn a))") auto
  from r(2) polls r(1) have "next_byte K meanwhile a = Some (Ok InClosed, a) \<or> (\<exists>e. next_byte K meanwhile a = Some (Err e, a))"
    "next_event_or_byte K meanwhile a = Some (Ok InClosed, a) \<or> (\<exists>e. next_event_or_byte K meanwhile a = Some (Err e, a))"
    by (auto simp: next_byte_def next_event_or_byte_def poll_loop.simps [of _ _ _ a])
  with assms(4) show ?thesis by (subst session_loop.simps) auto
qed

section \<open>Giving everything back\<close>

text \<open>The calls a worker ends with leave user memory alone.\<close>

definition ending_keeps :: "('w \<Rightarrow> 'm) \<Rightarrow> 'w kernel \<Rightarrow> 'w net \<Rightarrow> bool" where
  "ending_keeps mem K N \<longleftrightarrow> (\<forall>s. keeps_mem mem (ksceNetClose N s)) \<and> (\<forall>t. keeps_mem mem (ksceKernelWaitThreadEnd N t)) \<and>
     (\<forall>t. keeps_mem mem (ksceKernelDeleteThread N t)) \<and> (\<forall>e. keeps_mem mem (ksceKernelDeleteEventFlag K e))"

lemma ending_calls:
  assumes "ending_keeps mem K N" "memory_laws mem K"
  shows "mem (snd (socket_close N sock w)) = mem w" "keeps_mem mem (joinable_join N thid)"
    "keeps_mem mem (evf_delete K flag)" "keeps_mem mem (evf_set K flag bits)"
proof -
  show "mem (snd (socket_close N sock w)) = mem w"
    using assms(1) by (simp add: ending_keeps_def socket_close_def keeps_mem_def)
  show "keeps_mem mem (joinable_join N thid)"
    using assms(1) unfolding joinable_join_def ending_keeps_def
    by (auto intro!: keeps_seq keeps_sce_call keeps_final)
  have "keeps_mem mem (evf_delete K flag)" if "flag \<noteq> 0"
    using assms(1) that unfolding evf_delete_def ending_keeps_def
    by (auto intro!: keeps_seq keeps_sce_call keeps_final)
  then show "keeps_mem mem (evf_delete K flag)"
    by (cases "flag = 0") (auto simp: evf_delete_def keeps_mem_def ret_def)
  show "keeps_mem mem (evf_set K flag bits)"
    using quiet_calls(5) [OF assms(2)] unfolding evf_set_def by (auto intro!: keeps_seq keeps_sce_call keeps_final)
qed

lemma close_gives_back:
  assumes "ending_keeps mem K N" "memory_laws mem K" "tc_state (conn a) < length (conns a)"
  shows "mem (wld (sys (app_close K N rest a))) = mem (wld (sys a))"
    "tgt (sys (app_close K N rest a)) = tgt (sys a)" "pool (sys (app_close K N rest a)) = pool (sys a)"
    "\<not> c_claimed (conns (app_close K N rest a) ! tc_state (conn a))"
  using ending_calls [OF assms(1,2)] assms(3)
  by (auto simp: app_close_def tcp_close_def Let_def keeps_mem_def release_state_def split_beta split: option.splits)

text \<open>The worker as it starts, before the library's first move.\<close>

definition worker_start :: "sce_uid \<Rightarrow> session list \<Rightarrow> tcp_conn \<Rightarrow> conn_state list \<Rightarrow> 'w \<Rightarrow> 'w app" where
  "worker_start flag ses tc cs w = \<lparr>sys = \<lparr>tgt = target_new flag, pool = ses, wld = w\<rparr>, conn = tc, conns = cs\<rparr>"

lemma gdb_thread_loop:
  assumes "evf_new K ''GdbEvtFlag'' w0 = (Ok flag, w1)" "tcp_conn_new N sock flag cs w1 = (Ok tc, cs1, w2)"
    and "session_loop G K meanwhile (run_state_machine G (worker_start flag ses tc cs1 w2)) = Some (Ok r, a)"
    and "target_detach K (sys (app_close K N rest a)) = Some s"
  shows "gdb_thread G K N meanwhile rest True sock ses cs w0 =
    Some (Ok (pool s, conns (app_close K N rest a), snd (evf_delete K flag (wld s))))"
  using assms by (simp add: gdb_thread_def run_session_def worker_start_def)

text \<open>Network calls that all succeed, for the examples, and the worker they start.\<close>

definition quiet_net :: "demo net" where
  "quiet_net = \<lparr>AF_INET = 2, SOCK_STREAM = 1, IPPROTO_TCP = 6, TCP_NODELAY = 1, sizeof_sockaddr_in = 16,
     CPU_AFFINITY_MASK_DEFAULT = 0, ksceNetSocket = (\<lambda>_ _ _ _ w. ((3, ()), w)),
     ksceNetBind = (\<lambda>_ _ _ w. ((0, ()), w)), ksceNetListen = (\<lambda>_ _ w. ((0, ()), w)),
     ksceNetAccept = (\<lambda>_ w. ((4, ()), w)), ksceNetSetsockopt = (\<lambda>_ _ _ _ w. ((0, ()), w)),
     ksceNetSendto = (\<lambda>_ bs w. ((of_nat (length bs), ()), w)),
     ksceNetRecvfrom = (\<lambda>_ _ w. ((0, []), w)), ksceNetClose = (\<lambda>_ w. ((0, ()), w)),
     ksceKernelCreateThread = (\<lambda>_ _ _ _ _ w. ((11, ()), w)), ksceKernelStartThread = (\<lambda>_ _ w. ((0, ()), w)),
     ksceKernelWaitThreadEnd = (\<lambda>_ w. ((0, 0), w)), ksceKernelDeleteThread = (\<lambda>_ w. ((0, ()), w))\<rparr>"

definition quiet_conn :: tcp_conn where
  "quiet_conn = \<lparr>tc_socket = 4, tc_evflag = 0, tc_thread = Some 11, tc_state = 0,
     tc_read_len = 0, tc_write_buffer = replicate BUFFER_SIZE 0, tc_write_len = 0\<rparr>"

lemma quiet_conn_state [simp]: "tc_state quiet_conn = 0"
  by (simp add: quiet_conn_def)

definition quiet_conns :: "conn_state list" where
  "quiet_conns = conn_pool_new[0 := conn_reset (conn_state_new\<lparr>c_claimed := True\<rparr>)]"

lemma quiet_start:
  "evf_new sound_kernel ''GdbEvtFlag'' demo_world = (Ok 0, demo_world)"
  "tcp_conn_new quiet_net 4 0 conn_pool_new demo_world = (Ok quiet_conn, quiet_conns, demo_world)"
proof -
  show "evf_new sound_kernel ''GdbEvtFlag'' demo_world = (Ok 0, demo_world)"
    by (simp add: evf_new_def seq_call ret_def sound_kernel_def demo_defs)
  have "acquire_state conn_pool_new = (Some 0, quiet_conns)"
    by (simp add: acquire_state_def quiet_conns_def conn_pool_new_def MAX_CONNS_def conn_state_new_def numeral_eq_Suc)
  then show "tcp_conn_new quiet_net 4 0 conn_pool_new demo_world = (Ok quiet_conn, quiet_conns, demo_world)"
    by (simp add: tcp_conn_new_def joinable_create_def create_thread_def start_thread_def act_simps sce_call_def
        quiet_net_def quiet_conn_def)
qed

end
