(* ===== verification/Startup.thy ===== *)
theory Startup
  imports Handlers Net
begin

text \<open>
  Starting the stub: \<open>vita-gdb/src/main.rs\<close>, the choice of system-call stubs in
  \<open>kernel/ffi.rs\<close>, the security coprocessor's bridge in \<open>mep.rs\<close> and \<open>cp14.rs\<close>. What runs on
  the coprocessor (\<open>spl_exec_code\<close>), the words found at the linked stubs and the calls that
  register handlers are a third record of parameters, \<open>'w boot\<close>.
\<close>

datatype handler =
    GdbPabt | GdbDabt | GdbUndef \<comment> \<open>exception handlers, of priority 5\<close>

record 'w boot =
  stub_word :: "string \<Rightarrow> 'w \<Rightarrow> u32"
  spl_exec_code :: "u8 list \<Rightarrow> nat \<Rightarrow> u32 \<Rightarrow> bool \<Rightarrow> ('w, u32) act"
  ksceExcpmgrRegisterHandler :: "handler \<Rightarrow> nat \<Rightarrow> ('w, unit) syscall"
  ksceKernelSysrootSetProcessHandler :: "('w, unit) syscall"
  ksceKernelRegisterProcEventHandler :: "string \<Rightarrow> ('w, unit) syscall"
  ksceKernelRegisterSysEventHandler :: "string \<Rightarrow> ('w, unit) syscall"

section \<open>System-call stubs\<close>

definition stub_is_invalid :: "u32 \<Rightarrow> bool" where
  "stub_is_invalid val \<longleftrightarrow> val = 0xe24fc008"

text \<open>The functions whose identifier differs between the two firmware versions.\<close>

datatype firmware = Fw360 | Fw363

definition versioned_stubs :: "string list" where
  "versioned_stubs = [''ksceKernelCopyToUserProcTextDomain'', ''ksceGUIDGetUIDVectorByClass'',
     ''ksceKernelSuspendProcess'', ''ksceKernelResumeProcess'', ''ksceKernelGetUIDProcessClass'',
     ''ksceKernelGetProcessMainThread'', ''sceKernelSetPHBP'', ''sceKernelSetPHWP'', ''ksceKernelDebugPutchar'',
     ''ksceExcpmgrRegisterHandler'', ''ksceKernelL1IcacheInvalidateEntireAllCore'',
     ''ksceKernelGetThreadContextInfo'', ''ksceKernelGetModuleList'', ''ksceKernelGetModuleInfo'',
     ''ksceKernelGetModuleIdByPid'']"

text \<open>The loop over the patch functions: each points one stub at its 3.63 import.\<close>

fun apply_patches :: "string list \<Rightarrow> (string \<Rightarrow> firmware) \<Rightarrow> string \<Rightarrow> firmware" where
  "apply_patches [] stubs = stubs"
| "apply_patches (p # ps) stubs = apply_patches ps (stubs(p := Fw363))"

definition init_stubs :: "'w boot \<Rightarrow> 'w \<Rightarrow> (string \<Rightarrow> firmware) \<Rightarrow> string \<Rightarrow> firmware" where
  "init_stubs B w stubs =
     (if stub_is_invalid (stub_word B ''ksceGUIDGetUIDVectorByClass_360'' w)
      then apply_patches versioned_stubs stubs else stubs)"

definition spl_is_loaded :: "'w boot \<Rightarrow> 'w \<Rightarrow> bool" where
  "spl_is_loaded B w \<longleftrightarrow> \<not> stub_is_invalid (stub_word B ''spl_exec_code'' w)"

section \<open>The coprocessor bridge (\<open>mep.rs\<close>)\<close>

definition BRIDGE_NMP :: "u8 list" where
  "BRIDGE_NMP = [
    0x80, 0x6f, 0x1a, 0x7b, 0x16, 0x4b, 0x1e, 0xc9, 0x20, 0x00, 0x1e, 0xc4, 0x10, 0x00, 0x1e, 0xc3,
    0x0c, 0x00, 0x1e, 0xc2, 0x08, 0x00, 0x1e, 0xc0, 0x04, 0x00, 0x0e, 0x49, 0x1e, 0xc9, 0x1c, 0x00,
    0x0a, 0x49, 0x1e, 0xc9, 0x18, 0x00, 0x06, 0x49, 0x1e, 0xc9, 0x14, 0x00, 0xfa, 0x09, 0x1e, 0x09,
    0x00, 0x01, 0x9f, 0x10, 0x17, 0x4b, 0x20, 0x4f, 0xbe, 0x10, 0x00, 0x00, 0x00, 0x00, 0x00, 0x00,
    0xf0, 0xff, 0x1f, 0x00]"

definition FUD_COMMS_PA :: u32 where "FUD_COMMS_PA = 0x1F85C000"
definition FUD_COMMS_SIZE :: nat where "FUD_COMMS_SIZE = 0x4000"

text \<open>The static \<open>FUD_COMMS\<close>: the mapping of the communication area, once made.\<close>

type_synonym fud = "(sce_uid \<times> u32) option"

definition fud_init :: "'w kernel \<Rightarrow> fud \<Rightarrow> 'w \<Rightarrow> (sce_error, unit) res \<times> fud \<times> 'w" where
  "fud_init K fud w = (case map_paddr K ''fud_comms'' FUD_COMMS_PA FUD_COMMS_SIZE w of
     (Inl e, w) \<Rightarrow> (Inl e, fud, w)
   | (Inr (uid, base), w) \<Rightarrow> (Ok (), Some (uid, base), w))"

fun store_args :: "'w kernel \<Rightarrow> u32 \<Rightarrow> u32 list \<Rightarrow> 'w \<Rightarrow> 'w" where
  "store_args K addr [] w = w"
| "store_args K addr (arg # args) w = store_args K (addr + 4) args (write_volatile K addr arg w)"

text \<open>The bridge's data at the mapped area: the address to call, then eight arguments.\<close>

definition fud_bridge_exec ::
  "'w kernel \<Rightarrow> 'w boot \<Rightarrow> u32 \<Rightarrow> u32 list \<Rightarrow> fud \<Rightarrow> 'w \<Rightarrow> (sce_error, u32) res \<times> fud \<times> 'w" where
  "fud_bridge_exec K B exec_addr args fud w =
     (if \<not> spl_is_loaded B w then (Err (SceError (- 1) ''fud_bridge_exec: psp2spl not loaded''), fud, w)
      else (case (if fud = None then fud_init K fud w else (Ok (), fud, w)) of
        (Inl e, fud, w) \<Rightarrow> (Inl e, fud, w)
      | (Inr _, fud, w) \<Rightarrow> (case fud of
          None \<Rightarrow> (Err (SceError (- 3) ''fud_bridge_exec''), fud, w)
        | Some (uid, base) \<Rightarrow>
           (case spl_exec_code B BRIDGE_NMP (length BRIDGE_NMP) FUD_COMMS_PA True
               (store_args K (base + 4) (take 8 args) (write_volatile K base exec_addr w)) of (val, w) \<Rightarrow>
             (if val = 1 then Err (SceError (- 1) ''fud_bridge_exec'')
              else if val = 2 then Err (SceError (- 2) ''fud_bridge_exec'')
              else if val = 3 then Err (SceError (- 3) ''fud_bridge_exec'')
              else Ok val, fud, w)))))"

definition mep_write32 ::
  "'w kernel \<Rightarrow> 'w boot \<Rightarrow> u32 \<Rightarrow> u32 \<Rightarrow> fud \<Rightarrow> 'w \<Rightarrow> (sce_error, unit) res \<times> fud \<times> 'w" where
  "mep_write32 K B dst val fud w =
     (case fud_bridge_exec K B 0x00807262 [dst, FUD_COMMS_PA + 0x10, 0x4, val] fud w of
        (r, fud, w) \<Rightarrow> (and_then r (\<lambda>_. Ok ()), fud, w))"

definition mep_read32 ::
  "'w kernel \<Rightarrow> 'w boot \<Rightarrow> u32 \<Rightarrow> fud \<Rightarrow> 'w \<Rightarrow> (sce_error, u32) res \<times> fud \<times> 'w" where
  "mep_read32 K B addr fud w =
     (case fud_bridge_exec K B 0x00807262 [FUD_COMMS_PA + 0x10, addr, 0x4] fud w of
        (Inl e, fud, w) \<Rightarrow> (Inl e, fud, w)
      | (Inr _, fud, w) \<Rightarrow> (case fud of
          None \<Rightarrow> (panic, fud, w)
        | Some (uid, base) \<Rightarrow> (case read_volatile K (base + 0x10) w of (value, w) \<Rightarrow> (Ok value, fud, w))))"

section \<open>Startup\<close>

text \<open>\<open>enable_debug\<close> returns before its body (\<open>if true\<close>): the coprocessor is never asked.\<close>

definition enable_debug :: "'w boot \<Rightarrow> ('w, unit) sce_act" where
  "enable_debug B w = (if \<not> spl_is_loaded B w then (Ok (), w) else (Ok (), w))"

text \<open>A failure to register an exception handler is only logged.\<close>

definition register_exception_handlers :: "'w boot \<Rightarrow> 'w \<Rightarrow> 'w" where
  "register_exception_handlers B w =
     fold (\<lambda>h w. snd (ksceExcpmgrRegisterHandler B h 5 w)) [GdbPabt, GdbDabt, GdbUndef] w"

definition or_panic :: "('w, 'a) sce_act \<Rightarrow> ('w, unit) sce_act" where
  "or_panic f w = (case f w of (Inl _, w) \<Rightarrow> (panic, w) | (Inr _, w) \<Rightarrow> (Ok (), w))"

definition register_process_handlers :: "'w boot \<Rightarrow> ('w, unit) sce_act" where
  "register_process_handlers B =
     seq (or_panic (sce_call ''ksceKernelSysrootSetProcessHandler'' (ksceKernelSysrootSetProcessHandler B))) (\<lambda>_.
     or_panic (sce_call ''ksceKernelRegisterProcEventHandler'' (ksceKernelRegisterProcEventHandler B ''gdb_proc_event'')))"

definition register_sysevent_handler :: "'w boot \<Rightarrow> ('w, unit) sce_act" where
  "register_sysevent_handler B =
     or_panic (sce_call ''ksceKernelRegisterSysEventHandler'' (ksceKernelRegisterSysEventHandler B ''enable_debug''))"

definition handle_sysevent :: "'w boot \<Rightarrow> i32 \<Rightarrow> i32 \<Rightarrow> 'w \<Rightarrow> i32 \<times> 'w" where
  "handle_sysevent B resume eventid w =
     (0, if resume \<noteq> 0 \<and> eventid = 0x100000 then snd (enable_debug B w) else w)"

text \<open>The module's \<open>main\<close>, after the stubs were chosen.\<close>

definition main :: "'w boot \<Rightarrow> 'w net \<Rightarrow> ('w, unit) sce_act" where
  "main B N w =
     seq (register_process_handlers B) (\<lambda>_. seq (register_sysevent_handler B) (\<lambda>_ w.
       (case enable_debug B w of
          (Inl e, w) \<Rightarrow> (case e of Panicked \<Rightarrow> (panic, w) | Error _ \<Rightarrow> (Ok (), w))
        | (Inr _, w) \<Rightarrow> (case start_gdb N w of
             (Inl Panicked, w) \<Rightarrow> (panic, w)
           | (_, w) \<Rightarrow> (Ok (), w))))) (register_exception_handlers B w)"

end
