(* ===== verification/Monitor.thy ===== *)
theory Monitor
  imports Target Startup
begin

text \<open>
  \<open>vita-gdb/src/gdb/monitor.rs\<close>: the debugger's \<open>monitor\<close> commands. A command runs on the
  target, the mapping of the coprocessor's area and the console text written so far.
\<close>

section \<open>Numbers and words\<close>

definition digit_of :: "nat \<Rightarrow> u8 \<Rightarrow> nat option" where
  "digit_of radix b =
     (let c = unat b;
          d = (if 48 \<le> c \<and> c \<le> 57 then c - 48
               else if 97 \<le> c \<and> c \<le> 122 then c - 87
               else if 65 \<le> c \<and> c \<le> 90 then c - 55 else radix)
      in if d < radix then Some d else None)"

fun parse_digits :: "nat \<Rightarrow> nat \<Rightarrow> nat \<Rightarrow> u8 list \<Rightarrow> nat option" where
  "parse_digits radix limit acc [] = Some acc"
| "parse_digits radix limit acc (b # bs) = (case digit_of radix b of
     None \<Rightarrow> None
   | Some d \<Rightarrow> if acc * radix + d \<le> limit then parse_digits radix limit (acc * radix + d) bs else None)"

text \<open>\<open>u32::from_str_radix\<close> and, with radix 10, \<open>parse::<u32>\<close>; \<open>parse::<i32>\<close>.\<close>

definition parse_u32 :: "nat \<Rightarrow> u8 list \<Rightarrow> u32 option" where
  "parse_u32 radix s =
     (if s = [] \<or> s = bytes ''+'' \<or> s = bytes ''-'' then None
      else map_option of_nat (parse_digits radix (2 ^ 32 - 1) 0 (if take 1 s = bytes ''+'' then drop 1 s else s)))"

definition parse_i32 :: "u8 list \<Rightarrow> i32 option" where
  "parse_i32 s =
     (if s = [] \<or> s = bytes ''+'' \<or> s = bytes ''-'' then None
      else if take 1 s = bytes ''-'' then map_option (\<lambda>n. - of_nat n) (parse_digits 10 (2 ^ 31) 0 (drop 1 s))
      else map_option of_nat (parse_digits 10 (2 ^ 31 - 1) 0 (if take 1 s = bytes ''+'' then drop 1 s else s)))"

definition parse_num :: "u8 list \<Rightarrow> u32 option" where
  "parse_num s = (if take 2 s = bytes ''0x'' then parse_u32 16 (drop 2 s) else parse_u32 10 s)"

definition is_space :: "u8 \<Rightarrow> bool" where
  "is_space b \<longleftrightarrow> b \<in> {0x20, 0x09, 0x0A, 0x0C, 0x0D}"

fun split_ascii_whitespace :: "u8 list \<Rightarrow> u8 list \<Rightarrow> u8 list list" where
  "split_ascii_whitespace word [] = (if word = [] then [] else [word])"
| "split_ascii_whitespace word (b # bs) =
     (if is_space b then (if word = [] then [] else [word]) @ split_ascii_whitespace [] bs
      else split_ascii_whitespace (word @ [b]) bs)"

section \<open>Printing\<close>

fun dec_nat :: "nat \<Rightarrow> u8 list" where
  "dec_nat n = (if n < 10 then [hex_digit n] else dec_nat (n div 10) @ [hex_digit (n mod 10)])"

declare dec_nat.simps [simp del]

definition dec_i32 :: "i32 \<Rightarrow> u8 list" where
  "dec_i32 x = (if sint x < 0 then bytes ''-'' @ dec_nat (nat (- sint x)) else dec_nat (nat (sint x)))"

definition hex_u32 :: "u32 \<Rightarrow> u8 list" where
  "hex_u32 x = hex_nat (unat x)"

text \<open>\<open>{:<n}\<close> pads to \<open>n\<close> characters; a character is counted at its first byte.\<close>

definition pad :: "nat \<Rightarrow> u8 list \<Rightarrow> u8 list" where
  "pad n s = s @ replicate (n - length (filter (\<lambda>b. b AND 0xC0 \<noteq> 0x80) s)) 0x20"

definition show_error :: "sce_error \<Rightarrow> u8 list" where
  "show_error e = bytes (func e) @ bytes '' failed: 0x'' @ hex_u32 (code e)"

section \<open>The state of a command\<close>

record 'w mon =
  m_sys :: "'w sys"
  m_fud :: fud
  m_out :: "u8 list"

type_synonym ('w, 'a) mon_act = "'w mon \<Rightarrow> (sce_error, 'a) res \<times> 'w mon"

definition out :: "u8 list list \<Rightarrow> ('w, unit) mon_act" where
  "out pieces m = (Ok (), m\<lparr>m_out := m_out m @ concat pieces\<rparr>)"

definition outln :: "u8 list list \<Rightarrow> ('w, unit) mon_act" where
  "outln pieces = out (pieces @ [[0x0A]])"

definition on_kernel :: "('w \<Rightarrow> 'a \<times> 'w) \<Rightarrow> 'w mon \<Rightarrow> 'a \<times> 'w mon" where
  "on_kernel f m = (case on_world f (m_sys m) of (x, s) \<Rightarrow> (x, m\<lparr>m_sys := s\<rparr>))"

definition on_mep :: "(fud \<Rightarrow> 'w \<Rightarrow> 'a \<times> fud \<times> 'w) \<Rightarrow> 'w mon \<Rightarrow> 'a \<times> 'w mon" where
  "on_mep f m = (case f (m_fud m) (wld (m_sys m)) of (x, fud, w) \<Rightarrow>
     (x, m\<lparr>m_fud := fud, m_sys := (m_sys m)\<lparr>wld := w\<rparr>\<rparr>))"

text \<open>A fallible call whose error the command prints instead of returning it; a panic is not caught.\<close>

definition caught :: "('s \<Rightarrow> ('e, 'a) res \<times> 's) \<Rightarrow> ('e + 'a \<Rightarrow> 's \<Rightarrow> ('e, 'b) res \<times> 's) \<Rightarrow> 's \<Rightarrow> ('e, 'b) res \<times> 's" where
  "caught f g s = (case f s of
     (Inl Panicked, s) \<Rightarrow> (panic, s)
   | (Inl (Error e), s) \<Rightarrow> g (Inl e) s
   | (Inr x, s) \<Rightarrow> g (Inr x) s)"

section \<open>The commands\<close>

definition cmd_help :: "('w, unit) mon_act" where
  "cmd_help = seq (outln [bytes ''dump                     Dump gdb session internals'']) (\<lambda>_.
     seq (outln [bytes ''ps                       Print a list of processes'']) (\<lambda>_.
     seq (outln [bytes ''ls process               Print a list of processes'']) (\<lambda>_.
     seq (outln [bytes ''ls thread <pid|titleid>  Print a list of threads'']) (\<lambda>_.
     seq (outln [bytes ''ls module <pid|titleid>  Print a list of modules'']) (\<lambda>_.
     seq (outln [bytes ''peek <addr> [S]          Peek a physical address'']) (\<lambda>_.
     outln [bytes ''poke <addr> <value> [S]  Poke a physical address'']))))))"

fun dump_table :: "nat \<Rightarrow> u32 list \<Rightarrow> ('w, unit) mon_act" where
  "dump_table i [] = ret ()"
| "dump_table i (a # as) =
     seq (outln [bytes ''  ['', dec_nat i, bytes ''] 0x'', hex_u32 a]) (\<lambda>_. dump_table (Suc i) as)"

definition dump_session :: "dump_state_rec \<Rightarrow> ('w, unit) mon_act" where
  "dump_session d = seq (out [bytes ''pid  '']) (\<lambda>_.
     seq (case dump_pid d of None \<Rightarrow> outln [bytes ''(none)''] | Some pid \<Rightarrow> outln [dec_i32 pid]) (\<lambda>_.
     seq (outln [bytes ''hw breakpoints  '', dec_nat (length (dump_hw_breakpoints d)), bytes ''/6'']) (\<lambda>_.
     seq (dump_table 0 (dump_hw_breakpoints d)) (\<lambda>_.
     seq (outln [bytes ''hw watchpoints  '', dec_nat (length (dump_hw_watchpoints d)), bytes ''/3'']) (\<lambda>_.
     seq (dump_table 0 (dump_hw_watchpoints d)) (\<lambda>_.
     seq (outln [bytes ''sw breakpoints  '', dec_nat (length (dump_sw_breakpoints d)), bytes ''/16'']) (\<lambda>_.
     dump_table 0 (dump_sw_breakpoints d))))))))"

definition cmd_dump :: "('w, unit) mon_act" where
  "cmd_dump m = (case t_session (tgt (m_sys m)) of
     None \<Rightarrow> outln [bytes ''no session''] m
   | Some i \<Rightarrow> dump_session (dump_state (pool (m_sys m) ! i)) m)"

fun ls_processes :: "'w kernel \<Rightarrow> sce_uid list \<Rightarrow> ('w, unit) mon_act" where
  "ls_processes K [] = ret ()"
| "ls_processes K (pid # pids) =
     seq (out [dec_i32 pid]) (\<lambda>_.
     run (on_kernel (get_process_titleid K pid)) (\<lambda>titleid.
     seq (out [bytes ''  '', case titleid of Some t \<Rightarrow> titleid_as_str t | None \<Rightarrow> bytes ''unknown'']) (\<lambda>_.
     seq (on_kernel (get_process_status K pid)) (\<lambda>status.
     seq (out [bytes ''  status 0x'', hex_u32 status]) (\<lambda>_.
     seq (outln []) (\<lambda>_. ls_processes K pids))))))"

definition cmd_ls_process :: "'w kernel \<Rightarrow> ('w, unit) mon_act" where
  "cmd_ls_process K = caught (on_kernel (get_process_ids K)) (\<lambda>r. case r of
     Inl err \<Rightarrow> outln [bytes ''ls process: lookup '', show_error err]
   | Inr pids \<Rightarrow> ls_processes K pids)"

text \<open>\<open>find\<close> over the processes: the first with the wanted title id.\<close>

fun find_titled :: "'w kernel \<Rightarrow> u8 list \<Rightarrow> sce_uid list \<Rightarrow> 'w \<Rightarrow> sce_uid option \<times> 'w" where
  "find_titled K target [] w = (None, w)"
| "find_titled K target (pid # pids) w = (case get_process_titleid K pid w of
     (None, w) \<Rightarrow> find_titled K target pids w
   | (Some t, w) \<Rightarrow> if titleid_eq_str t target then (Some pid, w) else find_titled K target pids w)"

definition resolve_pid_or_titleid :: "'w kernel \<Rightarrow> u8 list \<Rightarrow> 'w \<Rightarrow> sce_uid option \<times> 'w" where
  "resolve_pid_or_titleid K target w = (case parse_i32 target of
     Some pid \<Rightarrow> (Some pid, w)
   | None \<Rightarrow> (case get_process_ids K w of
        (Inl _, w) \<Rightarrow> (None, w)
      | (Inr pids, w) \<Rightarrow> find_titled K target pids w))"

definition pid_arg :: "'w kernel \<Rightarrow> u8 list list \<Rightarrow> 'w mon \<Rightarrow> sce_uid option \<times> 'w mon" where
  "pid_arg K args m = (case args of
     target # _ \<Rightarrow> on_kernel (resolve_pid_or_titleid K target) m
   | [] \<Rightarrow> (target_pid (m_sys m), m))"

fun ls_threads :: "'w kernel \<Rightarrow> sce_uid list \<Rightarrow> ('w, unit) mon_act" where
  "ls_threads K [] = ret ()"
| "ls_threads K (tid # tids) = caught (on_kernel (get_thread_info K tid)) (\<lambda>r. case r of
     Inl err \<Rightarrow> seq (outln [bytes ''tid='', dec_i32 tid, bytes ''  (get info '', show_error err, bytes '')''])
       (\<lambda>_. ls_threads K tids)
   | Inr info \<Rightarrow>
       seq (out [bytes ''  '', pad 9 (dec_i32 tid), bytes '' '', pad 32 (name_to_str (ti_name info))]) (\<lambda>_.
       seq (outln [bytes ''prio '', dec_i32 (ti_initPriority info), bytes '' status 0x'', hex_u32 (ti_status info)])
         (\<lambda>_. ls_threads K tids)))"

definition cmd_ls_thread :: "'w kernel \<Rightarrow> u8 list list \<Rightarrow> ('w, unit) mon_act" where
  "cmd_ls_thread K args = run (pid_arg K args) (\<lambda>pid. case pid of
     None \<Rightarrow> seq (outln [bytes ''usage: ls thread <pid|titleid>'']) (\<lambda>_.
         outln [bytes ''ls thread: argument is not a pid or titleid''])
   | Some pid \<Rightarrow> caught (on_kernel (get_thread_ids K pid)) (\<lambda>r. case r of
       Inl err \<Rightarrow> outln [bytes ''ls thread: pid='', dec_i32 pid, bytes '' '', show_error err]
     | Inr tids \<Rightarrow> ls_threads K tids))"

fun ls_modules :: "'w kernel \<Rightarrow> sce_uid \<Rightarrow> sce_uid list \<Rightarrow> ('w, unit) mon_act" where
  "ls_modules K pid [] = ret ()"
| "ls_modules K pid (modid # modids) = caught (on_kernel (get_module_info K pid modid)) (\<lambda>r. case r of
     Inl err \<Rightarrow> seq (outln [bytes ''modid='', dec_i32 modid, bytes ''  (get info '', show_error err, bytes '')''])
       (\<lambda>_. ls_modules K pid modids)
   | Inr info \<Rightarrow>
       seq (out [pad 9 (dec_i32 modid), bytes '' '', pad 32 (name_to_str (mi_module_name info))]) (\<lambda>_.
       seq (outln [bytes '' state=0x'', hex_u32 (mi_state info), bytes '' path='', name_to_str (mi_path info)])
         (\<lambda>_. ls_modules K pid modids)))"

definition cmd_ls_module :: "'w kernel \<Rightarrow> u8 list list \<Rightarrow> ('w, unit) mon_act" where
  "cmd_ls_module K args = run (pid_arg K args) (\<lambda>pid. case pid of
     None \<Rightarrow> seq (outln [bytes ''usage: ls module <pid|titleid>'']) (\<lambda>_.
         outln [bytes ''ls module: argument is not a pid or titleid''])
   | Some pid \<Rightarrow> caught (on_kernel (get_module_ids K pid)) (\<lambda>r. case r of
       Inl err \<Rightarrow> outln [bytes ''ls module: pid='', dec_i32 pid, bytes '' '', show_error err]
     | Inr modids \<Rightarrow> ls_modules K pid modids))"

definition cmd_ls :: "'w kernel \<Rightarrow> u8 list list \<Rightarrow> ('w, unit) mon_act" where
  "cmd_ls K args = (case args of
     sub # rest \<Rightarrow>
       if sub = bytes ''process'' then cmd_ls_process K
       else if sub = bytes ''thread'' then cmd_ls_thread K rest
       else if sub = bytes ''module'' then cmd_ls_module K rest
       else outln [bytes ''usage: ls <process|thread|module> [pid]'']
   | [] \<Rightarrow> outln [bytes ''usage: ls <process|thread|module> [pid]''])"

definition cmd_info :: "'w kernel \<Rightarrow> u8 list list \<Rightarrow> ('w, unit) mon_act" where
  "cmd_info K args = (case args of
     sub # rest \<Rightarrow>
       if sub = bytes ''process'' then cmd_ls_process K
       else if sub = bytes ''thread'' then cmd_ls_thread K rest
       else outln [bytes ''usage: ls <process|thread> [pid]'']
   | [] \<Rightarrow> outln [bytes ''usage: ls <process|thread> [pid]''])"

definition lookup_nid :: "u32 \<Rightarrow> u32 option" where
  "lookup_nid nid = None"

definition cmd_lookup_nid :: "u8 list list \<Rightarrow> ('w, unit) mon_act" where
  "cmd_lookup_nid args = (case args of
     [] \<Rightarrow> outln [bytes ''usage: nid <func_nid>'']
   | nid_str # _ \<Rightarrow> (case parse_num nid_str of
        None \<Rightarrow> outln [bytes ''nid: '', [0x27], nid_str, [0x27], bytes '' is not a valid'']
      | Some nid \<Rightarrow> (case lookup_nid nid of
          Some addr \<Rightarrow> outln [bytes ''0x'', hex_u32 addr]
        | None \<Rightarrow> outln [bytes ''not found''])))"

text \<open>The optional last argument: none, \<open>S\<close> for the secure side, or anything else.\<close>

definition secure_arg :: "u8 list list \<Rightarrow> bool option" where
  "secure_arg args = (case args of [] \<Rightarrow> Some False | s # _ \<Rightarrow> if s = bytes ''S'' then Some True else None)"

definition cmd_peek :: "'w kernel \<Rightarrow> 'w boot \<Rightarrow> u8 list list \<Rightarrow> ('w, unit) mon_act" where
  "cmd_peek K B args = (case args of
     [] \<Rightarrow> outln [bytes ''usage: peek <addr> [S]'']
   | arg # rest \<Rightarrow> (case parse_num arg of
        None \<Rightarrow> outln [bytes ''addr not valid'']
      | Some addr \<Rightarrow> (case secure_arg rest of
          None \<Rightarrow> outln [bytes ''usage: peek <addr> [S]'']
        | Some secure \<Rightarrow>
            seq (if secure then on_mep (mep_read32 K B addr) else on_kernel (phys_read32 K addr)) (\<lambda>value.
            outln [hex_u32 value]))))"

definition cmd_poke :: "'w kernel \<Rightarrow> 'w boot \<Rightarrow> u8 list list \<Rightarrow> ('w, unit) mon_act" where
  "cmd_poke K B args = (case args of
     dst # value # rest \<Rightarrow> (case (parse_num dst, parse_num value) of
        (Some dst, Some value) \<Rightarrow> (case secure_arg rest of
          None \<Rightarrow> outln [bytes ''usage: poke <addr> <value> [S]'']
        | Some secure \<Rightarrow>
            seq (if secure then on_mep (mep_write32 K B dst value) else on_kernel (phys_write32 K dst value)) (\<lambda>_.
            outln [bytes ''OK'']))
      | _ \<Rightarrow> outln [bytes ''dst or value not valid''])
   | _ \<Rightarrow> outln [bytes ''usage: poke <dst> <value> [S]''])"

definition handle_monitor_cmd :: "'w kernel \<Rightarrow> 'w boot \<Rightarrow> u8 list \<Rightarrow> ('w, unit) mon_act" where
  "handle_monitor_cmd K B input =
     (if \<not> utf8_ok input then outln [bytes ''command must be valid UTF-8'']
      else (case split_ascii_whitespace [] input of
        [] \<Rightarrow> cmd_help
      | cmd # args \<Rightarrow>
          if cmd = bytes ''dump'' then cmd_dump
          else if cmd = bytes ''ps'' then cmd_ls_process K
          else if cmd = bytes ''ls'' then cmd_ls K args
          else if cmd = bytes ''info'' then cmd_info K args
          else if cmd = bytes ''nid'' then cmd_lookup_nid args
          else if cmd = bytes ''peek'' then cmd_peek K B args
          else if cmd = bytes ''poke'' then cmd_poke K B args
          else cmd_help))"

end
