(* ===== verification/Monitor_Props.thy ===== *)
theory Monitor_Props
  imports Monitor "HOL-Library.Sublist"
begin

text \<open>
  The monitor commands: the numbers they print are read back as they were, and no command
  touches the debugging session.
\<close>

section \<open>Numbers\<close>

lemma parse_digits_append:
  "parse_digits radix limit acc (xs @ ys) =
     Option.bind (parse_digits radix limit acc xs) (\<lambda>acc. parse_digits radix limit acc ys)"
  by (induction xs arbitrary: acc) (auto split: option.split)

lemma digit_of_hex: "d < 16 \<Longrightarrow> digit_of 16 (hex_digit d) = Some d"
proof -
  assume "d < 16"
  then have "d = 0 \<or> d = 1 \<or> d = 2 \<or> d = 3 \<or> d = 4 \<or> d = 5 \<or> d = 6 \<or> d = 7 \<or> d = 8 \<or> d = 9 \<or>
      d = 10 \<or> d = 11 \<or> d = 12 \<or> d = 13 \<or> d = 14 \<or> d = 15" by presburger
  then show ?thesis by (elim disjE) (simp_all add: digit_of_def hex_digit_def)
qed

lemma digit_of_dec: "d < 10 \<Longrightarrow> digit_of 10 (hex_digit d) = Some d"
  using digit_of_hex [of d] by (auto simp: digit_of_def Let_def split: if_splits)

lemma parse_hex: "n \<le> limit \<Longrightarrow> parse_digits 16 limit 0 (hex_nat n) = Some n"
proof (induction n rule: hex_nat.induct)
  case (1 n)
  show ?case
  proof (cases "n < 16")
    case True
    with 1 show ?thesis by (subst hex_nat.simps) (simp add: digit_of_hex)
  next
    case False
    have "n div 16 \<le> limit" using "1.prems" div_le_dividend le_trans by blast
    with False 1 show ?thesis by (subst hex_nat.simps) (simp add: parse_digits_append digit_of_hex)
  qed
qed

lemma parse_dec: "n \<le> limit \<Longrightarrow> parse_digits 10 limit 0 (dec_nat n) = Some n"
proof (induction n rule: dec_nat.induct)
  case (1 n)
  show ?case
  proof (cases "n < 10")
    case True
    with 1 show ?thesis by (subst dec_nat.simps) (simp add: digit_of_dec)
  next
    case False
    have "n div 10 \<le> limit" using "1.prems" div_le_dividend le_trans by blast
    with False 1 show ?thesis by (subst dec_nat.simps) (simp add: parse_digits_append digit_of_dec)
  qed
qed

lemma printed_nonempty: "hex_nat n \<noteq> []" "dec_nat n \<noteq> []"
  by (subst hex_nat.simps, simp) (subst dec_nat.simps, simp)

lemma parsed_digits: "parse_digits radix limit acc s = Some n \<Longrightarrow> b \<in> set s \<Longrightarrow> digit_of radix b \<noteq> None"
  by (induction s arbitrary: acc) (auto split: option.splits if_splits)

text \<open>A text of digits alone has no sign.\<close>

lemma no_sign:
  assumes "parse_digits radix limit acc s = Some n" "s \<noteq> []"
  shows "s \<noteq> bytes ''+''" "s \<noteq> bytes ''-''" "take 1 s \<noteq> bytes ''+''" "take 1 s \<noteq> bytes ''-''"
proof -
  obtain b t where s: "s = b # t" using assms(2) by (cases s) auto
  have "digit_of radix 43 = None" "digit_of radix 45 = None" by (simp_all add: digit_of_def Let_def)
  then have "b \<noteq> 43" "b \<noteq> 45" using parsed_digits [OF assms(1), of b] s by auto
  then show "s \<noteq> bytes ''+''" "s \<noteq> bytes ''-''" "take 1 s \<noteq> bytes ''+''" "take 1 s \<noteq> bytes ''-''"
    using s by (simp_all add: bytes_def)
qed

lemma parse_u32_digits:
  assumes "parse_digits radix (2 ^ 32 - 1) 0 s = Some n" "s \<noteq> []"
  shows "parse_u32 radix s = Some (of_nat n)"
  using assms no_sign [OF assms] by (simp add: parse_u32_def)

lemma u32_limit: "unat (n :: u32) \<le> 2 ^ 32 - 1"
  using unsigned_less [of n, where 'a = nat] by simp

text \<open>
  The numbers of the monitor commands survive being printed and read back: an address or
  value printed in hexadecimal and typed with \<open>0x\<close>, any number in decimal, and the signed
  process ids the listings print.
\<close>

theorem printed_numbers_parse_back:
  "parse_num (bytes ''0x'' @ hex_u32 n) = Some n \<and> parse_num (dec_nat (unat n)) = Some n \<and>
   parse_i32 (dec_i32 x) = Some x"
proof (intro conjI)
  have "parse_u32 16 (hex_nat (unat n)) = Some n"
    using parse_u32_digits [OF parse_hex [OF u32_limit] printed_nonempty(1)] by simp
  then show "parse_num (bytes ''0x'' @ hex_u32 n) = Some n"
    by (simp add: parse_num_def hex_u32_def bytes_def)
  let ?s = "dec_nat (unat n)"
  note dec = parse_dec [OF u32_limit [of n]]
  have "digit_of 10 120 = None" by (simp add: digit_of_def)
  then have "120 \<notin> set ?s" using parsed_digits [OF dec, of 120] by auto
  then have "take 2 ?s \<noteq> bytes ''0x''"
    by (auto simp: bytes_def dest!: arg_cong [where f = set] in_set_takeD [of "120"])
  then show "parse_num ?s = Some n"
    using parse_u32_digits [OF dec printed_nonempty(2)] by (simp add: parse_num_def)
  show "parse_i32 (dec_i32 x) = Some x"
  proof (cases "sint x < 0")
    case True
    have "- sint x \<le> 2 ^ 31" using sint_ge [of x] by simp
    then have p: "parse_digits 10 (2 ^ 31) 0 (dec_nat (nat (- sint x))) = Some (nat (- sint x))"
      by (intro parse_dec) simp
    have "- (of_nat (nat (- sint x)) :: i32) = x" using True by simp
    with True p printed_nonempty(2) show ?thesis
      by (simp add: parse_i32_def dec_i32_def bytes_def)
  next
    case False
    have "sint x \<le> 2 ^ 31 - 1" using sint_lt [of x] by simp
    then have p: "parse_digits 10 (2 ^ 31 - 1) 0 (dec_nat (nat (sint x))) = Some (nat (sint x))"
      by (intro parse_dec) simp
    with no_sign [OF p printed_nonempty(2)] False printed_nonempty(2) show ?thesis
      by (simp add: parse_i32_def dec_i32_def)
  qed
qed

section \<open>Commands and the session\<close>

text \<open>An action that adds to the console text and leaves the target and the sessions alone.\<close>

definition untouched :: "'w mon \<Rightarrow> 'w mon \<Rightarrow> bool" where
  "untouched m m' \<longleftrightarrow> tgt (m_sys m') = tgt (m_sys m) \<and> pool (m_sys m') = pool (m_sys m) \<and> prefix (m_out m) (m_out m')"

lemma untouched_refl [simp]: "untouched m m"
  by (simp add: untouched_def)

lemma untouched_trans: "untouched m m' \<Longrightarrow> untouched m' m'' \<Longrightarrow> untouched m m''"
  by (auto simp: untouched_def)

definition tame :: "('w mon \<Rightarrow> 'a \<times> 'w mon) \<Rightarrow> bool" where
  "tame f \<longleftrightarrow> (\<forall>m. untouched m (snd (f m)))"

lemma tameI: "(\<And>m x m'. f m = (x, m') \<Longrightarrow> untouched m m') \<Longrightarrow> tame f"
  unfolding tame_def by (metis prod.collapse)

lemma tameD: "tame f \<Longrightarrow> f m = (x, m') \<Longrightarrow> untouched m m'"
  by (metis tame_def snd_conv)

named_theorems tame_intros \<open>actions that leave the sessions alone\<close>

lemma tame_seq [tame_intros]: "tame f \<Longrightarrow> (\<And>x. tame (g x)) \<Longrightarrow> tame (seq f g)"
  by (rule tameI) (auto simp: seq_def split: prod.splits sum.splits intro: tameD untouched_trans)

lemma tame_run [tame_intros]: "tame f \<Longrightarrow> (\<And>x. tame (g x)) \<Longrightarrow> tame (run f g)"
  by (rule tameI) (auto simp: run_def split: prod.splits intro: tameD untouched_trans)

lemma tame_caught [tame_intros]: "tame f \<Longrightarrow> (\<And>x. tame (g x)) \<Longrightarrow> tame (caught f g)"
  by (rule tameI) (auto simp: caught_def split: prod.splits sum.splits fault.splits intro: tameD untouched_trans)

lemma tame_final [tame_intros]: "tame (ret x)" "tame (out ps)" "tame (outln ps)"
  by (simp_all add: tame_def untouched_def ret_def out_def outln_def)

lemma tame_calls [tame_intros]: "tame (on_kernel f)" "tame (on_mep h)"
  by (simp_all add: tame_def untouched_def on_kernel_def on_mep_def on_world_def split_beta)

lemma tame_case [tame_intros]:
  "tame f \<Longrightarrow> (\<And>x. tame (g x)) \<Longrightarrow> tame (case opt of None \<Rightarrow> f | Some x \<Rightarrow> g x)"
  "(\<And>x. tame (g1 x)) \<Longrightarrow> (\<And>x. tame (g2 x)) \<Longrightarrow> tame (case s of Inl x \<Rightarrow> g1 x | Inr x \<Rightarrow> g2 x)"
  "tame f \<Longrightarrow> (\<And>x xs. tame (g3 x xs)) \<Longrightarrow> tame (case l of [] \<Rightarrow> f | x # xs \<Rightarrow> g3 x xs)"
  "tame f \<Longrightarrow> tame h \<Longrightarrow> tame (if b then f else h)"
  by (simp_all split: option.splits sum.splits list.splits)

lemma tame_dump_table [tame_intros]: "tame (dump_table i as)"
  by (induction as arbitrary: i) (auto intro!: tame_intros)

lemma tame_ls [tame_intros]: "tame (ls_processes K pids)" "tame (ls_threads K tids)" "tame (ls_modules K pid modids)"
proof -
  show "tame (ls_processes K pids)" by (induction pids) (auto intro!: tame_intros)
  show "tame (ls_threads K tids)" by (induction tids) (auto intro!: tame_intros)
  show "tame (ls_modules K pid modids)" by (induction modids) (auto intro!: tame_intros)
qed

lemma tame_pid_arg [tame_intros]: "tame (pid_arg K args)"
proof (cases args)
  case Nil
  then show ?thesis by (simp add: tame_def pid_arg_def)
next
  case (Cons target rest)
  have "tame (on_kernel (resolve_pid_or_titleid K target))" by (rule tame_calls)
  then show ?thesis using Cons by (simp add: tame_def pid_arg_def)
qed

lemma tame_dump_session [tame_intros]: "tame (dump_session d)"
  unfolding dump_session_def by (intro tame_intros)

lemma tame_dump [tame_intros]: "tame cmd_dump"
  using tame_dump_session tame_final(3)
  by (intro tameI) (auto simp: cmd_dump_def split: option.splits intro: tameD)

lemma tame_help_cmd [tame_intros]: "tame (cmd_help)"
  unfolding cmd_help_def by (intro tame_intros)

lemma tame_ls_process_cmd [tame_intros]: "tame (cmd_ls_process K)"
  unfolding cmd_ls_process_def by (intro tame_intros)

lemma tame_ls_thread_cmd [tame_intros]: "tame (cmd_ls_thread K args)"
  unfolding cmd_ls_thread_def by (intro tame_intros)

lemma tame_ls_module_cmd [tame_intros]: "tame (cmd_ls_module K args)"
  unfolding cmd_ls_module_def by (intro tame_intros)

lemma tame_nid_cmd [tame_intros]: "tame (cmd_lookup_nid args)"
  unfolding cmd_lookup_nid_def by (intro tame_intros)

lemma tame_peek_cmd [tame_intros]: "tame (cmd_peek K B args)"
  unfolding cmd_peek_def by (intro tame_intros)

lemma tame_poke [tame_intros]: "tame (cmd_poke K B args)"
proof -
  have "tame (case p of (Some dst, Some value) \<Rightarrow> (f dst value :: ('w, unit) mon_act) | _ \<Rightarrow> g)"
    if "\<And>dst value. tame (f dst value)" "tame g" for p :: "u32 option \<times> u32 option" and f g
    using that by (auto split: prod.split option.split)
  note pair = this
  show ?thesis
    unfolding cmd_poke_def by (intro tame_intros pair)
qed

lemma tame_groups [tame_intros]: "tame (cmd_ls K args)" "tame (cmd_info K args)"
  unfolding cmd_ls_def cmd_info_def by (intro tame_intros)+

text \<open>
  No monitor command touches the debugging session: whatever is typed, and whatever the
  kernel answers, the target's state, every session with its breakpoints and events, and
  the console text already written stay as they were; a command only appends to the text.
\<close>

theorem monitor_leaves_sessions_alone:
  "tgt (m_sys (snd (handle_monitor_cmd K B input m))) = tgt (m_sys m) \<and>
   pool (m_sys (snd (handle_monitor_cmd K B input m))) = pool (m_sys m) \<and>
   prefix (m_out m) (m_out (snd (handle_monitor_cmd K B input m)))"
proof -
  have "tame (handle_monitor_cmd K B input)"
    unfolding handle_monitor_cmd_def by (intro tame_intros)
  then show ?thesis by (simp add: tame_def untouched_def)
qed

end
