(* ===== verification/Slot_Owner.thy ===== *)
theory Slot_Owner
  imports Event_Props Resume_Props Monitor_Props
begin

text \<open>
  Who owns the slots of the session pool. A worker's target owns the slot of its session, other
  workers own the slots in \<open>others\<close>, the rest are free. Every operation a worker does leaves it
  that way, and so does every handler.
\<close>

section \<open>Free and claimed slots\<close>

definition free_slot :: "session \<Rightarrow> bool" where
  "free_slot s \<longleftrightarrow> s_pid s = PID_UNUSED \<and> s_evflag s = None \<and> s_step s = None \<and> \<not> s_exited s \<and>
     contents (s_exceptions s) = [] \<and> addrs_of hb_addr (s_hw_breakpoints s) = {} \<and>
     addrs_of hw_addr (s_hw_watchpoints s) = {} \<and> addrs_of sb_addr (s_sw_breakpoints s) = {}"

definition claimed_by :: "sce_uid \<Rightarrow> session \<Rightarrow> bool" where
  "claimed_by flag s \<longleftrightarrow> s_pid s \<noteq> PID_UNUSED \<and> s_evflag s = Some flag"

definition pool_owned :: "nat set \<Rightarrow> 'w sys \<Rightarrow> bool" where
  "pool_owned others s \<longleftrightarrow> length (pool s) = MAX_SESSIONS \<and> (\<forall>i < MAX_SESSIONS. session_ok (pool s ! i)) \<and>
     (\<forall>i \<in> others. i < MAX_SESSIONS \<and> s_pid (pool s ! i) \<noteq> PID_UNUSED) \<and>
     (\<forall>i. t_session (tgt s) = Some i \<longrightarrow> i < MAX_SESSIONS \<and> i \<notin> others \<and> claimed_by (t_evflag (tgt s)) (pool s ! i)) \<and>
     (\<forall>i < MAX_SESSIONS. i \<notin> others \<longrightarrow> t_session (tgt s) \<noteq> Some i \<longrightarrow> free_slot (pool s ! i))"

text \<open>What an operation of a worker may do to the pool.\<close>

definition stays_owned :: "nat set \<Rightarrow> 'w sys \<Rightarrow> 'w sys \<Rightarrow> bool" where
  "stays_owned others s s' \<longleftrightarrow> (pool_owned others s \<longrightarrow> pool_owned others s' \<and>
     t_evflag (tgt s') = t_evflag (tgt s) \<and> (\<forall>i \<in> others. pool s' ! i = pool s ! i))"

definition orderly :: "('w sys \<Rightarrow> 'a \<times> 'w sys) \<Rightarrow> bool" where
  "orderly f \<longleftrightarrow> (\<forall>others s. stays_owned others s (snd (f s)))"

named_theorems orderly_intros \<open>operations that respect the owners of the slots\<close>

lemma stays_refl [simp]: "stays_owned others s s"
  by (simp add: stays_owned_def)

lemma stays_trans: "stays_owned others s s' \<Longrightarrow> stays_owned others s' s'' \<Longrightarrow> stays_owned others s s''"
  by (simp add: stays_owned_def)

lemma orderlyI: "(\<And>others s x s'. f s = (x, s') \<Longrightarrow> stays_owned others s s') \<Longrightarrow> orderly f"
  unfolding orderly_def by (metis prod.collapse)

lemma orderlyD: "orderly f \<Longrightarrow> f s = (x, s') \<Longrightarrow> stays_owned others s s'"
  by (metis orderly_def snd_conv)

lemma orderly_seq [orderly_intros]: "orderly f \<Longrightarrow> (\<And>x. orderly (g x)) \<Longrightarrow> orderly (seq f g)"
  by (rule orderlyI) (auto simp: seq_def split: prod.splits sum.splits intro: orderlyD stays_trans)

lemma orderly_run [orderly_intros]: "orderly f \<Longrightarrow> (\<And>x. orderly (g x)) \<Longrightarrow> orderly (run f g)"
  by (rule orderlyI) (auto simp: run_def split: prod.splits intro: orderlyD stays_trans)

lemma orderly_final [orderly_intros]: "orderly (ret x)" "orderly (throw e)"
  by (simp_all add: orderly_def ret_def throw_def)

text \<open>The owners see the pool, the target's session and its flag only.\<close>

lemma stays_same:
  assumes "pool s' = pool s" "t_session (tgt s') = t_session (tgt s)" "t_evflag (tgt s') = t_evflag (tgt s)"
  shows "stays_owned others s s'"
  using assms by (simp add: stays_owned_def pool_owned_def)

lemma orderly_world [orderly_intros]: "orderly (on_world f)"
  by (auto simp: orderly_def intro!: stays_same)

section \<open>Operations on the own session\<close>

text \<open>What the operations on a session leave as it is.\<close>

definition keeps_claim :: "session \<Rightarrow> session \<Rightarrow> bool" where
  "keeps_claim s s' \<longleftrightarrow> session_ok s' \<and> s_pid s' = s_pid s \<and> s_evflag s' = s_evflag s"

lemma owned_update:
  assumes "pool_owned others s" "t_session (tgt s) = Some i" "keeps_claim (pool s ! i) ses"
    and "pool s' = (pool s)[i := ses]" "t_session (tgt s') = Some i" "t_evflag (tgt s') = t_evflag (tgt s)"
  shows "pool_owned others s' \<and> (\<forall>j \<in> others. pool s' ! j = pool s ! j)"
  using assms by (auto simp: pool_owned_def keeps_claim_def claimed_by_def nth_list_update)

lemma stays_session:
  assumes "t_session (tgt s) = Some i" "session_ok (pool s ! i) \<Longrightarrow> keeps_claim (pool s ! i) ses"
    and "pool s' = (pool s)[i := ses]" "t_session (tgt s') = Some i" "t_evflag (tgt s') = t_evflag (tgt s)"
  shows "stays_owned others s s'"
  unfolding stays_owned_def using assms owned_update [of others s i ses s'] by (auto simp: pool_owned_def)

lemma claim_events:
  assumes "session_ok s"
  shows "keeps_claim s (fst (push_excp K ev s w))" "keeps_claim s (snd (pop_excp s))"
    "keeps_claim s (fst (push_exited K s w))" "keeps_claim s (snd (pop_exited s))"
    "keeps_claim s (set_step tid a s)" "keeps_claim s (snd (pop_step_finished s))"
  using ok_events [OF assms] by (auto simp: keeps_claim_def session_simps split: option.splits)

lemma same_owner [simp]:
  "s_pid (fst (snd (set_hw_breakpoint K a s w))) = s_pid s" "s_evflag (fst (snd (set_hw_breakpoint K a s w))) = s_evflag s"
  "s_pid (fst (snd (clear_hw_breakpoint K a s w))) = s_pid s" "s_evflag (fst (snd (clear_hw_breakpoint K a s w))) = s_evflag s"
  "s_pid (fst (snd (set_hw_watchpoint K a l k s w))) = s_pid s" "s_evflag (fst (snd (set_hw_watchpoint K a l k s w))) = s_evflag s"
  "s_pid (fst (snd (clear_hw_watchpoint K a s w))) = s_pid s" "s_evflag (fst (snd (clear_hw_watchpoint K a s w))) = s_evflag s"
  "s_pid (fst (snd (set_sw_breakpoint K a b s w))) = s_pid s" "s_evflag (fst (snd (set_sw_breakpoint K a b s w))) = s_evflag s"
  "s_pid (fst (snd (clear_sw_breakpoint K a s w))) = s_pid s" "s_evflag (fst (snd (clear_sw_breakpoint K a s w))) = s_evflag s"
  by (simp_all add: set_hw_breakpoint_def clear_hw_breakpoint_def set_hw_watchpoint_def clear_hw_watchpoint_def
      set_sw_breakpoint_def clear_sw_breakpoint_def Let_def split: prod.split bool.split option.split sum.split)

lemma claim_tables:
  assumes "session_ok s"
  shows "keeps_claim s (fst (snd (set_hw_breakpoint K a s w)))" "keeps_claim s (fst (snd (clear_hw_breakpoint K a s w)))"
    "keeps_claim s (fst (snd (set_hw_watchpoint K a l k s w)))" "keeps_claim s (fst (snd (clear_hw_watchpoint K a s w)))"
    "keeps_claim s (fst (snd (set_sw_breakpoint K a b s w)))" "keeps_claim s (fst (snd (clear_sw_breakpoint K a s w)))"
  by (simp_all add: keeps_claim_def ok_hw ok_wp ok_sw assms)

lemma claim_step_finished:
  assumes "session_ok s" shows "keeps_claim s (fst (snd (step_finished K s w)))"
proof -
  have "s_pid s' = s_pid s" "s_evflag s' = s_evflag s"
    if "clear_sw_breakpoint K a (s\<lparr>s_step := None\<rparr>) w = (b, s', w')" for a b s' w'
    using same_owner(11,12) [of K a "s\<lparr>s_step := None\<rparr>" w] that by simp_all
  then have "s_pid (fst (snd (step_finished K s w))) = s_pid s \<and> s_evflag (fst (snd (step_finished K s w))) = s_evflag s"
    by (auto simp: step_finished_def Let_def split: option.splits prod.splits)
  then show ?thesis using ok_step_finished [OF assms] by (simp add: keeps_claim_def)
qed

section \<open>Attaching and detaching\<close>

lemma dropped_is_free:
  assumes "session_ok s" "gdb_session_drop K s w = Some (s', w')"
  shows "session_ok s' \<and> free_slot s'"
proof -
  let ?s = "fst (clear_all K s w)"
  have ok: "session_ok ?s" by (rule ok_clear_all [OF assms(1)])
  have r: "reset K ?s (snd (clear_all K s w)) = Some (s', w')"
    using assms(2) by (simp add: gdb_session_drop_def split_beta)
  have "contents ((s_exceptions ?s)\<lparr>tail := head (s_exceptions ?s)\<rparr>) = []"
    using cleared_empty [of "s_exceptions ?s"] ok by (simp add: session_ok_def)
  then show ?thesis
    using ok_reset [OF ok r] r reset_effect [OF ok, of K] by (auto simp: free_slot_def)
qed

lemma detach_stays:
  assumes "target_detach K s = Some s'"
  shows "stays_owned others s s'" "pool_owned others s \<Longrightarrow> t_session (tgt s') = None"
proof -
  have "pool_owned others s' \<and> t_evflag (tgt s') = t_evflag (tgt s) \<and> (\<forall>i \<in> others. pool s' ! i = pool s ! i) \<and>
      t_session (tgt s') = None" if ok: "pool_owned others s"
  proof (cases "t_session (tgt s)")
    case None
    with assms ok show ?thesis by (simp add: target_detach_def)
  next
    case (Some i)
    then have i: "i < MAX_SESSIONS" "i \<notin> others" "session_ok (pool s ! i)" "length (pool s) = MAX_SESSIONS"
      using ok by (simp_all add: pool_owned_def)
    obtain ses w where c: "clear_all K (pool s ! i) (wld s) = (ses, w)" by (metis prod.exhaust)
    have ses: "session_ok ses" using ok_clear_all [OF i(3), of K "wld s"] c by simp
    obtain w1 ses' w2 where d: "gdb_session_drop K ses w1 = Some (ses', w2)"
        "s' = \<lparr>tgt = (tgt s)\<lparr>t_session := None, t_detached := True\<rparr>, pool = (pool s)[i := ses'], wld = w2\<rparr>"
      using assms Some c by (auto simp: target_detach_def Let_def split: option.splits)
    from dropped_is_free [OF ses d(1)] ok Some i d(2) show ?thesis by (auto simp: pool_owned_def nth_list_update)
  qed
  then show "stays_owned others s s'" "pool_owned others s \<Longrightarrow> t_session (tgt s') = None"
    by (simp_all add: stays_owned_def)
qed

lemma attach_stays:
  assumes "target_attach pid kind s = (b, s')" "pid \<noteq> PID_UNUSED"
  shows "stays_owned others s s'"
proof (cases "t_session (tgt s) = None \<and> fst (gdb_session_new (t_evflag (tgt s)) pid (pool s)) \<noteq> None")
  case False
  then show ?thesis
    using assms(1) by (auto simp: target_attach_def gdb_session_new_def Let_def split: if_splits option.splits)
next
  case True
  then obtain i p where new: "gdb_session_new (t_evflag (tgt s)) pid (pool s) = (Some i, p)"
    by (cases "gdb_session_new (t_evflag (tgt s)) pid (pool s)") auto
  note slot = claimed_slot [OF new]
  have s': "s' = s\<lparr>pool := p, tgt := (tgt s)\<lparr>t_session := Some i, t_detached := False, t_attach_kind := kind\<rparr>\<rparr>"
    using assms(1) True new by (simp add: target_attach_def)
  have "pool_owned others s' \<and> (\<forall>j \<in> others. pool s' ! j = pool s ! j)" if ok: "pool_owned others s"
  proof -
    have i: "i < MAX_SESSIONS" "i \<notin> others" "session_ok (pool s ! i)" using ok slot(1,2) by (auto simp: pool_owned_def)
    let ?new = "(pool s ! i)\<lparr>s_pid := pid, s_evflag := Some (t_evflag (tgt s))\<rparr>"
    have new_ok: "session_ok ?new" "claimed_by (t_evflag (tgt s)) ?new"
      using i(3) assms(2) by (simp_all add: session_ok_def claimed_by_def)
    have p: "p = (pool s)[i := ?new]" "length (pool s) = MAX_SESSIONS" using slot(4) ok by (simp_all add: pool_owned_def)
    show ?thesis using ok True i new_ok p by (auto simp: s' pool_owned_def nth_list_update)
  qed
  then show ?thesis by (simp add: stays_owned_def s')
qed

section \<open>The requests of the protocol library\<close>

text \<open>Requests that ask or act on the world alone.\<close>

lemma orderly_plain:
  assumes "\<And>s x s'. f s = (x, s') \<Longrightarrow> tgt s' = tgt s \<and> pool s' = pool s"
  shows "orderly f"
  using assms by (intro orderlyI stays_same) metis+

lemma world_result: "on_world f s = (x, s') \<Longrightarrow> tgt s' = tgt s \<and> pool s' = pool s"
  by (auto simp: on_world_def split: prod.splits)

lemma orderly_process_requests [orderly_intros]:
  "orderly (kill K pid)" "orderly (get_libraries K off dst)" "orderly (process_info K)"
  "orderly (get_exec_file K pid off l dst)" "orderly (support_hw K)"
proof -
  show "orderly (kill K pid)"
    by (rule orderly_plain) (auto simp: kill_def split: option.splits prod.splits sum.splits dest!: world_result)
  show "orderly (get_libraries K off dst)"
    by (rule orderly_plain)
      (auto simp: get_libraries_def Let_def split: option.splits prod.splits sum.splits fault.splits dest!: world_result)
  show "orderly (process_info K)" unfolding process_info_def by (intro orderly_intros)
  show "orderly (get_exec_file K pid off l dst)"
    by (rule orderly_plain)
      (auto simp: get_exec_file_def Let_def split: option.splits prod.splits sum.splits if_splits dest!: world_result)
  show "orderly (support_hw K)" unfolding support_hw_def by (intro orderly_intros)
qed

lemma orderly_register_requests [orderly_intros]:
  "orderly (read_registers K regs tid)" "orderly (write_registers K regs tid)"
  "orderly (read_register K tid rid n)" "orderly (write_register K tid rid val)"
proof -
  show "orderly (read_registers K regs tid)"
    by (rule orderly_plain) (auto simp: read_registers_def Let_def split: option.splits prod.splits sum.splits if_splits dest!: world_result)
  show "orderly (write_registers K regs tid)"
    by (rule orderly_plain) (auto simp: write_registers_def split: prod.splits sum.splits dest!: world_result)
  show "orderly (read_register K tid rid n)"
    by (rule orderly_plain) (auto simp: read_register_def split: reg_id.splits option.splits prod.splits sum.splits if_splits dest!: world_result)
  show "orderly (write_register K tid rid val)"
    by (rule orderly_plain) (auto simp: write_register_def split: prod.splits sum.splits if_splits dest!: world_result)
qed

lemma orderly_memory_requests [orderly_intros]:
  "orderly (read_addrs K start data)" "orderly (write_addrs K start data)"
proof -
  show "orderly (read_addrs K start data)"
    by (rule orderly_plain) (auto simp: read_addrs_def split: option.splits prod.splits sum.splits dest!: world_result)
  show "orderly (write_addrs K start data)"
    by (rule orderly_plain) (auto simp: write_addrs_def split: option.splits prod.splits sum.splits dest!: world_result)
qed

lemma orderly_thread_requests [orderly_intros]:
  "orderly (list_active_threads K)" "orderly (is_thread_alive K tid)" "orderly (thread_extra_info K tid dst)"
proof -
  show "orderly (list_active_threads K)"
    by (rule orderly_plain)
      (auto simp: list_active_threads_def seq_def ret_def throw_def split: option.splits prod.splits sum.splits if_splits dest!: world_result)
  show "orderly (is_thread_alive K tid)"
    by (rule orderly_plain) (auto simp: is_thread_alive_def split: prod.splits sum.splits dest!: world_result)
  show "orderly (thread_extra_info K tid dst)"
    by (rule orderly_plain)
      (auto simp: thread_extra_info_def seq_def ret_def Let_def split: prod.splits sum.splits if_splits dest!: world_result)
qed

section \<open>Requests on the tables of the session\<close>

text \<open>
  What the target relies on when it hands a request to its session: the operation keeps the session
  well formed and claimed. The hardware operations also answer without a panic as long as the
  session has a process.
\<close>

locale session_operation =
  fixes op :: "session \<Rightarrow> 'w \<Rightarrow> 'a \<times> session \<times> 'w"
  assumes op_claim: "session_ok s \<Longrightarrow> keeps_claim s (fst (snd (op s w)))"
begin

lemma on_own_session:
  assumes "t_session (tgt s) = Some i" "on_session i op s = (x, s')"
  shows "stays_owned others s s'"
  using assms op_claim [of "pool s ! i" "wld s"]
  by (intro stays_session [where ses = "fst (snd (op (pool s ! i) (wld s)))"]) (auto simp: on_session_def split: prod.splits)

end

locale hardware_operation = session_operation op
  for op :: "session \<Rightarrow> 'w \<Rightarrow> (sce_error, bool) res \<times> session \<times> 'w" +
  assumes op_answers: "s_pid s \<noteq> PID_UNUSED \<Longrightarrow> fst (op s w) \<noteq> panic"
begin

lemma guarded_claim: "session_ok s \<Longrightarrow> keeps_claim s (fst (snd (if_debugging K op s w)))"
  using op_claim by (auto simp: if_debugging_def keeps_claim_def split: prod.splits bool.splits)

lemma guarded_answers: "s_pid s \<noteq> PID_UNUSED \<Longrightarrow> fst (if_debugging K op s w) \<noteq> panic"
  using op_answers by (auto simp: if_debugging_def split: prod.split bool.split)

lemma request_orderly: "orderly (hw_request (if_debugging K op))"
  by (rule orderlyI) (auto simp: hw_request_def
      intro: session_operation.on_own_session [OF session_operation.intro [OF guarded_claim]]
      split: option.splits prod.splits sum.splits fault.splits)

lemma request_answers:
  assumes "\<And>i. t_session (tgt s) = Some i \<Longrightarrow> s_pid (pool s ! i) \<noteq> PID_UNUSED"
  shows "fst (hw_request (if_debugging K op) s) \<noteq> panic"
proof (cases "t_session (tgt s)")
  case (Some i)
  obtain r ses w where r: "if_debugging K op (pool s ! i) (wld s) = (r, ses, w)" by (metis prod.exhaust)
  then have "r \<noteq> panic" using guarded_answers [OF assms [OF Some], of K "wld s"] by simp
  with Some r show ?thesis
    by (cases r rule: sum.exhaust) (auto simp: hw_request_def on_session_def split: fault.splits)
qed (simp add: hw_request_def)

end

text \<open>The session's operations provide this.\<close>

lemma sce_call_no_panic: "sce_call name call w = (Inl e, w') \<Longrightarrow> e \<noteq> Panicked"
  by (auto simp: sce_call_def split: prod.splits if_splits)

lemma hw_no_panic:
  assumes "s_pid s \<noteq> PID_UNUSED"
  shows "fst (set_hw_breakpoint K a s w) \<noteq> panic" "fst (clear_hw_breakpoint K a s w) \<noteq> panic"
    "fst (set_hw_watchpoint K a l kind s w) \<noteq> panic" "fst (clear_hw_watchpoint K a s w) \<noteq> panic"
  using assms
  by (auto simp: set_hw_breakpoint_def clear_hw_breakpoint_def set_hw_watchpoint_def clear_hw_watchpoint_def
      session_pid_def Let_def dest: sce_call_no_panic split: prod.splits bool.splits option.splits sum.splits)

interpretation set_sw: session_operation "set_sw_breakpoint K a kind" for K :: "'w kernel" and a kind
  by unfold_locales (rule claim_tables(5))

interpretation clear_sw: session_operation "clear_sw_breakpoint K a" for K :: "'w kernel" and a
  by unfold_locales (rule claim_tables(6))

interpretation set_hw: hardware_operation "set_hw_breakpoint K a" for K :: "'w kernel" and a
  by unfold_locales (rule claim_tables(1), assumption, rule hw_no_panic(1))

interpretation clear_hw: hardware_operation "clear_hw_breakpoint K a" for K :: "'w kernel" and a
  by unfold_locales (rule claim_tables(2), assumption, rule hw_no_panic(2))

interpretation set_wp: hardware_operation "set_hw_watchpoint K a l kind" for K :: "'w kernel" and a l kind
  by unfold_locales (rule claim_tables(3), assumption, rule hw_no_panic(3))

interpretation clear_wp: hardware_operation "clear_hw_watchpoint K a" for K :: "'w kernel" and a
  by unfold_locales (rule claim_tables(4), assumption, rule hw_no_panic(4))

lemmas hw_request_defs = add_hw_breakpoint_def remove_hw_breakpoint_def add_hw_watchpoint_def remove_hw_watchpoint_def
  gdb_session_set_hw_breakpoint_def gdb_session_clear_hw_breakpoint_def
  gdb_session_set_hw_watchpoint_def gdb_session_clear_hw_watchpoint_def

lemma orderly_breakpoint_requests [orderly_intros]:
  "orderly (add_sw_breakpoint K a k)" "orderly (remove_sw_breakpoint K a)"
  "orderly (add_hw_breakpoint K a)" "orderly (remove_hw_breakpoint K a)"
  "orderly (add_hw_watchpoint K a l wk)" "orderly (remove_hw_watchpoint K a)"
proof -
  show "orderly (add_sw_breakpoint K a k)" "orderly (remove_sw_breakpoint K a)"
    by (rule orderlyI, auto simp: add_sw_breakpoint_def remove_sw_breakpoint_def
        intro: set_sw.on_own_session clear_sw.on_own_session split: option.splits prod.splits)+
  show "orderly (add_hw_breakpoint K a)" "orderly (remove_hw_breakpoint K a)"
    "orderly (add_hw_watchpoint K a l wk)" "orderly (remove_hw_watchpoint K a)"
    unfolding hw_request_defs
    by (rule set_hw.request_orderly clear_hw.request_orderly set_wp.request_orderly clear_wp.request_orderly)+
qed

text \<open>Resuming.\<close>

lemma plan_step_end:
  assumes "plan_step A K pid tid s = (x, s')"
    and "read_registers K default_regs tid (s\<lparr>tgt := (tgt s)\<lparr>t_step_action := None\<rparr>\<rparr>) = ((r, regs), s2)"
  shows "s' = s\<lparr>tgt := (tgt s)\<lparr>t_step_action := None\<rparr>\<rparr> \<or> s' = s2 \<or>
    (\<exists>i addr kind b t. t_session (tgt s2) = Some i \<and> on_session i (set_sw_breakpoint K addr kind) s2 = (b, t) \<and>
       s' = t\<lparr>pool := (pool t)[i := set_step tid addr (pool t ! i)]\<rparr>)"
proof (cases r rule: sum.exhaust)
  case (Inl e)
  then show ?thesis using assms by (cases e) (auto simp: plan_step_def Let_def split: if_splits)
next
  case (Inr u)
  let ?np = "next_pc A (arm_reg_context (pipeline_pc regs)) (vita_read K pid (wld s2))"
  show ?thesis
  proof (cases ?np rule: sum.exhaust)
    case (Inl e)
    then show ?thesis using assms Inr by (cases e) (auto simp: plan_step_def Let_def split: if_splits)
  next
    fix p assume np: "?np = Inr p"
    obtain addr to_thumb where p: "p = (addr, to_thumb)" by (cases p)
    show ?thesis
    proof (cases "t_session (tgt s2)")
      case None
      then show ?thesis using assms Inr np p by (auto simp: plan_step_def Let_def split: if_splits)
    next
      case (Some i)
      obtain b t where "on_session i (set_sw_breakpoint K addr (if to_thumb then Thumb16 else Arm32)) s2 = (b, t)"
        by (metis prod.exhaust)
      then show ?thesis using assms Inr np p Some by (simp add: plan_step_def Let_def split: if_splits) blast+
    qed
  qed
qed

lemma orderly_plan_step [orderly_intros]: "orderly (plan_step A K pid tid)"
proof (rule orderlyI)
  fix others s x s'
  assume plan: "plan_step A K pid tid s = (x, s')"
  let ?s = "s\<lparr>tgt := (tgt s)\<lparr>t_step_action := None\<rparr>\<rparr>"
  obtain r regs s2 where read: "read_registers K default_regs tid ?s = ((r, regs), s2)" by (metis prod.exhaust)
  then have "tgt s2 = tgt ?s \<and> pool s2 = pool ?s"
    by (auto simp: read_registers_def Let_def split: option.splits prod.splits sum.splits if_splits dest!: world_result)
  moreover have "stays_owned others s2 s3"
    if "t_session (tgt s2) = Some i" "on_session i (set_sw_breakpoint K a kind) s2 = (b, t)"
      "s3 = t\<lparr>pool := (pool t)[i := set_step tid a (pool t ! i)]\<rparr>" for i a kind b t s3
  proof (rule stays_session [OF that(1)])
    let ?ses = "fst (snd (set_sw_breakpoint K a kind (pool s2 ! i) (wld s2)))"
    have "keeps_claim (pool s2 ! i) ?ses" if "session_ok (pool s2 ! i)" using that by (rule claim_tables(5))
    then show "keeps_claim (pool s2 ! i) (set_step tid a ?ses)" if "session_ok (pool s2 ! i)"
      using that claim_events(5) by (auto simp: keeps_claim_def)
    have t: "pool t = (pool s2)[i := ?ses]" "tgt t = tgt s2"
      using that(2) by (auto simp: on_session_def split_beta)
    show "pool s3 = (pool s2)[i := set_step tid a ?ses]"
      by (cases "i < length (pool s2)") (auto simp: that(3) t list_update_beyond)
    show "t_session (tgt s3) = Some i" "t_evflag (tgt s3) = t_evflag (tgt s2)"
      using that(1) by (simp_all add: that(3) t)
  qed
  ultimately have "stays_owned others s2 s' \<or> s' = s2 \<or> s' = ?s"
    using plan_step_end [OF plan read] by blast
  moreover have "stays_owned others s s2" "stays_owned others s ?s"
    using \<open>tgt s2 = tgt ?s \<and> pool s2 = pool ?s\<close> by (auto intro!: stays_same)
  ultimately show "stays_owned others s s'" using stays_trans by blast
qed

lemma stays_act: "orderly f \<Longrightarrow> stays_owned others s (snd (f s))"
  by (simp add: orderly_def)

lemma stays_seq:
  assumes "stays_owned others s (snd (f s))" "\<And>x t. stays_owned others t (snd (g x t))"
  shows "stays_owned others s (snd (seq f g s))"
  using assms(1) stays_trans [OF _ assms(2)] by (auto simp: seq_def split: prod.splits sum.splits)

lemma orderly_if [orderly_intros]: "orderly f \<Longrightarrow> orderly g \<Longrightarrow> orderly (if b then f else g)"
  by simp

lemma orderly_resume [orderly_intros]:
  fixes K :: "'w kernel"
  shows "orderly (resume_thread A K pid tid)" "orderly (resume_loop A K pid tids)" "orderly (resume A K)"
proof -
  show thread: "orderly (resume_thread A K pid tid)" for tid pid
    unfolding orderly_def resume_thread_def Let_def
    by (intro allI stays_seq; rule stays_act) (intro orderly_intros)+
  show loop: "orderly (resume_loop A K pid tids)" for pid tids
    by (induction tids) (auto intro!: orderly_intros thread)
  show "orderly (resume A K)"
    unfolding orderly_def
  proof (intro allI)
    fix others and s :: "'w sys"
    show "stays_owned others s (snd (resume A K s))"
    proof (cases "target_pid s")
      case (Some pid)
      then show ?thesis
        unfolding resume_def Some option.case
        by (intro stays_seq) (auto intro!: stays_act orderly_intros loop)
    qed (simp add: resume_def)
  qed
qed

lemma orderly_actions [orderly_intros]:
  "orderly clear_resume_actions" "orderly (set_resume_action_continue tid signal)"
  "orderly (set_resume_action_step tid signal)" "orderly set_resume_action_scheduler_lock"
  by (auto simp: orderly_def clear_resume_actions_def set_resume_action_continue_def
      set_resume_action_step_def set_resume_action_scheduler_lock_def intro!: stays_same)

text \<open>Attaching and launching detach first; a launched process has a real process id.\<close>

lemma stays_result: "on_world f s = (x, s') \<Longrightarrow> stays_owned others s s'"
  using orderlyD [OF orderly_world] .

lemma stays_trans3: "stays_owned others a b \<Longrightarrow> stays_owned others b c \<Longrightarrow> stays_owned others c d \<Longrightarrow> stays_owned others a d"
  by (simp add: stays_owned_def)

lemma extended_attach_stays:
  assumes "extended_attach K pid s = Some (x, s')" "pid \<noteq> PID_UNUSED"
  shows "stays_owned others s s'"
proof (cases "pid = FAKE_PID \<or> pid = 0x10005")
  case False
  then obtain s1 where d: "target_detach K s = Some s1" using assms(1) by (auto simp: extended_attach_def)
  obtain b s2 where t: "target_attach pid AttachAttach s1 = (b, s2)" by (metis prod.exhaust)
  have two: "stays_owned others s s1" "stays_owned others s1 s2" by (rule detach_stays [OF d], rule attach_stays [OF t assms(2)])
  obtain r s3 where h: "on_world (halt_process K pid) s2 = (r, s3)" by (metis prod.exhaust)
  have "s' = s2 \<or> s' = s3"
    using assms(1) False d t h by (cases b; cases r rule: sum.exhaust; auto simp: extended_attach_def split: fault.splits)
  with two stays_result [OF h] stays_trans stays_trans3 show ?thesis by blast
qed (use assms(1) in \<open>simp add: extended_attach_def\<close>)

lemma launched_pid:
  assumes "on_world (sce_call name call) s = (Inr (pid, x), s')" shows "pid \<noteq> PID_UNUSED"
proof
  assume "pid = PID_UNUSED"
  then have "sint pid = - 1" by (simp add: PID_UNUSED_def)
  with assms show False by (auto simp: on_world_def sce_call_def split: prod.splits if_splits)
qed

text \<open>What launching does once the process is there.\<close>

definition after_launch :: "'w kernel \<Rightarrow> sce_uid \<Rightarrow> 'w sys \<Rightarrow> ((target_error, sce_uid) res \<times> 'w sys) option" where
  "after_launch K pid s = Option.bind (target_detach K s) (\<lambda>s. (case target_attach pid AttachRun s of
     (False, s) \<Rightarrow> Some (Err NonFatal, s)
   | (True, s) \<Rightarrow> (case on_world (evf_wait_timeout K (t_evflag (tgt s)) EV_PROCESS_STARTED WAITCLEAR_PAT 10000000) s of
       (Inr (Some _), s) \<Rightarrow> Some (if pid = 0 then Err NonFatal else Ok pid, s)
     | (Inl Panicked, s) \<Rightarrow> Some (panic, s)
     | (_, s) \<Rightarrow> map_option (\<lambda>s. (Err NonFatal, s)) (target_detach K s))))"

lemma after_launch_stays:
  assumes "after_launch K pid s = Some (x, s')" "pid \<noteq> PID_UNUSED"
  shows "stays_owned others s s'"
proof -
  obtain s1 where d: "target_detach K s = Some s1" using assms(1) by (cases "target_detach K s") (auto simp: after_launch_def)
  obtain b s2 where t: "target_attach pid AttachRun s1 = (b, s2)" by (metis prod.exhaust)
  have two: "stays_owned others s s2"
    using stays_trans [OF detach_stays(1) [OF d] attach_stays [OF t assms(2)]] .
  let ?wait = "on_world (evf_wait_timeout K (t_evflag (tgt s2)) EV_PROCESS_STARTED WAITCLEAR_PAT 10000000) s2"
  obtain r s3 where w: "?wait = (r, s3)" by (metis prod.exhaust)
  have three: "stays_owned others s s3" using stays_trans [OF two stays_result [OF w]] .
  have "s' = s2 \<or> s' = s3 \<or> target_detach K s3 = Some s'"
    using assms(1) d t w
    by (cases b; cases r rule: sum.exhaust; auto simp: after_launch_def split: fault.splits option.splits)
  with two three detach_stays(1) stays_trans show ?thesis by blast
qed

lemma extended_run_stays:
  assumes "extended_run K filename s = Some (x, s')"
  shows "stays_owned others s s'"
proof -
  consider "s' = s" | path args e s1 where
      "on_world (sce_call ''ksceAppMgrLaunchAppByPath'' (ksceAppMgrLaunchAppByPath K path args 0x80000000 (push_bit 31 1))) s = (Inl e, s1)" "s' = s1"
    | path args pid y s1 where
      "on_world (sce_call ''ksceAppMgrLaunchAppByPath'' (ksceAppMgrLaunchAppByPath K path args 0x80000000 (push_bit 31 1))) s = (Inr (pid, y), s1)"
      "after_launch K pid s1 = Some (x, s')"
    using assms unfolding extended_run_def after_launch_def [symmetric]
    by (auto split: option.splits if_splits sum.splits prod.splits)
  then show ?thesis
  proof cases
    case 2
    then show ?thesis by (simp add: stays_result [OF 2(1)])
  next
    case 3
    show ?thesis
      by (rule stays_trans [OF stays_result [OF 3(1)] after_launch_stays [OF 3(2) launched_pid [OF 3(1)]]])
  qed simp
qed

text \<open>They return: draining the queue of the session that is given back ends.\<close>

lemma detach_returns: "pool_owned others s \<Longrightarrow> target_detach K s \<noteq> None"
proof (cases "t_session (tgt s)")
  case (Some i)
  assume "pool_owned others s"
  then have "session_ok (pool s ! i)" using Some by (simp add: pool_owned_def)
  then have ok: "session_ok (fst (clear_all K (pool s ! i) (wld s)))" by (rule ok_clear_all)
  have "gdb_session_drop K (fst (clear_all K (pool s ! i) (wld s))) w \<noteq> None" for w
    by (simp add: gdb_session_drop_def split_beta reset_effect [OF ok_clear_all [OF ok]])
  then show ?thesis by (auto simp: target_detach_def Some Let_def split: prod.split option.split) (metis option.distinct(1))+
qed (simp add: target_detach_def)

lemma extended_attach_returns: "pool_owned others s \<Longrightarrow> extended_attach K pid s \<noteq> None"
  using detach_returns [of others s K] by (cases "target_detach K s") (simp_all add: extended_attach_def)

lemma after_launch_returns:
  assumes "pool_owned others s" "pid \<noteq> PID_UNUSED" shows "after_launch K pid s \<noteq> None"
proof -
  obtain s1 where d: "target_detach K s = Some s1" using detach_returns [OF assms(1)] by blast
  obtain b s2 where t: "target_attach pid AttachRun s1 = (b, s2)" by (metis prod.exhaust)
  obtain r s3 where w: "on_world (evf_wait_timeout K (t_evflag (tgt s2)) EV_PROCESS_STARTED WAITCLEAR_PAT 10000000) s2 = (r, s3)"
    by (metis prod.exhaust)
  have "pool_owned others s3"
    using assms(1) detach_stays(1) [OF d, of others] attach_stays [OF t assms(2), of others] stays_result [OF w, of others]
    by (simp add: stays_owned_def)
  then have "target_detach K s3 \<noteq> None" by (rule detach_returns)
  with d t w show ?thesis
    by (cases b; cases r rule: sum.exhaust; auto simp: after_launch_def split: fault.splits option.splits)
qed

lemma extended_run_returns:
  assumes "pool_owned others s" shows "extended_run K filename s \<noteq> None"
proof -
  have launched: "after_launch K pid s1 \<noteq> None" if "on_world (sce_call name call) s = (Inr (pid, x), s1)" for name call pid x s1
  proof (rule after_launch_returns)
    show "pool_owned others s1" using assms stays_result [OF that, of others] by (simp add: stays_owned_def)
  qed (rule launched_pid [OF that])
  show ?thesis
    unfolding extended_run_def after_launch_def [symmetric]
    by (auto split: option.split sum.split prod.split dest: launched)
qed

end
