(* ===== verification/Handler_Race.thy ===== *)
theory Handler_Race
  imports Slot_Owner
begin

text \<open>
  A handler of \<open>gdb/handlers.rs\<close> looks its session up and then halts the process and pushes
  the event, without holding anything in between, while the worker that owns the slot may detach on
  another core. Here \<open>handle_exception\<close> is cut after the lookup. Undisturbed it is the handler;
  with a detach in the gap the event is lost and the process halted all the same; and with the
  slot claimed again it is told to the wrong debugger.
\<close>

section \<open>The handler cut after its lookup\<close>

definition exception_gap ::
  "'w kernel \<Rightarrow> exception_kind \<Rightarrow> (session list \<times> 'w \<Rightarrow> session list \<times> 'w) \<Rightarrow> session list \<Rightarrow> 'w \<Rightarrow>
     (sce_error, handling_code) res \<times> session list \<times> 'w" where
  "exception_gap K kind gap p w = (case get_thread_context_info K w of ((pid, tid), w) \<Rightarrow>
     (case find_session_for_pid pid p of
        None \<Rightarrow> (Ok NotHandled, p, w)
      | Some i \<Rightarrow> (case gap (p, w) of (p, w) \<Rightarrow>
          (Ok HandlingCode2, in_slot i (push_excp K (Exception tid kind)) p (halt_for_debug K pid tid w)))))"

lemma exception_undisturbed: "exception_gap K kind id p w = handle_exception K kind p w"
  by (auto simp: exception_gap_def handle_exception_def split: prod.split option.split)

text \<open>The slot after its owner \<open>s\<close> detached in the gap.\<close>

lemma detached_slot:
  assumes "pool_owned others s" "t_session (tgt s) = Some i" "target_detach K s = Some s1"
  shows "free_slot (pool s1 ! i)" "session_ok (pool s1 ! i)" "i < length (pool s1)"
proof -
  have "pool_owned others s1" "t_session (tgt s1) = None" "i \<notin> others" "i < MAX_SESSIONS"
    using detach_stays [OF assms(3), of others] assms(1,2) by (simp_all add: stays_owned_def pool_owned_def)
  then show "free_slot (pool s1 ! i)" "session_ok (pool s1 ! i)" "i < length (pool s1)"
    by (simp_all add: pool_owned_def)
qed

section \<open>What a late event does\<close>

text \<open>
  The worker detaches after the handler found its session: the exception counts as handled,
  no session learns of it, and the process is halted although nobody debugs it any more.
\<close>

theorem event_after_detach_is_lost:
  assumes "get_thread_context_info K w = ((pid, tid), w0)" "find_session_for_pid pid (pool s) = Some i"
    and "pool_owned others s" "t_session (tgt s) = Some i" "target_detach K s = Some s1" "wld s = w0"
  shows "exception_gap K kind (\<lambda>_. (pool s1, wld s1)) (pool s) w =
    (Ok HandlingCode2, pool s1, halt_for_debug K pid tid (wld s1)) \<and> session_pid (pool s1 ! i) = None"
  using detached_slot [OF assms(3-5)] assms(1,2)
  by (simp add: exception_gap_def in_slot_def push_excp_def free_slot_def session_pid_def)

text \<open>
  The slot is claimed again, for another process, before the handler goes on: the event of
  the first process's thread is queued for the second one's debugger.
\<close>

theorem late_event_reaches_next_session:
  assumes "get_thread_context_info K w = ((pid, tid), w0)" "find_session_for_pid pid (pool s) = Some i"
    and "pool_owned others s" "t_session (tgt s) = Some i" "target_detach K s = Some s1" "wld s = w0"
    and "gdb_session_new flag pid' (pool s1) = (Some i, p)" "pid' \<noteq> pid"
    and "exception_gap K kind (\<lambda>_. (p, wld s1)) (pool s) w = (r, p', w')"
  shows "r = Ok HandlingCode2 \<and> s_pid (p' ! i) = pid' \<and> s_evflag (p' ! i) = Some flag \<and>
    contents (s_exceptions (p' ! i)) = [Exception tid kind]"
proof -
  note old = detached_slot [OF assms(3-5)]
  note slot = claimed_slot [OF assms(7)]
  have p: "i < length p" "p ! i = (pool s1 ! i)\<lparr>s_pid := pid', s_evflag := Some flag\<rparr>"
    using slot(1,4) by simp_all
  then have ok: "session_ok (p ! i)" "contents (s_exceptions (p ! i)) = []" "s_evflag (p ! i) = Some flag"
    using old by (simp_all add: session_ok_def free_slot_def)
  have "p' = p[i := fst (push_excp K (Exception tid kind) (p ! i) (halt_for_debug K pid tid (wld s1)))]" "r = Ok HandlingCode2"
    using assms(1,2,9) by (auto simp: exception_gap_def in_slot_def split_beta)
  moreover have "fst (push (s_exceptions (p ! i)) (Exception tid kind))"
    using ok by (simp add: session_ok_def push_result)
  then have "contents (s_exceptions (fst (push_excp K (Exception tid kind) (p ! i) v))) = [Exception tid kind]" for v
    using ok push_contents [of "s_exceptions (p ! i)" "Exception tid kind"] by (simp add: push_excp_def session_ok_def)
  ultimately show ?thesis using p ok(3) by (simp add: push_excp_def)
qed

end
