(* ===== verification/Assembly.thy ===== *)
theory Assembly
  imports Startup Spinlock
begin

text \<open>
  The assembly of the stub, as instructions of a small ARM machine: the trampolines around the
  exception handlers (\<open>excp_handler!\<close> of \<open>gdb/handlers.rs\<close>), and the import stubs whose cells
  \<open>init_stubs\<close> patches (\<open>kernel/ffi.rs\<close>), with their tables. Also the panic handler
  (\<open>kernel/panic.rs\<close>), which such a call never returns from.
\<close>

section \<open>The panic handler\<close>

partial_function (option) spin :: "'w \<Rightarrow> 'a option" where
  "spin w = spin w"

text \<open>It prints one line on the debug port and loops.\<close>

definition panic_handler :: "u8 list \<Rightarrow> u8 list \<Rightarrow> 'a option" where
  "panic_handler line port = spin (run_section (println_section line) port)"

lemma spin_never_returns [simp]: "spin w = None"
proof -
  have "spin w = Some y \<Longrightarrow> False" for y :: 'a by (erule spin.raw_induct [rotated]) blast
  then show ?thesis by (metis option.exhaust)
qed

lemma panic_handler_never_returns [simp]: "panic_handler line port = None"
  by (simp add: panic_handler_def)

section \<open>The machine\<close>

text \<open>A call (\<open>blx\<close>) runs the function of that name; it may not come back.\<close>

datatype asm =
    Mov_reg nat nat \<comment> \<open>\<open>mov rd, rm\<close>\<close>
  | Cps_ie \<comment> \<open>\<open>cpsie i\<close>\<close>
  | Cps_id \<comment> \<open>\<open>cpsid i\<close>\<close>
  | Blx_to string \<comment> \<open>\<open>blx label\<close>\<close>
  | Ldr_label nat string \<comment> \<open>\<open>ldr rd, =label\<close>, also of a literal word with the label's address\<close>
  | Ldr_mem nat nat \<comment> \<open>\<open>ldr rd, [rn]\<close>\<close>
  | Add_imm nat nat u32 \<comment> \<open>\<open>add rd, rn, #imm\<close>\<close>
  | Branch nat \<comment> \<open>\<open>mov pc, rm\<close> and \<open>bx rm\<close>, to ARM code\<close>

record cpu =
  cpu_r :: "nat \<Rightarrow> u32"
  irq_on :: bool

record 'm env =
  e_link :: "string \<Rightarrow> u32" \<comment> \<open>the address of a label\<close>
  e_load :: "u32 \<Rightarrow> 'm \<Rightarrow> u32"
  e_call :: "string \<Rightarrow> cpu \<Rightarrow> 'm \<Rightarrow> (cpu \<times> 'm) option"

abbreviation set_r :: "nat \<Rightarrow> u32 \<Rightarrow> cpu \<Rightarrow> cpu" where
  "set_r d v c \<equiv> c\<lparr>cpu_r := (cpu_r c)(d := v)\<rparr>"

text \<open>Where control goes, with which registers; a block without a branch at its end goes nowhere.\<close>

fun exec_asm :: "'m env \<Rightarrow> asm list \<Rightarrow> cpu \<Rightarrow> 'm \<Rightarrow> (u32 \<times> cpu \<times> 'm) option" where
  "exec_asm E [] c m = None"
| "exec_asm E (Mov_reg d n # is) c m = exec_asm E is (set_r d (cpu_r c n) c) m"
| "exec_asm E (Cps_ie # is) c m = exec_asm E is (c\<lparr>irq_on := True\<rparr>) m"
| "exec_asm E (Cps_id # is) c m = exec_asm E is (c\<lparr>irq_on := False\<rparr>) m"
| "exec_asm E (Blx_to f # is) c m = (case e_call E f c m of None \<Rightarrow> None | Some (c, m) \<Rightarrow> exec_asm E is c m)"
| "exec_asm E (Ldr_label d l # is) c m = exec_asm E is (set_r d (e_link E l) c) m"
| "exec_asm E (Ldr_mem d n # is) c m = exec_asm E is (set_r d (e_load E (cpu_r c n) m) c) m"
| "exec_asm E (Add_imm d n k # is) c m = exec_asm E is (set_r d (cpu_r c n + k) c) m"
| "exec_asm E (Branch n # is) c m = Some (cpu_r c n, c, m)"

section \<open>The exception trampolines\<close>

text \<open>
  A trampoline is two words that the kernel links into a chain (next, previous) and the code after
  them.
\<close>

definition excp_header :: "u32 list" where "excp_header = [0, 0]"

definition excp_handler :: "string \<Rightarrow> string \<Rightarrow> asm list" where
  "excp_handler name handler =
     [Mov_reg 4 0, Cps_ie, Blx_to handler, Cps_id, Mov_reg 1 0, Mov_reg 0 4,
      Ldr_label 2 name, Ldr_mem 2 2, Add_imm 2 2 8, Branch 2]"

text \<open>The kernel's encodings: the context behind a pointer and the two handling codes.\<close>

record excp_abi =
  context_at :: "u32 \<Rightarrow> excp_context"
  code_word :: "handling_code \<Rightarrow> u32"

text \<open>
  The exported functions. Each reads the context and passes the code of the handler before it on,
  which no handler looks at.
\<close>

definition gdb_pabt_handler ::
  "'w kernel \<Rightarrow> (u32 \<Rightarrow> excp_context) \<Rightarrow> u32 \<Rightarrow> u32 \<Rightarrow> session list \<Rightarrow> 'w \<Rightarrow> (sce_error, handling_code) res \<times> 'w pool_world" where
  "gdb_pabt_handler K at_ptr context earlier = handle_prefetch_abort K (at_ptr context)"

definition gdb_dabt_handler ::
  "'w kernel \<Rightarrow> (u32 \<Rightarrow> excp_context) \<Rightarrow> u32 \<Rightarrow> u32 \<Rightarrow> session list \<Rightarrow> 'w \<Rightarrow> (sce_error, handling_code) res \<times> 'w pool_world" where
  "gdb_dabt_handler K at_ptr context earlier = handle_data_abort K (at_ptr context)"

definition gdb_undef_handler ::
  "'w kernel \<Rightarrow> (u32 \<Rightarrow> excp_context) \<Rightarrow> u32 \<Rightarrow> u32 \<Rightarrow> session list \<Rightarrow> 'w \<Rightarrow> (sce_error, handling_code) res \<times> 'w pool_world" where
  "gdb_undef_handler K at_ptr context earlier = handle_undef K (at_ptr context)"

text \<open>The label of a handler's trampoline, its function's label, and the function.\<close>

fun excp_label :: "handler \<Rightarrow> string" where
  "excp_label GdbPabt = ''_gdb_pabt_handler''"
| "excp_label GdbDabt = ''_gdb_dabt_handler''"
| "excp_label GdbUndef = ''_gdb_undef_handler''"

fun excp_entry :: "handler \<Rightarrow> string" where
  "excp_entry GdbPabt = ''gdb_pabt_handler''"
| "excp_entry GdbDabt = ''gdb_dabt_handler''"
| "excp_entry GdbUndef = ''gdb_undef_handler''"

fun excp_function :: "handler \<Rightarrow> 'w kernel \<Rightarrow> (u32 \<Rightarrow> excp_context) \<Rightarrow> u32 \<Rightarrow> u32 \<Rightarrow>
    session list \<Rightarrow> 'w \<Rightarrow> (sce_error, handling_code) res \<times> 'w pool_world" where
  "excp_function GdbPabt = gdb_pabt_handler"
| "excp_function GdbDabt = gdb_dabt_handler"
| "excp_function GdbUndef = gdb_undef_handler"

definition excp_code :: "handler \<Rightarrow> asm list" where
  "excp_code h = excp_handler (excp_label h) (excp_entry h)"

text \<open>
  A handler as called from assembly: arguments in r0 and r1, the result in r0. A panic ends in the
  panic handler. \<open>seen\<close> notes whether interrupts were on; \<open>clobber\<close> is what else the compiled
  function leaves in the registers.
\<close>

type_synonym 'w handler_world = "session list \<times> 'w \<times> bool list"

definition call_handler ::
  "handler \<Rightarrow> 'w kernel \<Rightarrow> excp_abi \<Rightarrow> ((nat \<Rightarrow> u32) \<Rightarrow> nat \<Rightarrow> u32) \<Rightarrow> cpu \<Rightarrow> 'w handler_world \<Rightarrow>
     (cpu \<times> 'w handler_world) option" where
  "call_handler h K A clobber c m = (case m of (p, w, seen) \<Rightarrow>
     (case excp_function h K (context_at A) (cpu_r c 0) (cpu_r c 1) p w of
        (Inl _, _) \<Rightarrow> panic_handler [] []
      | (Inr v, p, w) \<Rightarrow> Some (c\<lparr>cpu_r := (clobber (cpu_r c))(0 := code_word A v)\<rparr>, p, w, seen @ [irq_on c])))"

text \<open>A compiled function keeps r4, as the calling convention says.\<close>

definition keeps_r4 :: "((nat \<Rightarrow> u32) \<Rightarrow> nat \<Rightarrow> u32) \<Rightarrow> bool" where
  "keeps_r4 clobber \<longleftrightarrow> (\<forall>r. clobber r 4 = r 4)"

lemma no_earlier_code: "excp_function h K f context earlier = excp_function h K f context 0"
  by (cases h) (simp_all add: gdb_pabt_handler_def gdb_dabt_handler_def gdb_undef_handler_def fun_eq_iff)

lemma excp_code_exec:
  "exec_asm E (excp_code h) c m =
     (case e_call E (excp_entry h) (c\<lparr>cpu_r := (cpu_r c)(4 := cpu_r c 0), irq_on := True\<rparr>) m of
        None \<Rightarrow> None
      | Some (c, m) \<Rightarrow> (let a = e_load E (e_link E (excp_label h)) m + 8 in
          Some (a, c\<lparr>cpu_r := (cpu_r c)(1 := cpu_r c 0, 0 := cpu_r c 4, 2 := a), irq_on := False\<rparr>, m)))"
  by (simp add: excp_code_def excp_handler_def Let_def fun_upd_twist split: option.split)

text \<open>
  The code of a trampoline, entered with a pointer to the exception's context in r0, runs the
  handler's Rust function on that context with interrupts on. If the function returns, control
  goes eight bytes past the handler linked next, with interrupts off, the context in r0 and this
  handler's code in r1; if it panics the exception never ends.
\<close>

lemma trampoline_runs:
  assumes "keeps_r4 clobber" "e_call E (excp_entry h) = call_handler h K A clobber"
    and "excp_function h K (context_at A) (cpu_r c 0) 0 p w = (r, p', w')"
  shows "(\<forall>e. r = Inl e \<longrightarrow> exec_asm E (excp_code h) c (p, w, seen) = None) \<and>
    (\<forall>v. r = Inr v \<longrightarrow> (\<exists>c'. exec_asm E (excp_code h) c (p, w, seen) =
       Some (e_load E (e_link E (excp_label h)) (p', w', seen @ [True]) + 8, c', p', w', seen @ [True]) \<and>
     cpu_r c' 0 = cpu_r c 0 \<and> cpu_r c' 1 = code_word A v \<and> \<not> irq_on c'))"
  using assms(3) no_earlier_code [of h K "context_at A" "cpu_r c 0" "cpu_r c 1"] assms(1)
  by (auto simp: excp_code_exec assms(2) call_handler_def keeps_r4_def Let_def)

section \<open>Import stubs\<close>

text \<open>
  \<open>vitastub!\<close> emits the four words the module loader links: flags, library, function, nothing. A
  function whose identifiers differ between firmware versions has one of them for each, a cell
  with the address of the first, and a body that branches where the cell says.
\<close>

definition vitastub :: "u32 \<Rightarrow> u32 \<Rightarrow> u32 \<Rightarrow> u32 list" where
  "vitastub flags libnid funcnid = [flags, libnid, funcnid, 0]"

definition ver_stub_body :: "string \<Rightarrow> asm list" where
  "ver_stub_body name = [Ldr_label 12 (name @ ''_stub''), Ldr_mem 12 12, Branch 12]"

definition vitastub_ver :: "u32 \<times> u32 \<Rightarrow> u32 \<times> u32 \<times> string \<Rightarrow> (string \<times> u32 list) list" where
  "vitastub_ver lib f = (case (lib, f) of ((libnid_360, libnid_363), (funcnid_360, funcnid_363, name)) \<Rightarrow>
     [(name @ ''_360'', vitastub 0x18 libnid_360 funcnid_360), (name @ ''_363'', vitastub 0x18 libnid_363 funcnid_363)])"

text \<open>\<open>libstub_ver!\<close> and \<open>libstub!\<close>: the labelled stubs of one library.\<close>

definition libstub_ver :: "u32 \<times> u32 \<Rightarrow> (u32 \<times> u32 \<times> string) list \<Rightarrow> (string \<times> u32 list) list" where
  "libstub_ver lib fs = concat (map (vitastub_ver lib) fs)"

definition libstub :: "u32 \<Rightarrow> (u32 \<times> string) list \<Rightarrow> (string \<times> u32 list) list" where
  "libstub libnid fs = map (\<lambda>(funcnid, name). (name, vitastub 0x10 libnid funcnid)) fs"

definition versioned_libraries :: "((u32 \<times> u32) \<times> (u32 \<times> u32 \<times> string) list) list" where
  "versioned_libraries =
    [((0x63A519E5, 0x02451F0F),
       [(0x30931572, 0x2995558D, ''ksceKernelCopyToUserProcTextDomain''),
        (0xEC7D36EF, 0x52137FA3, ''ksceGUIDGetUIDVectorByClass'')]),
     ((0x7A69DE86, 0xEB1F8EF7),
       [(0x6AECE4CD, 0x93B8E785, ''ksceKernelSuspendProcess''),
        (0x080CDC59, 0x6894499C, ''ksceKernelResumeProcess''),
        (0xC6820972, 0x98AE4BC8, ''ksceKernelGetUIDProcessClass''),
        (0x95F9ED94, 0xD20553C6, ''ksceKernelGetProcessMainThread''),
        (0x59FA3216, 0x59FA3216, ''sceKernelSetPHBP''),
        (0x54D7B16A, 0xC55BF6C3, ''sceKernelSetPHWP'')]),
     ((0x88C17370, 0x13D793B7),
       [(0x82D2EDCE, 0x2AABAEDA, ''ksceKernelDebugPutchar'')]),
     ((0x4CA0FDD5, 0x1496A5B5),
       [(0x03499636, 0x00063675, ''ksceExcpmgrRegisterHandler'')]),
     ((0x54BF2BAB, 0xA5195D20),
       [(0x264DA250, 0x803C84BF, ''ksceKernelL1IcacheInvalidateEntireAllCore'')]),
     ((0xA8CA0EFD, 0x7F8593BA),
       [(0xD8B9AC8D, 0x6C1F092F, ''ksceKernelGetThreadContextInfo'')]),
     ((0xC445FA63, 0x92C9FFC2),
       [(0x97CF7B4E, 0xB72C75A4, ''ksceKernelGetModuleList''),
        (0xD269F915, 0xDAA90093, ''ksceKernelGetModuleInfo''),
        (0x20A27FA9, 0x679F5144, ''ksceKernelGetModuleIdByPid'')])]"

definition import_stubs :: "(string \<times> u32 list) list" where
  "import_stubs =
     concat (map (\<lambda>(lib, fs). libstub_ver lib fs) versioned_libraries) @
     libstub 0x3691DA45 [(0xEC3124A3, ''ksceKernelSysrootGetProcessTitleId'')] @
     libstub 0xE2C40624 [(0x64E89DE9, ''ksceKernelSetThreadCpuRegisters''),
       (0x49A0B679, ''ksceKernelSetVfpRegisterForDebugger'')] @
     [(''spl_exec_code'', vitastub 0x18 0x9fce5cbf 0x4b856e73)]"

text \<open>Memory by words; \<open>patch\<close> is the function that \<open>libstub_ver!\<close> puts into the patch section.\<close>

type_synonym words = "u32 \<Rightarrow> u32"

definition patch_cell :: "(string \<Rightarrow> u32) \<Rightarrow> string \<Rightarrow> words \<Rightarrow> words" where
  "patch_cell at name m = m(at (name @ ''_stub'') := at (name @ ''_363''))"

fun run_patches :: "(string \<Rightarrow> u32) \<Rightarrow> string list \<Rightarrow> words \<Rightarrow> words" where
  "run_patches at [] m = m"
| "run_patches at (p # ps) m = run_patches at ps (patch_cell at p m)"

text \<open>\<open>init_stubs\<close> over the patch section that the linker collected.\<close>

definition init_cells :: "(string \<Rightarrow> u32) \<Rightarrow> string list \<Rightarrow> words \<Rightarrow> words" where
  "init_cells at fns m =
     (if stub_is_invalid (m (at ''ksceGUIDGetUIDVectorByClass_360'' AND NOT 1)) then run_patches at fns m else m)"

text \<open>How the linker lays the cells out, and what they hold at first.\<close>

definition cell :: "(string \<Rightarrow> u32) \<Rightarrow> string \<Rightarrow> u32" where
  "cell at name = at (name @ ''_stub'')"

definition cells_linked :: "(string \<Rightarrow> u32) \<Rightarrow> words \<Rightarrow> bool" where
  "cells_linked at m \<longleftrightarrow> inj_on (cell at) (set versioned_stubs) \<and>
     (\<forall>name \<in> set versioned_stubs. m (cell at name) = at (name @ ''_360''))"

lemma run_patches_cells:
  assumes "inj_on (cell at) (set versioned_stubs)" "set fns \<subseteq> set versioned_stubs" "name \<in> set versioned_stubs"
  shows "run_patches at fns m (cell at name) = (if name \<in> set fns then at (name @ ''_363'') else m (cell at name))"
  using assms(2)
proof (induction fns arbitrary: m)
  case (Cons p ps)
  then have "cell at p = cell at name \<longleftrightarrow> p = name" using assms(1,3) by (auto simp: inj_on_def)
  then show ?case using Cons by (auto simp: patch_cell_def cell_def)
qed simp

lemma run_patches_elsewhere:
  "x \<notin> cell at ` set fns \<Longrightarrow> run_patches at fns m x = m x"
  by (induction fns arbitrary: m) (auto simp: patch_cell_def cell_def)

lemma versioned_names: "versioned_stubs = map (snd \<circ> snd) (concat (map snd versioned_libraries))"
  by (simp add: versioned_stubs_def versioned_libraries_def)


text \<open>The library a firmware's function is linked from, and the firmware a cell points at.\<close>

fun fw_suffix :: "firmware \<Rightarrow> string" where
  "fw_suffix Fw360 = ''_360''"
| "fw_suffix Fw363 = ''_363''"

definition linked :: "(string \<Rightarrow> u32) \<Rightarrow> (string \<Rightarrow> firmware) \<Rightarrow> words \<Rightarrow> bool" where
  "linked at fw m \<longleftrightarrow> (\<forall>name \<in> set versioned_stubs. m (cell at name) = at (name @ fw_suffix (fw name)))"

lemma apply_patches_fw: "apply_patches ps fw name = (if name \<in> set ps then Fw363 else fw name)"
  by (induction ps arbitrary: fw) auto

lemma init_cells_linked:
  assumes "inj_on (cell at) (set versioned_stubs)" "linked at fw m" "set fns = set versioned_stubs"
    and "stub_word B ''ksceGUIDGetUIDVectorByClass_360'' w = m (at ''ksceGUIDGetUIDVectorByClass_360'' AND NOT 1)"
  shows "linked at (init_stubs B w fw) (init_cells at fns m)"
  using assms run_patches_cells [OF assms(1), of fns _ m]
  by (auto simp: linked_def init_stubs_def init_cells_def apply_patches_fw)

lemma ver_stub_exec:
  "exec_asm E (ver_stub_body name) c m =
     (let a = e_load E (cell (e_link E) name) m in Some (a, c\<lparr>cpu_r := (cpu_r c)(12 := a)\<rparr>, m))"
  by (simp add: ver_stub_body_def cell_def Let_def)

text \<open>
  C21: Every system call goes to the firmware that is running. The cells start with the addresses of
  the 3.60 imports, in memory words of their own; whatever the order in which the linker collected
  the patch functions, after \<open>init_stubs\<close> the body of each of the fifteen functions branches to its
  3.63 import if the probed 3.60 import is an unresolved stub and to its 3.60 import otherwise, with
  only the scratch register r12 changed. This is what the model of the start-up (\<open>init_stubs\<close>) says
  of the choice, and no word but the cells was written.
\<close>

theorem imports_follow_firmware:
  assumes "cells_linked at m" "set fns = set versioned_stubs" "e_link E = at" "e_load E = (\<lambda>a m. m a)"
    and "stub_word B ''ksceGUIDGetUIDVectorByClass_360'' w = m (at ''ksceGUIDGetUIDVectorByClass_360'' AND NOT 1)"
    and "name \<in> set versioned_stubs"
  shows "let m' = init_cells at fns m; fw = init_stubs B w (\<lambda>_. Fw360) name in
    (\<exists>c'. exec_asm E (ver_stub_body name) c m' = Some (at (name @ fw_suffix fw), c', m') \<and>
       (\<forall>n. n \<noteq> 12 \<longrightarrow> cpu_r c' n = cpu_r c n) \<and> irq_on c' = irq_on c) \<and>
    (fw = Fw363 \<longleftrightarrow> m (at ''ksceGUIDGetUIDVectorByClass_360'' AND NOT 1) = 0xe24fc008) \<and>
    (\<forall>x. x \<notin> cell at ` set versioned_stubs \<longrightarrow> m' x = m x)"
proof -
  have "linked at (\<lambda>_. Fw360) m" "inj_on (cell at) (set versioned_stubs)"
    using assms(1) by (simp_all add: linked_def cells_linked_def)
  from init_cells_linked [OF this(2,1) assms(2,5)]
  have "init_cells at fns m (cell at name) = at (name @ fw_suffix (init_stubs B w (\<lambda>_. Fw360) name))"
    using assms(6) by (simp add: linked_def)
  moreover have "init_stubs B w (\<lambda>_. Fw360) name = Fw363 \<longleftrightarrow> m (at ''ksceGUIDGetUIDVectorByClass_360'' AND NOT 1) = 0xe24fc008"
    using assms(5,6) by (simp add: init_stubs_def apply_patches_fw stub_is_invalid_def)
  moreover have "x \<notin> cell at ` set versioned_stubs \<longrightarrow> init_cells at fns m x = m x" for x
    using run_patches_elsewhere [of x at fns m] assms(2) by (simp add: init_cells_def)
  ultimately show ?thesis by (simp add: ver_stub_exec assms(3,4) Let_def)
qed

text \<open>The stubs of the crate: each name once, and no function of a library twice.\<close>

lemma import_stubs_distinct:
  "distinct (map fst import_stubs)" "distinct (map (\<lambda>(name, ws). (ws ! 1, ws ! 2)) import_stubs)"
  by (simp_all add: import_stubs_def versioned_libraries_def libstub_ver_def libstub_def vitastub_ver_def vitastub_def)

text \<open>A layout: each label a fixed way after its function's number, the probed stub unresolved.\<close>

definition demo_slot :: "string \<Rightarrow> string \<Rightarrow> u32 option" where
  "demo_slot suffix l = map_option (\<lambda>i. of_nat i) (find (\<lambda>i. versioned_stubs ! i @ suffix = l) [0..<length versioned_stubs])"

definition demo_link :: "string \<Rightarrow> u32" where
  "demo_link l = (case demo_slot ''_stub'' l of Some i \<Rightarrow> 0x1000 + 4 * i | None \<Rightarrow>
     (case demo_slot ''_360'' l of Some i \<Rightarrow> 0x2000 + 16 * i | None \<Rightarrow>
     (case demo_slot ''_363'' l of Some i \<Rightarrow> 0x3000 + 16 * i | None \<Rightarrow> 0)))"

definition demo_words :: words where
  "demo_words x = (if x = 0x2010 then 0xe24fc008 else if 0x1000 \<le> x \<and> x < 0x1100 then 0x2000 + 4 * (x - 0x1000) else 0)"

lemma demo_cells_linked: "cells_linked demo_link demo_words"
proof -
  have "distinct (map (cell demo_link) versioned_stubs)" by code_simp
  moreover have "list_all (\<lambda>name. demo_words (cell demo_link name) = demo_link (name @ ''_360'')) versioned_stubs" by code_simp
  ultimately show ?thesis by (simp add: cells_linked_def distinct_map list_all_iff)
qed

definition demo_boot :: "unit boot" where
  "demo_boot = \<lparr>stub_word = (\<lambda>_ _. 0xe24fc008), spl_exec_code = (\<lambda>_ _ _ _ w. (0, w)),
     ksceExcpmgrRegisterHandler = (\<lambda>_ _ w. ((0, ()), w)), ksceKernelSysrootSetProcessHandler = (\<lambda>w. ((0, ()), w)),
     ksceKernelRegisterProcEventHandler = (\<lambda>_ w. ((0, ()), w)), ksceKernelRegisterSysEventHandler = (\<lambda>_ w. ((0, ()), w))\<rparr>"

theorem imports_follow_firmware_witness:
  "\<exists>c'. exec_asm \<lparr>e_link = demo_link, e_load = (\<lambda>a m. m a), e_call = (\<lambda>_ _ _. None)\<rparr>
       (ver_stub_body ''sceKernelSetPHBP'') \<lparr>cpu_r = (\<lambda>_. 0), irq_on = True\<rparr> (init_cells demo_link (rev versioned_stubs) demo_words) =
     Some (demo_link ''sceKernelSetPHBP_363'', c', init_cells demo_link (rev versioned_stubs) demo_words)"
proof -
  have probe: "demo_link ''ksceGUIDGetUIDVectorByClass_360'' AND NOT 1 = 0x2010" by code_simp
  have fw: "demo_words (0x2010) = 0xe24fc008" "''sceKernelSetPHBP'' \<in> set versioned_stubs"
    by (simp_all add: demo_words_def versioned_stubs_def)
  have "init_stubs demo_boot () (\<lambda>_. Fw360) ''sceKernelSetPHBP'' = Fw363"
    using fw(2) by (simp add: init_stubs_def demo_boot_def stub_is_invalid_def apply_patches_fw)
  moreover have "stub_word demo_boot ''ksceGUIDGetUIDVectorByClass_360'' () = demo_words (demo_link ''ksceGUIDGetUIDVectorByClass_360'' AND NOT 1)"
    unfolding probe by (simp add: fw(1) demo_boot_def)
  ultimately show ?thesis
    using imports_follow_firmware [where at = demo_link and m = demo_words and fns = "rev versioned_stubs" and B = demo_boot and w = "()" and
        name = "''sceKernelSetPHBP''" and E = "\<lparr>e_link = demo_link, e_load = (\<lambda>a m. m a), e_call = (\<lambda>_ _ _. None)\<rparr>"
        and c = "\<lparr>cpu_r = (\<lambda>_. 0), irq_on = True\<rparr>"] demo_cells_linked fw
    by (auto simp: Let_def)
qed

end
