(* ===== verification/Stub_System.thy ===== *)
theory Stub_System
  imports Slot_Owner Worker_End Session_Race
begin

text \<open>
  The whole stub: any number of workers serving their debuggers, the exception and process
  handlers, and the programs being debugged, in every order. What a worker does between two
  others' steps is one request of the protocol library, one check of the event loop, or an interrupt.
\<close>

section \<open>What a worker is asked to do\<close>

datatype request =
    Attach sce_uid | Launch "u8 list option" | DetachIt | KillIt "sce_uid option"
  | Libraries nat "u8 list" | Processes | ExecFile "sce_uid option" nat nat "u8 list" | SupportHw
  | AddSw u32 arm_breakpoint_kind | RemoveSw u32 | AddHw u32 | RemoveHw u32
  | AddWatch u32 u32 watch_kind | RemoveWatch u32
  | ReadRegisters armv7_regs sce_uid | WriteRegisters armv7_regs sce_uid
  | ReadRegister sce_uid reg_id nat | WriteRegister sce_uid reg_id "u8 list"
  | ReadAddrs u32 "u8 list" | WriteAddrs u32 "u8 list"
  | ActiveThreads | ThreadAlive sce_uid | ThreadInfo sce_uid "u8 list"
  | ResumeAll | ClearActions | ContinueThread sce_uid "nat option" | StepThread sce_uid "nat option" | SchedulerLock
  | MonitorCmd fud "u8 list"
  | TakeDetached | TakeExited | TakeStep | TakeExcp | TakeByte | Interrupt

text \<open>The state of the target, the pool and the world after a request; \<open>None\<close> if it does not return.\<close>

fun serve_target :: "('r, 'e) isa \<Rightarrow> 'w kernel \<Rightarrow> 'w boot \<Rightarrow> request \<Rightarrow> 'w sys \<Rightarrow> 'w sys option" where
  "serve_target A K B (Attach pid) s = map_option snd (extended_attach K pid s)"
| "serve_target A K B (Launch filename) s = map_option snd (extended_run K filename s)"
| "serve_target A K B DetachIt s = target_detach K s"
| "serve_target A K B (KillIt pid) s = Some (snd (kill K pid s))"
| "serve_target A K B (Libraries off dst) s = Some (snd (get_libraries K off dst s))"
| "serve_target A K B Processes s = Some (snd (process_info K s))"
| "serve_target A K B (ExecFile pid off l dst) s = Some (snd (get_exec_file K pid off l dst s))"
| "serve_target A K B SupportHw s = Some (snd (support_hw K s))"
| "serve_target A K B (AddSw addr kind) s = Some (snd (add_sw_breakpoint K addr kind s))"
| "serve_target A K B (RemoveSw addr) s = Some (snd (remove_sw_breakpoint K addr s))"
| "serve_target A K B (AddHw addr) s = Some (snd (add_hw_breakpoint K addr s))"
| "serve_target A K B (RemoveHw addr) s = Some (snd (remove_hw_breakpoint K addr s))"
| "serve_target A K B (AddWatch addr l kind) s = Some (snd (add_hw_watchpoint K addr l kind s))"
| "serve_target A K B (RemoveWatch addr) s = Some (snd (remove_hw_watchpoint K addr s))"
| "serve_target A K B (ReadRegisters regs tid) s = Some (snd (read_registers K regs tid s))"
| "serve_target A K B (WriteRegisters regs tid) s = Some (snd (write_registers K regs tid s))"
| "serve_target A K B (ReadRegister tid rid n) s = Some (snd (read_register K tid rid n s))"
| "serve_target A K B (WriteRegister tid rid val) s = Some (snd (write_register K tid rid val s))"
| "serve_target A K B (ReadAddrs addr data) s = Some (snd (read_addrs K addr data s))"
| "serve_target A K B (WriteAddrs addr data) s = Some (snd (write_addrs K addr data s))"
| "serve_target A K B ActiveThreads s = Some (snd (list_active_threads K s))"
| "serve_target A K B (ThreadAlive tid) s = Some (snd (is_thread_alive K tid s))"
| "serve_target A K B (ThreadInfo tid dst) s = Some (snd (thread_extra_info K tid dst s))"
| "serve_target A K B ResumeAll s = Some (snd (resume A K s))"
| "serve_target A K B ClearActions s = Some (snd (clear_resume_actions s))"
| "serve_target A K B (ContinueThread tid signal) s = Some (snd (set_resume_action_continue tid signal s))"
| "serve_target A K B (StepThread tid signal) s = Some (snd (set_resume_action_step tid signal s))"
| "serve_target A K B SchedulerLock s = Some (snd (set_resume_action_scheduler_lock s))"
| "serve_target A K B (MonitorCmd fud input) s =
     Some (m_sys (snd (handle_monitor_cmd K B input \<lparr>m_sys = s, m_fud = fud, m_out = []\<rparr>)))"
| "serve_target A K B r s = Some s"

fun serve :: "('r, 'e) isa \<Rightarrow> 'w kernel \<Rightarrow> 'w boot \<Rightarrow> request \<Rightarrow> 'w app \<Rightarrow> 'w app option" where
  "serve A K B TakeDetached a = Some (snd (take_detached a))"
| "serve A K B TakeExited a = Some (snd (take_exited a))"
| "serve A K B TakeStep a = Some (snd (take_step a))"
| "serve A K B TakeExcp a = Some (snd (take_excp a))"
| "serve A K B TakeByte a = Some (snd (take_byte K a))"
| "serve A K B Interrupt a = Some (snd (interrupt_target K a :: (sce_error, stop_reason option) res \<times> _))"
| "serve A K B r a = map_option (\<lambda>s. a\<lparr>sys := s\<rparr>) (serve_target A K B r (sys a))"

definition names_a_process :: "request \<Rightarrow> bool" where
  "names_a_process r \<longleftrightarrow> r \<noteq> Attach PID_UNUSED"

lemma serve_target_stays:
  assumes "serve_target A K B r s = Some s'" "names_a_process r"
  shows "stays_owned others s s'"
proof (cases r)
  case (Attach pid)
  then show ?thesis using assms extended_attach_stays by (auto simp: names_a_process_def)
next
  case (Launch filename)
  then show ?thesis using assms extended_run_stays by auto
next
  case DetachIt
  then show ?thesis using assms detach_stays by auto
next
  case (MonitorCmd fud input)
  have "tame (handle_monitor_cmd K B input)"
    unfolding handle_monitor_cmd_def by (intro tame_intros)
  with MonitorCmd assms(1) show ?thesis by (auto simp: tame_def untouched_def intro!: stays_same)
qed (use assms(1) in \<open>auto intro!: stays_act orderly_intros\<close>)

text \<open>The checks of the event loop take from the own session only.\<close>

lemma on_pool_stays:
  assumes "t_session (tgt (sys a)) = Some i" "on_pool i f a = (x, a')"
    and "\<And>ses. session_ok ses \<Longrightarrow> keeps_claim ses (snd (f ses))"
  shows "stays_owned others (sys a) (sys a')"
  using assms(1,2) assms(3) [of "pool (sys a) ! i"]
  by (intro stays_session [where ses = "snd (f (pool (sys a) ! i))"]) (auto simp: on_pool_def split: prod.splits)

lemma takes_stay:
  "stays_owned others (sys a) (sys (snd (take_detached a)))" "stays_owned others (sys a) (sys (snd (take_exited a)))"
  "stays_owned others (sys a) (sys (snd (take_step a)))" "stays_owned others (sys a) (sys (snd (take_excp a)))"
proof -
  show "stays_owned others (sys a) (sys (snd (take_detached a)))"
    by (auto simp: take_detached_def intro!: stays_same)
  show "stays_owned others (sys a) (sys (snd (take_exited a)))"
    by (auto simp: take_exited_def intro: on_pool_stays [OF _ _ claim_events(4)] split: option.splits prod.splits)
  show "stays_owned others (sys a) (sys (snd (take_step a)))"
    by (auto simp: take_step_def intro: on_pool_stays [OF _ _ claim_events(6)] split: option.splits prod.splits)
  show "stays_owned others (sys a) (sys (snd (take_excp a)))"
    by (auto simp: take_excp_def intro: on_pool_stays [OF _ _ claim_events(2)] split: option.splits prod.splits)
qed

lemma byte_stays: "stays_owned others (sys a) (sys (snd (take_byte K a)))"
  by (auto simp: take_byte_def app_read_def seq_def ret_def throw_def intro!: stays_same
      split: prod.splits sum.splits read_result.splits)

lemma interrupt_stays: "stays_owned others (sys a) (sys (snd (interrupt_target K a)))"
  by (auto simp: interrupt_target_def on_sys_def intro: stays_result split: option.splits prod.splits sum.splits fault.splits)

lemma serve_stays:
  assumes "serve A K B r a = Some a'" "names_a_process r"
  shows "stays_owned others (sys a) (sys a')"
proof -
  consider "r \<in> {TakeDetached, TakeExited, TakeStep, TakeExcp, TakeByte, Interrupt}"
    | "serve A K B r a = map_option (\<lambda>s. a\<lparr>sys := s\<rparr>) (serve_target A K B r (sys a))"
    by (cases r) simp_all
  then show ?thesis
  proof cases
    case 1
    then show ?thesis using assms(1) takes_stay [of others a] byte_stays [of others a K] interrupt_stays [of others a K] by auto
  next
    case 2
    with assms(1) have "map_option (\<lambda>s. a\<lparr>sys := s\<rparr>) (serve_target A K B r (sys a)) = Some a'" by simp
    then show ?thesis using serve_target_stays [OF _ assms(2)] by auto
  qed
qed

section \<open>The stub\<close>

text \<open>The workers by number: target and connection of each that runs.\<close>

record 'w stub =
  workers :: "nat \<Rightarrow> (vita_target \<times> tcp_conn) option"
  st_conns :: "conn_state list"
  st_pool :: "session list"
  st_world :: 'w

definition boot_stub :: "exception_event list \<Rightarrow> 'w \<Rightarrow> 'w stub" where
  "boot_stub junk w = \<lparr>workers = (\<lambda>_. None), st_conns = conn_pool_new,
     st_pool = replicate MAX_SESSIONS (uninit junk), st_world = w\<rparr>"

text \<open>The stub as a worker sees it, and after what it did.\<close>

definition seen_by :: "vita_target \<times> tcp_conn \<Rightarrow> 'w stub \<Rightarrow> 'w app" where
  "seen_by wk st = \<lparr>sys = \<lparr>tgt = fst wk, pool = st_pool st, wld = st_world st\<rparr>, conn = snd wk, conns = st_conns st\<rparr>"

definition done_by :: "nat \<Rightarrow> 'w app \<Rightarrow> 'w stub \<Rightarrow> 'w stub" where
  "done_by k a st = st\<lparr>workers := (workers st)(k \<mapsto> (tgt (sys a), conn a)), st_conns := conns a,
     st_pool := pool (sys a), st_world := wld (sys a)\<rparr>"

definition handled_by :: "session list \<times> 'w \<Rightarrow> 'w stub \<Rightarrow> 'w stub" where
  "handled_by p st = st\<lparr>st_pool := fst p, st_world := snd p\<rparr>"

text \<open>
  The steps. A connection that cannot be set up (\<open>refused\<close>) may keep its state claimed.
  \<open>elsewhere\<close> is everything outside the two pools: the debugged programs run, and the receiving
  threads fill their buffers, which claims and releases nothing.
\<close>

inductive stub_step :: "('r, 'e) isa \<Rightarrow> 'w kernel \<Rightarrow> 'w boot \<Rightarrow> 'w net \<Rightarrow> 'w stub \<Rightarrow> 'w stub \<Rightarrow> bool"
  for A K B N where
  connects: "evf_new K ''GdbEvtFlag'' (st_world st) = (Ok flag, w1) \<Longrightarrow>
    tcp_conn_new N sock flag (st_conns st) w1 = (Ok tc, cs, w2) \<Longrightarrow> workers st k = None \<Longrightarrow>
    stub_step A K B N st (st\<lparr>workers := (workers st)(k \<mapsto> (target_new flag, tc)), st_conns := cs, st_world := w2\<rparr>)"
| refused: "evf_new K ''GdbEvtFlag'' (st_world st) = (Ok flag, w1) \<Longrightarrow>
    tcp_conn_new N sock flag (st_conns st) w1 = (Inl e, cs, w2) \<Longrightarrow>
    stub_step A K B N st (st\<lparr>st_conns := cs, st_world := snd (evf_delete K flag w2)\<rparr>)"
| writes: "workers st k = Some wk \<Longrightarrow> conn_write N byte (snd wk) (st_world st) = Some (r, tc, w) \<Longrightarrow>
    stub_step A K B N st (st\<lparr>workers := (workers st)(k \<mapsto> (fst wk, tc)), st_world := w\<rparr>)"
| flushes: "workers st k = Some wk \<Longrightarrow> conn_flush N (snd wk) (st_world st) = Some (r, tc, w) \<Longrightarrow>
    stub_step A K B N st (st\<lparr>workers := (workers st)(k \<mapsto> (fst wk, tc)), st_world := w\<rparr>)"
| serves: "workers st k = Some wk \<Longrightarrow> names_a_process r \<Longrightarrow> serve A K B r (seen_by wk st) = Some a \<Longrightarrow>
    stub_step A K B N st (done_by k a st)"
| ends: "workers st k = Some wk \<Longrightarrow> target_detach K (sys (app_close K N rest (seen_by wk st))) = Some s \<Longrightarrow>
    stub_step A K B N st (st\<lparr>workers := (workers st)(k := None), st_conns := conns (app_close K N rest (seen_by wk st)),
      st_pool := pool s, st_world := snd (evf_delete K (t_evflag (fst wk)) (wld s))\<rparr>)"
| faults: "h \<in> {handle_prefetch_abort K ctx, handle_data_abort K ctx, handle_undef K ctx} \<Longrightarrow>
    stub_step A K B N st (handled_by (snd (h (st_pool st) (st_world st))) st)"
| created: "stub_step A K B N st (handled_by (handle_proc_create K pid (st_pool st) (st_world st)) st)"
| killed: "stub_step A K B N st (handled_by (handle_proc_kill K pid (st_pool st) (st_world st)) st)"
| elsewhere: "map c_claimed cs = map c_claimed (st_conns st) \<Longrightarrow> stub_step A K B N st (st\<lparr>st_conns := cs, st_world := w\<rparr>)"

definition reachable_stub where
  "reachable_stub A K B N junk w st \<longleftrightarrow> (stub_step A K B N)\<^sup>*\<^sup>* (boot_stub junk w) st"

section \<open>Who owns what\<close>

definition holds_slot :: "'w stub \<Rightarrow> nat \<Rightarrow> nat \<Rightarrow> bool" where
  "holds_slot st k i \<longleftrightarrow> map_option (t_session \<circ> fst) (workers st k) = Some (Some i)"

definition held_elsewhere :: "'w stub \<Rightarrow> nat \<Rightarrow> nat set" where
  "held_elsewhere st k = {i. \<exists>j. j \<noteq> k \<and> holds_slot st j i}"

definition stub_ok :: "'w stub \<Rightarrow> bool" where
  "stub_ok st \<longleftrightarrow> length (st_pool st) = MAX_SESSIONS \<and> (\<forall>i < MAX_SESSIONS. session_ok (st_pool st ! i)) \<and>
     (\<forall>k wk i. workers st k = Some wk \<longrightarrow> t_session (fst wk) = Some i \<longrightarrow>
        i < MAX_SESSIONS \<and> claimed_by (t_evflag (fst wk)) (st_pool st ! i)) \<and>
     (\<forall>k k' i. holds_slot st k i \<longrightarrow> holds_slot st k' i \<longrightarrow> k = k') \<and>
     (\<forall>i < MAX_SESSIONS. (\<forall>k. \<not> holds_slot st k i) \<longrightarrow> free_slot (st_pool st ! i))"

lemma stub_okD:
  assumes "stub_ok st"
  shows "workers st k = Some wk \<Longrightarrow> t_session (fst wk) = Some i \<Longrightarrow>
      i < MAX_SESSIONS \<and> claimed_by (t_evflag (fst wk)) (st_pool st ! i)"
    "holds_slot st k i \<Longrightarrow> holds_slot st k' i \<Longrightarrow> k = k'"
    "i < MAX_SESSIONS \<Longrightarrow> (\<And>k. \<not> holds_slot st k i) \<Longrightarrow> free_slot (st_pool st ! i)"
    "i < MAX_SESSIONS \<Longrightarrow> session_ok (st_pool st ! i)" "length (st_pool st) = MAX_SESSIONS"
  using assms unfolding stub_ok_def by blast+

lemma stub_ok_seen:
  assumes "stub_ok st" "workers st k = Some wk"
  shows "pool_owned (held_elsewhere st k) (sys (seen_by wk st))"
proof -
  note ok = stub_okD [OF assms(1)]
  have mine: "holds_slot st k i \<longleftrightarrow> t_session (fst wk) = Some i" for i using assms(2) by (simp add: holds_slot_def)
  have held: "i < MAX_SESSIONS \<and> s_pid (st_pool st ! i) \<noteq> PID_UNUSED" if "holds_slot st j i" for i j
    using that ok(1) [of j] by (auto simp: holds_slot_def claimed_by_def)
  have alone: "i \<notin> held_elsewhere st k" if "t_session (fst wk) = Some i" for i
    using ok(2) [of k i] mine that by (auto simp: held_elsewhere_def)
  have free: "free_slot (st_pool st ! i)"
    if "i < MAX_SESSIONS" "i \<notin> held_elsewhere st k" "t_session (fst wk) \<noteq> Some i" for i
  proof (rule ok(3) [OF that(1)])
    show "\<not> holds_slot st j i" for j using that mine by (cases "j = k") (auto simp: held_elsewhere_def)
  qed
  show ?thesis
    using ok(1) [OF assms(2)] ok(4,5) held alone free
    by (auto simp: pool_owned_def seen_by_def held_elsewhere_def)
qed

text \<open>A worker that kept to its own slot, with its new target and connection \<open>wk'\<close> (or gone).\<close>

lemma stub_ok_done:
  assumes ok: "stub_ok st" and k: "workers st k = Some wk"
    and stays: "stays_owned (held_elsewhere st k) (sys (seen_by wk st)) s"
    and wk': "case wk' of None \<Rightarrow> t_session (tgt s) = None | Some x \<Rightarrow> fst x = tgt s"
  shows "stub_ok (st\<lparr>workers := (workers st)(k := wk'), st_conns := cs, st_pool := pool s, st_world := w\<rparr>)" (is "stub_ok ?st")
proof -
  let ?others = "held_elsewhere st k"
  have own: "pool_owned ?others s" and same: "i \<in> ?others \<Longrightarrow> pool s ! i = st_pool st ! i" for i
    using stays stub_ok_seen [OF ok k] by (auto simp: stays_owned_def seen_by_def)
  have mine: "holds_slot ?st k i \<longleftrightarrow> t_session (tgt s) = Some i" for i
    using wk' by (auto simp: holds_slot_def split: option.splits)
  have theirs: "j \<noteq> k \<Longrightarrow> holds_slot ?st j i \<longleftrightarrow> holds_slot st j i" for j i
    by (simp add: holds_slot_def)
  have apart: "j = k" if "holds_slot ?st j i" "t_session (tgt s) = Some i" for j i
  proof -
    have "i \<notin> ?others" using own that(2) by (simp add: pool_owned_def)
    then show ?thesis using theirs [of j i] that(1) unfolding held_elsewhere_def by blast
  qed
  have "j = j'" if "holds_slot ?st j i" "holds_slot ?st j' i" for j j' i
    using apart [of _ i] mine [of i] that theirs stub_okD(2) [OF ok] by metis
  moreover have "free_slot (pool s ! i)" if "i < MAX_SESSIONS" "\<And>j. \<not> holds_slot ?st j i" for i
  proof -
    have "i \<notin> ?others" using that(2) theirs by (auto simp: held_elsewhere_def)
    moreover have "t_session (tgt s) \<noteq> Some i" using that(2) [of k] mine by simp
    ultimately show ?thesis using own that(1) by (simp add: pool_owned_def)
  qed
  moreover have "i < MAX_SESSIONS \<and> claimed_by (t_evflag (fst x)) (pool s ! i)"
    if j: "workers ?st j = Some x" "t_session (fst x) = Some i" for j x i
  proof (cases "j = k")
    case True
    then have "fst x = tgt s" using j wk' by simp
    with own j(2) show ?thesis by (simp add: pool_owned_def)
  next
    case False
    then have st: "workers st j = Some x" using j(1) by simp
    then have "holds_slot st j i" using j(2) by (simp add: holds_slot_def)
    then have "i \<in> ?others" using False unfolding held_elsewhere_def by blast
    with stub_okD(1) [OF ok st j(2)] show ?thesis by (simp add: same)
  qed
  ultimately show ?thesis using own unfolding stub_ok_def by (simp add: pool_owned_def)
qed

section \<open>The handlers\<close>

definition slots_kept :: "session list \<Rightarrow> session list \<Rightarrow> bool" where
  "slots_kept p p' \<longleftrightarrow> length p' = length p \<and> (\<forall>i < length p. session_ok (p ! i) \<longrightarrow>
     keeps_claim (p ! i) (p' ! i) \<and> (free_slot (p ! i) \<longrightarrow> p' ! i = p ! i))"

lemma slots_kept_refl [simp]: "slots_kept p p"
  by (simp add: slots_kept_def keeps_claim_def)

lemma slots_kept_update:
  assumes "session_ok (p ! i) \<Longrightarrow> keeps_claim (p ! i) s \<and> (free_slot (p ! i) \<longrightarrow> s = p ! i)"
  shows "slots_kept p (p[i := s])"
proof -
  have at: "j < length p \<Longrightarrow> p[i := s] ! j = (if j = i then s else p ! j)" for j by simp
  show ?thesis using assms by (simp add: slots_kept_def keeps_claim_def at)
qed

lemma slots_kept_push: "slots_kept p (fst (in_slot i (push_excp K ev) p w))" "slots_kept p (fst (in_slot i (push_exited K) p w))"
proof -
  have "free_slot (p ! i) \<Longrightarrow> push_excp K ev (p ! i) w = (p ! i, w) \<and> push_exited K (p ! i) w = (p ! i, w)"
    by (simp add: free_slot_def push_excp_def push_exited_def)
  then show "slots_kept p (fst (in_slot i (push_excp K ev) p w))" "slots_kept p (fst (in_slot i (push_exited K) p w))"
    using claim_events(1) [of "p ! i" K ev w] claim_events(3) [of "p ! i" K w]
    by (auto simp: in_slot_def split_beta intro!: slots_kept_update)
qed

lemma slots_kept_step: "is_step a (p ! i) \<Longrightarrow> slots_kept p (p[i := fst (snd (step_finished K (p ! i) w))])"
  using claim_step_finished [of "p ! i" K w] by (intro slots_kept_update) (auto simp: free_slot_def is_step_def)

lemma exceptions_keep_slots:
  "slots_kept p (fst (snd (handle_exception K kind p w)))" "slots_kept p (fst (snd (handle_watch K ctx p w)))"
  "slots_kept p (fst (snd (handle_break K ctx p w)))"
proof -
  obtain pid tid w0 where ids: "get_thread_context_info K w = ((pid, tid), w0)" by (metis prod.exhaust)
  show "slots_kept p (fst (snd (handle_exception K kind p w)))" "slots_kept p (fst (snd (handle_watch K ctx p w)))"
    using slots_kept_push by (auto simp: handle_exception_def handle_watch_def ids Let_def split: option.split)
  show "slots_kept p (fst (snd (handle_break K ctx p w)))"
  proof (cases "find_session_for_pid pid p")
    case None
    then show ?thesis by (simp add: handle_break_def ids Let_def)
  next
    case (Some i)
    obtain r w1 where c: "sce_call ''ksceKernelCopyFromUserProc'' (ksceKernelCopyFromUserProc K pid (ctx_fault_addr ctx) 4) w0 = (r, w1)"
      by (metis prod.exhaust)
    let ?w = "halt_for_debug K pid tid w1"
    obtain q s w2 where f: "step_finished K (p ! i) ?w = (q, s, w2)" by (metis prod.exhaust)
    then have "is_step (ctx_fault_addr ctx) (p ! i) \<Longrightarrow> slots_kept p (p[i := s])"
      using slots_kept_step [of _ p i K ?w] by simp
    with Some c f slots_kept_push(1) [of p i K _ ?w] show ?thesis
      by (cases r rule: sum.exhaust; cases q rule: sum.exhaust)
        (auto simp: handle_break_def ids Let_def split_beta)
  qed
qed

lemma handlers_keep_slots:
  "h \<in> {handle_prefetch_abort K ctx, handle_data_abort K ctx, handle_undef K ctx} \<Longrightarrow> slots_kept p (fst (snd (h p w)))"
  "slots_kept p (fst (handle_proc_create K pid p w))" "slots_kept p (fst (handle_proc_kill K pid p w))"
proof -
  show "h \<in> {handle_prefetch_abort K ctx, handle_data_abort K ctx, handle_undef K ctx} \<Longrightarrow> slots_kept p (fst (snd (h p w)))"
    using exceptions_keep_slots [of p K] by (auto simp: handle_prefetch_abort_def handle_data_abort_def handle_undef_def)
  show "slots_kept p (fst (handle_proc_create K pid p w))" by (simp add: handle_proc_create_def split: option.split)
  show "slots_kept p (fst (handle_proc_kill K pid p w))"
    using slots_kept_push(2) by (auto simp: handle_proc_kill_def split: option.split)
qed

lemma stub_ok_handled:
  assumes "stub_ok st" "slots_kept (st_pool st) (fst p)" shows "stub_ok (handled_by p st)"
proof -
  note ok = stub_okD [OF assms(1)]
  have kept: "keeps_claim (st_pool st ! i) (fst p ! i)" "free_slot (st_pool st ! i) \<Longrightarrow> fst p ! i = st_pool st ! i"
    if "i < MAX_SESSIONS" for i
    using assms(2) ok(4,5) that by (simp_all add: slots_kept_def)
  have claims: "claimed_by f (fst p ! i)" if "i < MAX_SESSIONS" "claimed_by f (st_pool st ! i)" for f i
    using kept(1) [OF that(1)] that(2) by (simp add: keeps_claim_def claimed_by_def)
  have holds: "holds_slot (handled_by p st) = holds_slot st" by (simp add: holds_slot_def handled_by_def fun_eq_iff)
  show ?thesis
    unfolding stub_ok_def holds
  proof (intro conjI allI impI)
    show "length (st_pool (handled_by p st)) = MAX_SESSIONS" using assms(2) ok(5) by (simp add: handled_by_def slots_kept_def)
    show "session_ok (st_pool (handled_by p st) ! i)" if "i < MAX_SESSIONS" for i
      using kept(1) [OF that] by (simp add: handled_by_def keeps_claim_def)
    show "i < MAX_SESSIONS" "claimed_by (t_evflag (fst wk)) (st_pool (handled_by p st) ! i)"
      if "workers (handled_by p st) k = Some wk" "t_session (fst wk) = Some i" for k wk i
      using ok(1) [of k wk i] claims that by (simp_all add: handled_by_def)
    show "k = k'" if "holds_slot st k i" "holds_slot st k' i" for k k' i using ok(2) that .
    show "free_slot (st_pool (handled_by p st) ! i)" if "i < MAX_SESSIONS" "\<forall>k. \<not> holds_slot st k i" for i
      using ok(3) [of i] kept(2) that by (simp add: handled_by_def)
  qed
qed

lemma stub_ok_boot: "length junk = 8 \<Longrightarrow> stub_ok (boot_stub junk w)"
  using session_ok_uninit [of junk]
  by (auto simp: stub_ok_def boot_stub_def holds_slot_def free_slot_def uninit_def mpsc_new_def contents_def)

lemma stub_ok_same:
  assumes "stub_ok st" "st_pool st' = st_pool st" "\<And>k. map_option fst (workers st' k) = map_option fst (workers st k)"
  shows "stub_ok st'"
proof -
  have holds: "holds_slot st' = holds_slot st"
    using assms(3) by (simp add: holds_slot_def fun_eq_iff option.map_comp [symmetric])
  have same: "\<exists>wk'. workers st k = Some wk' \<and> fst wk' = fst wk" if "workers st' k = Some wk" for k wk
    using assms(3) [of k] that by (cases "workers st k") auto
  show ?thesis
    unfolding stub_ok_def holds assms(2)
  proof (intro conjI allI impI)
    show "i < MAX_SESSIONS" "claimed_by (t_evflag (fst wk)) (st_pool st ! i)"
      if "workers st' k = Some wk" "t_session (fst wk) = Some i" for k wk i
      using same [OF that(1)] that(2) stub_okD(1) [OF assms(1), of k _ i] by auto
  qed (use stub_okD [OF assms(1)] in simp_all)
qed

lemma stub_ok_step:
  assumes "stub_step A K B N st st'" "stub_ok st" shows "stub_ok st'"
  using assms(1)
proof (cases rule: stub_step.cases)
  case (connects flag w1 sock tc cs w2 k)
  then have holds: "holds_slot st' j i \<longleftrightarrow> holds_slot st j i" for j i
    by (simp add: holds_slot_def target_new_def)
  show ?thesis
    unfolding stub_ok_def holds
  proof (intro conjI allI impI)
    show "i < MAX_SESSIONS" "claimed_by (t_evflag (fst wk)) (st_pool st' ! i)"
      if "workers st' j = Some wk" "t_session (fst wk) = Some i" for j wk i
      using that connects(1) stub_okD(1) [OF assms(2), of j wk i] by (auto simp: target_new_def split: if_splits)
  qed (use connects(1) stub_okD [OF assms(2)] in simp_all)
next
  case (serves k wk r a)
  then have "stays_owned (held_elsewhere st k) (sys (seen_by wk st)) (sys a)" by (blast intro: serve_stays)
  then show ?thesis using stub_ok_done [OF assms(2) serves(2), of "sys a" "Some (tgt (sys a), conn a)"] serves(1)
    by (simp add: done_by_def)
next
  case (ends k wk rest s)
  have close: "stays_owned (held_elsewhere st k) (sys (seen_by wk st)) (sys (app_close K N rest (seen_by wk st)))"
    by (auto simp: app_close_def split: prod.splits intro!: stays_same)
  have owned: "pool_owned (held_elsewhere st k) (sys (app_close K N rest (seen_by wk st)))"
    using close stub_ok_seen [OF assms(2) ends(2)] by (simp add: stays_owned_def)
  have "stays_owned (held_elsewhere st k) (sys (seen_by wk st)) s" "t_session (tgt s) = None"
    using stays_trans [OF close detach_stays(1) [OF ends(3)]] detach_stays(2) [OF ends(3) owned] by simp_all
  then show ?thesis using stub_ok_done [OF assms(2) ends(2), of s None] ends(1) by simp
next
  case (faults h ctx)
  show ?thesis
    unfolding faults(1) by (rule stub_ok_handled [OF assms(2)], rule handlers_keep_slots(1) [OF faults(2)])
next
  case (created pid)
  show ?thesis unfolding created by (rule stub_ok_handled [OF assms(2)], rule handlers_keep_slots(2))
next
  case (killed pid)
  show ?thesis unfolding killed by (rule stub_ok_handled [OF assms(2)], rule handlers_keep_slots(3))
next
  case (refused flag w1 sock e cs w2)
  show ?thesis unfolding refused(1) by (rule stub_ok_same [OF assms(2)]) simp_all
next
  case (writes k wk byte r tc w)
  show ?thesis unfolding writes(1) by (rule stub_ok_same [OF assms(2)]) (simp_all add: writes(2))
next
  case (flushes k wk r tc w)
  show ?thesis unfolding flushes(1) by (rule stub_ok_same [OF assms(2)]) (simp_all add: flushes(2))
next
  case (elsewhere cs w)
  show ?thesis unfolding elsewhere(1) by (rule stub_ok_same [OF assms(2)]) simp_all
qed

section \<open>Every reachable state\<close>

lemma stub_ok_reachable:
  assumes "length junk = 8" "reachable_stub A K B N junk w st" shows "stub_ok st"
  using assms(2) unfolding reachable_stub_def
  by (induction rule: rtranclp_induct) (use assms(1) in \<open>auto intro: stub_ok_boot stub_ok_step\<close>)


definition quiet_boot :: "demo boot" where
  "quiet_boot = \<lparr>stub_word = (\<lambda>_ _. 0), spl_exec_code = (\<lambda>_ _ _ _ w. (0, w)),
     ksceExcpmgrRegisterHandler = (\<lambda>_ _ w. ((0, ()), w)), ksceKernelSysrootSetProcessHandler = (\<lambda>w. ((0, ()), w)),
     ksceKernelRegisterProcEventHandler = (\<lambda>_ w. ((0, ()), w)), ksceKernelRegisterSysEventHandler = (\<lambda>_ w. ((0, ()), w))\<rparr>"

definition boot_junk :: "exception_event list" where
  "boot_junk = replicate 8 (HwBreak 0)"

text \<open>One debugger has connected, and then attached process 5.\<close>

definition one_worker :: "demo stub" where
  "one_worker = (boot_stub boot_junk demo_world)\<lparr>workers := [0 \<mapsto> (target_new 0, quiet_conn)],
     st_conns := quiet_conns, st_world := demo_world\<rparr>"

lemma one_worker_reachable: "reachable_stub A sound_kernel B quiet_net boot_junk demo_world one_worker"
proof -
  let ?boot = "boot_stub boot_junk demo_world"
  have "stub_step A sound_kernel B quiet_net ?boot (?boot\<lparr>workers := (workers ?boot)(0 \<mapsto> (target_new 0, quiet_conn)),
      st_conns := quiet_conns, st_world := demo_world\<rparr>)"
    by (rule connects [where sock = 4 and ?w1.0 = demo_world]) (simp_all add: boot_stub_def quiet_start)
  then show ?thesis by (simp add: reachable_stub_def one_worker_def boot_stub_def r_into_rtranclp)
qed

definition attached_world :: demo where
  "attached_world = snd (halt_process sound_kernel 5 demo_world)"

definition attached_stub :: "demo stub" where
  "attached_stub = one_worker\<lparr>
     workers := [0 \<mapsto> ((target_new 0)\<lparr>t_session := Some 0\<rparr>, quiet_conn)],
     st_pool := (replicate 4 (uninit boot_junk))[0 := (uninit boot_junk)\<lparr>s_pid := 5, s_evflag := Some 0\<rparr>],
     st_world := attached_world\<rparr>"

lemma attached_stub_reachable: "reachable_stub A sound_kernel B quiet_net boot_junk demo_world attached_stub"
proof -
  let ?a = "seen_by (target_new 0, quiet_conn) one_worker"
  obtain r where halted: "halt_process sound_kernel 5 demo_world = (r, attached_world)"
    by (metis attached_world_def prod.collapse)
  have detached: "target_detach sound_kernel \<lparr>tgt = target_new 0, pool = p, wld = demo_world\<rparr> =
      Some \<lparr>tgt = target_new 0, pool = p, wld = demo_world\<rparr>" for p
    by (simp add: target_detach_def target_new_def)
  have attached: "target_attach 5 AttachAttach (sys ?a) = (True, (sys ?a)\<lparr>tgt := (target_new 0)\<lparr>t_session := Some 0\<rparr>,
      pool := st_pool attached_stub\<rparr>)"
    by (simp add: target_attach_def seen_by_def target_new_def gdb_session_new_def one_worker_def boot_stub_def
        attached_stub_def uninit_def Let_def MAX_SESSIONS_def numeral_eq_Suc)
  let ?b = "?a\<lparr>sys := (sys ?a)\<lparr>tgt := (target_new 0)\<lparr>t_session := Some 0\<rparr>, pool := st_pool attached_stub, wld := attached_world\<rparr>\<rparr>"
  have served: "serve A sound_kernel B (Attach 5) ?a = Some ?b"
    using halted attached by (cases r rule: sum.exhaust)
      (auto simp: extended_attach_def FAKE_PID_def detached on_world_def seen_by_def one_worker_def split: fault.splits)
  have "done_by 0 ?b one_worker = attached_stub"
    by (rule stub.equality) (simp_all add: done_by_def seen_by_def attached_stub_def one_worker_def)
  moreover have "stub_step A sound_kernel B quiet_net one_worker (done_by 0 ?b one_worker)"
    by (rule serves [OF _ _ served]) (simp_all add: one_worker_def names_a_process_def PID_UNUSED_def)
  ultimately have "stub_step A sound_kernel B quiet_net one_worker attached_stub" by simp
  then show ?thesis
    using one_worker_reachable [of A B] unfolding reachable_stub_def by (rule rtranclp.rtrancl_into_rtrancl [rotated])
qed


section \<open>No unwrap of nothing\<close>

lemma hw_requests_no_panic:
  assumes "\<And>i. t_session (tgt s) = Some i \<Longrightarrow> s_pid (pool s ! i) \<noteq> PID_UNUSED"
    and "op \<in> {add_hw_breakpoint K a, remove_hw_breakpoint K a, add_hw_watchpoint K a l kind, remove_hw_watchpoint K a}"
  shows "fst (op s) \<noteq> panic"
  using assms(2) set_hw.request_answers [OF assms(1)] clear_hw.request_answers [OF assms(1)]
    set_wp.request_answers [OF assms(1)] clear_wp.request_answers [OF assms(1)]
  by (auto simp: hw_request_defs)

lemma serve_returns:
  assumes "pool_owned others (sys a)" shows "serve A K B r a \<noteq> None"
proof (cases r)
  case (Attach pid)
  then show ?thesis using extended_attach_returns [OF assms] by simp
next
  case (Launch filename)
  then show ?thesis using extended_run_returns [OF assms] by simp
next
  case DetachIt
  then show ?thesis using detach_returns [OF assms] by simp
qed simp_all

lemma step_finished_no_panic: "s_step s \<noteq> None \<Longrightarrow> s_evflag s \<noteq> None \<Longrightarrow> fst (step_finished K s w) = Ok ()"
proof -
  assume "s_step s \<noteq> None" "s_evflag s \<noteq> None"
  then obtain tid a f where s: "s_step s = Some (tid, a)" "s_evflag s = Some f" by auto
  obtain b t w' where c: "clear_sw_breakpoint K a (s\<lparr>s_step := None\<rparr>) w = (b, t, w')" by (metis prod.exhaust)
  then have "s_evflag t = Some f" using same_owner(12) [of K a "s\<lparr>s_step := None\<rparr>" w] s by simp
  with s c show ?thesis by (simp add: step_finished_def Let_def)
qed

lemma handlers_answer:
  assumes "\<And>i. i < length p \<Longrightarrow> s_step (p ! i) \<noteq> None \<Longrightarrow> s_evflag (p ! i) \<noteq> None"
    and "h \<in> {handle_prefetch_abort K ctx, handle_data_abort K ctx, handle_undef K ctx}"
  shows "\<exists>v. fst (h p w) = Ok v"
proof -
  obtain pid tid w0 where ids: "get_thread_context_info K w = ((pid, tid), w0)" by (metis prod.exhaust)
  have plain: "\<exists>v. fst (handle_exception K e p w) = Ok v" "\<exists>v. fst (handle_watch K ctx p w) = Ok v" for e
    by (auto simp: handle_exception_def handle_watch_def ids Let_def split: option.split)
  have "\<exists>v. fst (handle_break K ctx p w) = Ok v"
  proof (cases "find_session_for_pid pid p")
    case None
    then show ?thesis by (simp add: handle_break_def ids Let_def)
  next
    case (Some i)
    obtain r w1 where c: "sce_call ''ksceKernelCopyFromUserProc'' (ksceKernelCopyFromUserProc K pid (ctx_fault_addr ctx) 4) w0 = (r, w1)"
      by (metis prod.exhaust)
    let ?w = "halt_for_debug K pid tid w1"
    obtain q s w2 where f: "step_finished K (p ! i) ?w = (q, s, w2)" by (metis prod.exhaust)
    have "q = Ok ()" if "is_step (ctx_fault_addr ctx) (p ! i)"
      using that f step_finished_no_panic [of "p ! i" K ?w] assms(1) found_slot [OF Some]
      by (auto simp: is_step_def split: option.splits)
    with Some c f show ?thesis
      by (cases r rule: sum.exhaust) (auto simp: handle_break_def ids Let_def split_beta)
  qed
  with assms(2) plain show ?thesis
    by (auto simp: handle_prefetch_abort_def handle_data_abort_def handle_undef_def split: if_splits)
qed

lemma stub_ok_flags:
  assumes "stub_ok st" "i < length (st_pool st)" "s_step (st_pool st ! i) \<noteq> None"
  shows "s_evflag (st_pool st ! i) \<noteq> None"
proof -
  have i: "i < MAX_SESSIONS" using assms(2) stub_okD(5) [OF assms(1)] by simp
  have "\<not> free_slot (st_pool st ! i)" using assms(3) by (auto simp: free_slot_def)
  then obtain k where "holds_slot st k i" using stub_okD(3) [OF assms(1) i] by blast
  then show ?thesis using stub_okD(1) [OF assms(1), of k _ i] by (auto simp: holds_slot_def claimed_by_def)
qed



section \<open>The reserved process id\<close>

text \<open>
  Attaching the reserved process id (\<open>ffffffff\<close> in the protocol) is not refused. The slot it claims
  still looks free, so that the next worker to attach gets the same slot; and with debugging
  enabled the first hardware breakpoint panics the stub.
\<close>

theorem reserved_pid_shares_slot:
  assumes "target_attach PID_UNUSED kind s = (True, s1)" "t_session (tgt s1) = Some i"
  shows "session_pid (pool s1 ! i) = None \<and>
    (pool s2 = pool s1 \<longrightarrow> t_session (tgt s2) = None \<longrightarrow> t_session (tgt (snd (target_attach pid kind' s2))) = Some i) \<and>
    ((\<forall>w. fst (is_debug_enabled K w)) \<longrightarrow> fst (add_hw_breakpoint K a s1) = panic)"
proof (intro conjI impI)
  obtain p where new: "gdb_session_new (t_evflag (tgt s)) PID_UNUSED (pool s) = (Some i, p)" and p: "pool s1 = p"
    using assms by (auto simp: target_attach_def split: if_splits option.splits prod.splits)
  note slot = claimed_slot [OF new]
  have unused: "s_pid (pool s1 ! i) = PID_UNUSED" and i: "i < length (pool s1)" using slot p by simp_all
  then show none: "session_pid (pool s1 ! i) = None" by (simp add: session_pid_def)
  have first: "position (\<lambda>s. s_pid s = PID_UNUSED) (pool s1) = Some i"
  proof (rule position_eqI)
    show "s_pid (pool s1 ! j) \<noteq> PID_UNUSED" if "j < i" for j using slot p that by simp
  qed (use unused i in simp_all)
  show "t_session (tgt (snd (target_attach pid kind' s2))) = Some i" if "pool s2 = pool s1" "t_session (tgt s2) = None"
    using that first by (simp add: target_attach_def gdb_session_new_def Let_def)
  assume on: "\<forall>w. fst (is_debug_enabled K w)"
  obtain w1 w2 where "is_debug_enabled K (wld s1) = (True, w1)" "is_debug_enabled K w1 = (True, w2)"
    using on by (metis prod.collapse)
  then show "fst (add_hw_breakpoint K a s1) = panic"
    using assms(2) none by (simp add: add_hw_breakpoint_def hw_request_def on_session_def
        gdb_session_set_hw_breakpoint_def if_debugging_def set_hw_breakpoint_def)
qed

end
