(* ===== verification/Conn_Owner.thy ===== *)
theory Conn_Owner
  imports Stub_System Tcp_Write
begin

text \<open>
  Who owns the connection states (\<open>CONN_POOL\<close> of \<open>gdb/tcpconn.rs\<close>) in the whole stub: each worker one,
  claimed and its own. So there are never more workers than states, and, the two pools
  having the same size, a worker that wants a session always finds a slot.
\<close>

section \<open>Ownership\<close>

definition has_conn :: "'w stub \<Rightarrow> nat \<Rightarrow> nat \<Rightarrow> bool" where
  "has_conn st k i \<longleftrightarrow> map_option (tc_state \<circ> snd) (workers st k) = Some i"

definition conns_owned :: "'w stub \<Rightarrow> bool" where
  "conns_owned st \<longleftrightarrow> length (st_conns st) = MAX_CONNS \<and>
     (\<forall>k i. has_conn st k i \<longrightarrow> i < MAX_CONNS \<and> c_claimed (st_conns st ! i)) \<and>
     (\<forall>k k' i. has_conn st k i \<longrightarrow> has_conn st k' i \<longrightarrow> k = k')"

lemma conns_ownedD:
  assumes "conns_owned st"
  shows "has_conn st k i \<Longrightarrow> i < MAX_CONNS" "has_conn st k i \<Longrightarrow> c_claimed (st_conns st ! i)"
    "has_conn st k i \<Longrightarrow> has_conn st k' i \<Longrightarrow> k = k'" "length (st_conns st) = MAX_CONNS"
  using assms unfolding conns_owned_def by blast+

text \<open>A step that claims nothing, releases nothing and leaves the workers' states alone.\<close>

lemma conns_owned_same:
  assumes "conns_owned st" "map c_claimed (st_conns st') = map c_claimed (st_conns st)" "has_conn st' = has_conn st"
  shows "conns_owned st'"
proof -
  have "length (st_conns st') = length (st_conns st)" using assms(2) by (metis length_map)
  moreover have "c_claimed (st_conns st' ! i) = c_claimed (st_conns st ! i)" if "i < length (st_conns st)" for i
    using assms(2) that by (metis calculation nth_map)
  ultimately show ?thesis using assms(1) unfolding conns_owned_def assms(3) by metis
qed

section \<open>What the operations do to a connection\<close>

lemma flush_keeps_state: "flush_write_buffer N tc w = Some (r, tc', w') \<Longrightarrow> tc_state tc' = tc_state tc"
proof -
  have "tc_state (fst (snd y)) = tc_state tc" if "flush_write_buffer N tc w = Some y" for y
  proof (rule flush_write_buffer.raw_induct [OF _ that, where P = "\<lambda>N tc w y. tc_state (fst (snd y)) = tc_state tc"], goal_cases)
    case (1 f N tc w y)
    obtain q w2 where send: "socket_send N (tc_socket tc) (take (tc_write_len tc) (tc_write_buffer tc)) w = (q, w2)"
      by (metis prod.exhaust)
    show ?case
      using 1(2) 1(1) [of N _ w2 y] send by (cases q) (auto split: if_splits)
  qed
  then show "flush_write_buffer N tc w = Some (r, tc', w') \<Longrightarrow> ?thesis" by fastforce
qed

lemma flush_full_keeps_state: "flush_if_full N tc w = Some (r, tc', w') \<Longrightarrow> tc_state tc' = tc_state tc"
  by (auto simp: flush_if_full_def split: if_splits dest: flush_keeps_state)

lemma write_keeps_state:
  assumes conn_write: "conn_write N byte tc w = Some (r, tc', w')"
  shows "tc_state tc' = tc_state tc"
proof -
  from conn_write obtain q t v where flush: "flush_if_full N tc w = Some (q, t, v)"
    by (auto simp: conn_write_def bind_eq_Some_conv)
  from flush_full_keeps_state [OF flush] conn_write flush show ?thesis
    by (cases q) (auto simp: conn_write_def split: if_splits dest: flush_full_keeps_state)
qed

text \<open>Serving a request: a byte taken from the connection's buffer is all that changes.\<close>

definition conn_kept :: "'w app \<Rightarrow> 'w app \<Rightarrow> bool" where
  "conn_kept a b \<longleftrightarrow> tc_state (conn b) = tc_state (conn a) \<and> map c_claimed (conns b) = map c_claimed (conns a)"

lemma claimed_same: "c_claimed c = c_claimed (cs ! i) \<Longrightarrow> map c_claimed (cs[i := c]) = map c_claimed cs"
  by (cases "i < length cs") (simp_all add: map_update list_update_same_conv list_update_beyond)

lemma byte_keeps_conn: "conn_kept a (snd (take_byte K a))"
proof -
  obtain r tc c w where read: "tcp_read K (conn a) (conns a ! tc_state (conn a)) (wld (sys a)) = (r, tc, c, w)"
    by (metis prod.exhaust)
  then have "tc_state tc = tc_state (conn a)" "c_claimed c = c_claimed (conns a ! tc_state (conn a))"
    by (auto simp: tcp_read_def split: if_splits sum.splits option.splits)
  then have "conn_kept a (snd (app_read K a))"
    using read by (simp add: app_read_def conn_kept_def claimed_same)
  moreover have "snd (take_byte K a) = snd (app_read K a)"
    by (auto simp: take_byte_def seq_def ret_def throw_def split: prod.splits sum.splits read_result.splits)
  ultimately show ?thesis by simp
qed

lemma takes_keep_conn:
  "conn_kept a (snd (take_detached a))" "conn_kept a (snd (take_exited a))"
  "conn_kept a (snd (take_step a))" "conn_kept a (snd (take_excp a))"
  by (auto simp: conn_kept_def take_detached_def take_exited_def take_step_def take_excp_def on_pool_def
      split: option.splits prod.splits)

lemma interrupt_keeps_conn: "conn_kept a (snd (interrupt_target K a))"
  by (auto simp: conn_kept_def interrupt_target_def on_sys_def split: option.splits prod.splits sum.splits fault.splits)

lemma serve_keeps_conn:
  assumes "serve A K B r a = Some a'" shows "conn_kept a a'"
proof -
  consider "r = TakeByte" | "r \<in> {TakeDetached, TakeExited, TakeStep, TakeExcp, Interrupt}"
    | "serve A K B r a = map_option (\<lambda>s. a\<lparr>sys := s\<rparr>) (serve_target A K B r (sys a))"
    by (cases r) simp_all
  then show ?thesis
  proof cases
    case 1
    then show ?thesis using assms byte_keeps_conn [of a K] by auto
  next
    case 2
    then have "r = TakeDetached \<or> r = TakeExited \<or> r = TakeStep \<or> r = TakeExcp \<or> r = Interrupt" by simp
    then show ?thesis using assms by (elim disjE) (auto intro: takes_keep_conn interrupt_keeps_conn)
  next
    case 3
    then have "map_option (\<lambda>s. a\<lparr>sys := s\<rparr>) (serve_target A K B r (sys a)) = Some a'" using assms by simp
    then show ?thesis by (auto simp: conn_kept_def)
  qed
qed

text \<open>Setting a connection up claims a free state, closing gives back the own one.\<close>

lemma new_claims:
  assumes "tcp_conn_new N sock flag cs w = (r, cs', w')" "length cs = MAX_CONNS"
  shows "length cs' = MAX_CONNS" "j < MAX_CONNS \<Longrightarrow> c_claimed (cs ! j) \<Longrightarrow> c_claimed (cs' ! j)"
    "r = Inr tc \<Longrightarrow> tc_state tc < MAX_CONNS \<and> \<not> c_claimed (cs ! tc_state tc) \<and> c_claimed (cs' ! tc_state tc)"
proof -
  have "length cs' = MAX_CONNS \<and> (j < MAX_CONNS \<longrightarrow> c_claimed (cs ! j) \<longrightarrow> c_claimed (cs' ! j)) \<and>
    (r = Inr tc \<longrightarrow> tc_state tc < MAX_CONNS \<and> \<not> c_claimed (cs ! tc_state tc) \<and> c_claimed (cs' ! tc_state tc))"
  proof (cases rule: acquire_cases [of cs])
    case full
    with assms show ?thesis by (auto simp: tcp_conn_new_def)
  next
    case (slot i c)
    with assms(1) have "cs' = cs[i := c]" "r = Inr tc \<Longrightarrow> tc_state tc = i"
      by (auto simp: tcp_conn_new_def split: prod.splits sum.splits)
    with slot assms(2) show ?thesis by (auto simp: nth_list_update)
  qed
  then show "length cs' = MAX_CONNS" "j < MAX_CONNS \<Longrightarrow> c_claimed (cs ! j) \<Longrightarrow> c_claimed (cs' ! j)"
    "r = Inr tc \<Longrightarrow> tc_state tc < MAX_CONNS \<and> \<not> c_claimed (cs ! tc_state tc) \<and> c_claimed (cs' ! tc_state tc)"
    by blast+
qed

lemma close_releases:
  "length (conns (app_close K N rest a)) = length (conns a)"
  "j \<noteq> tc_state (conn a) \<Longrightarrow> conns (app_close K N rest a) ! j = conns a ! j"
  by (auto simp: app_close_def tcp_close_def Let_def release_state_def split_beta split: option.splits)

section \<open>Every step keeps it\<close>

lemma conns_owned_boot: "conns_owned (boot_stub junk w)"
  by (simp add: conns_owned_def boot_stub_def has_conn_def conn_pool_new_def)

text \<open>A worker that kept its connection's state, whatever it did to its target.\<close>

lemma conns_owned_kept:
  assumes "conns_owned st" "workers st k = Some wk" "workers st' = (workers st)(k \<mapsto> wk')"
    and "tc_state (snd wk') = tc_state (snd wk)" "map c_claimed (st_conns st') = map c_claimed (st_conns st)"
  shows "conns_owned st'"
  using assms(1,5) by (rule conns_owned_same) (use assms(2-4) in \<open>cases wk; cases wk'; auto simp: has_conn_def fun_eq_iff\<close>)

lemma conns_owned_step:
  assumes "stub_step A K B N st st'" "conns_owned st" shows "conns_owned st'"
  using assms(1)
proof (cases rule: stub_step.cases)
  case (connects flag w1 sock tc cs w2 k)
  note new = new_claims [OF connects(3) conns_ownedD(4) [OF assms(2)]]
  have holds: "has_conn st' j i \<longleftrightarrow> (if j = k then i = tc_state tc else has_conn st j i)" for j i
    using connects(1) by (auto simp: has_conn_def)
  have "\<not> has_conn st j (tc_state tc)" for j
    using conns_ownedD(2) [OF assms(2)] new(3) by blast
  then show ?thesis
    using conns_ownedD [OF assms(2)] new connects(1) unfolding conns_owned_def holds by (auto split: if_splits)
next
  case (refused flag w1 sock e cs w2)
  note new = new_claims [OF refused(3) conns_ownedD(4) [OF assms(2)]]
  have "has_conn st' = has_conn st" using refused(1) by (simp add: has_conn_def fun_eq_iff)
  then show ?thesis using conns_ownedD [OF assms(2)] new(1,2) refused(1) unfolding conns_owned_def by simp
next
  case (writes k wk byte r tc w)
  show ?thesis unfolding writes(1)
    by (rule conns_owned_kept [where wk' = "(fst wk, tc)", OF assms(2) writes(2)]) (simp_all add: write_keeps_state [OF writes(3)])
next
  case (flushes k wk r tc w)
  show ?thesis unfolding flushes(1)
    by (rule conns_owned_kept [where wk' = "(fst wk, tc)", OF assms(2) flushes(2)])
      (simp_all add: flush_keeps_state [OF flushes(3) [unfolded conn_flush_def]])
next
  case (serves k wk r a)
  have "conn_kept (seen_by wk st) a" by (rule serve_keeps_conn [OF serves(4)])
  then show ?thesis unfolding serves(1)
    by (intro conns_owned_kept [where wk' = "(tgt (sys a), conn a)", OF assms(2) serves(2)]) (simp_all add: done_by_def conn_kept_def seen_by_def)
next
  case (ends k wk rest s)
  note close = close_releases [where K = K and N = N and rest = rest and a = "seen_by wk st"]
  have mine: "has_conn st k (tc_state (snd wk))" using ends(2) by (simp add: has_conn_def)
  have holds: "has_conn st' j i \<longleftrightarrow> j \<noteq> k \<and> has_conn st j i" for j i
    using ends(1) by (auto simp: has_conn_def)
  have "i \<noteq> tc_state (snd wk)" if "j \<noteq> k" "has_conn st j i" for j i
    using conns_ownedD(3) [OF assms(2) mine] that by blast
  then show ?thesis
    using conns_ownedD [OF assms(2)] close ends(1) unfolding conns_owned_def holds by (auto simp: seen_by_def)
next
  case (faults h ctx)
  show ?thesis unfolding faults(1)
    by (rule conns_owned_same [OF assms(2)]) (simp_all add: handled_by_def has_conn_def fun_eq_iff)
next
  case (created pid)
  show ?thesis unfolding created
    by (rule conns_owned_same [OF assms(2)]) (simp_all add: handled_by_def has_conn_def fun_eq_iff)
next
  case (killed pid)
  show ?thesis unfolding killed
    by (rule conns_owned_same [OF assms(2)]) (simp_all add: handled_by_def has_conn_def fun_eq_iff)
next
  case (elsewhere cs w)
  show ?thesis unfolding elsewhere(1)
    by (rule conns_owned_same [OF assms(2)]) (simp_all add: elsewhere(2) has_conn_def fun_eq_iff)
qed

lemma conns_owned_reachable:
  assumes "reachable_stub A K B N junk w st" shows "conns_owned st"
  using assms unfolding reachable_stub_def
  by (induction rule: rtranclp_induct) (auto intro: conns_owned_boot conns_owned_step)

section \<open>As many workers as states\<close>

definition running :: "'w stub \<Rightarrow> nat set" where
  "running st = {k. workers st k \<noteq> None}"

definition conn_of :: "'w stub \<Rightarrow> nat \<Rightarrow> nat" where
  "conn_of st k = tc_state (snd (the (workers st k)))"

lemma few_workers:
  assumes "conns_owned st" shows "finite (running st)" "card (running st) \<le> MAX_CONNS"
proof -
  have has: "has_conn st k (conn_of st k)" if "k \<in> running st" for k
    using that by (auto simp: running_def conn_of_def has_conn_def)
  have inj: "inj_on (conn_of st) (running st)"
    by (rule inj_onI) (metis has conns_ownedD(3) [OF assms])
  moreover have "conn_of st ` running st \<subseteq> {..<MAX_CONNS}" using has conns_ownedD(1) [OF assms] by auto
  ultimately show "finite (running st)" by (metis finite_imageD finite_lessThan finite_subset)
  show "card (running st) \<le> MAX_CONNS"
    using card_inj_on_le [OF inj \<open>conn_of st ` running st \<subseteq> _\<close>] by simp
qed

text \<open>The slots the other workers hold: at most one each, so one less than there are.\<close>

lemma others_leave_a_slot:
  assumes "conns_owned st" "workers st k = Some wk"
  obtains i where "i < MAX_SESSIONS" "i \<notin> held_elsewhere st k"
proof -
  define slot where "slot j = the (t_session (fst (the (workers st j))))" for j
  have k: "k \<in> running st" using assms(2) by (simp add: running_def)
  have "held_elsewhere st k \<subseteq> slot ` (running st - {k})"
    by (force simp: held_elsewhere_def holds_slot_def running_def slot_def)
  then have "card (held_elsewhere st k) \<le> card (running st - {k})"
    using few_workers(1) [OF assms(1)] by (meson card_image_le card_mono finite_Diff finite_imageI le_trans)
  also have "\<dots> < card (running st)" using few_workers(1) [OF assms(1)] k by (rule card_Diff1_less)
  also have "\<dots> \<le> MAX_SESSIONS" using few_workers(2) [OF assms(1)] by (simp add: MAX_CONNS_def MAX_SESSIONS_def)
  finally have "\<not> {..<MAX_SESSIONS} \<subseteq> held_elsewhere st k"
    using few_workers(1) [OF assms(1)] \<open>held_elsewhere st k \<subseteq> _\<close>
    by (metis card_lessThan card_mono finite_Diff finite_imageI finite_subset not_less)
  then show ?thesis using that by auto
qed

lemma attach_finds_slot:
  assumes "pool_owned others s" "t_session (tgt s) = None" "i < MAX_SESSIONS" "i \<notin> others" "pid \<noteq> PID_UNUSED"
  shows "\<exists>j s'. target_attach pid kind s = (True, s') \<and> t_session (tgt s') = Some j \<and> j < MAX_SESSIONS \<and>
    j \<notin> others \<and> claimed_by (t_evflag (tgt s)) (pool s' ! j) \<and> s_pid (pool s' ! j) = pid"
proof -
  have len: "length (pool s) = MAX_SESSIONS" and free: "s_pid (pool s ! i) = PID_UNUSED"
    using assms by (simp_all add: pool_owned_def free_slot_def)
  have "pool s ! i \<in> set (pool s)" using assms(3) len by simp
  with free obtain j where j: "position (\<lambda>s. s_pid s = PID_UNUSED) (pool s) = Some j"
    by (cases "position (\<lambda>s. s_pid s = PID_UNUSED) (pool s)") (auto simp: position_None_iff)
  from position_SomeD [OF j] have "j < length (pool s)" "s_pid (pool s ! j) = PID_UNUSED" by simp_all
  moreover from this have "j \<notin> others" using assms(1) len by (auto simp: pool_owned_def)
  ultimately show ?thesis
    using j assms(2,5) len
    by (simp add: target_attach_def gdb_session_new_def Let_def claimed_by_def)
qed

section \<open>Properties\<close>





section \<open>Workers side by side\<close>

text \<open>Serving a request touches no connection state but the own one.\<close>

lemma serve_own_conn:
  assumes "serve A K B r a = Some a'" "j \<noteq> tc_state (conn a)" shows "conns a' ! j = conns a ! j"
proof -
  consider "r = TakeByte" | "r \<noteq> TakeByte" by blast
  then show ?thesis
  proof cases
    case 1
    obtain q tc c w where read: "tcp_read K (conn a) (conns a ! tc_state (conn a)) (wld (sys a)) = (q, tc, c, w)"
      by (metis prod.exhaust)
    then have "tc_state tc = tc_state (conn a)" by (auto simp: tcp_read_def split: if_splits sum.splits option.splits)
    then have "conns (snd (app_read K a)) ! j = conns a ! j" using read assms(2) by (simp add: app_read_def)
    moreover have "snd (take_byte K a) = snd (app_read K a)"
      by (auto simp: take_byte_def seq_def ret_def throw_def split: prod.splits sum.splits read_result.splits)
    ultimately show ?thesis using 1 assms(1) by auto
  next
    case 2
    have "conns (snd (take_detached a)) = conns a" "conns (snd (take_exited a)) = conns a"
      "conns (snd (take_step a)) = conns a" "conns (snd (take_excp a)) = conns a"
      "conns (snd (interrupt_target K a :: (sce_error, stop_reason option) res \<times> _)) = conns a"
      by (auto simp: take_detached_def take_exited_def take_step_def take_excp_def on_pool_def interrupt_target_def on_sys_def
          split: option.splits prod.splits sum.splits fault.splits)
    then have "conns a' = conns a" using 2 assms(1) by (cases r) auto
    then show ?thesis by simp
  qed
qed


text \<open>A second debugger connects to the stub of the first, then the first detaches.\<close>

definition second_conn :: tcp_conn where
  "second_conn = quiet_conn\<lparr>tc_state := 1\<rparr>"

definition two_workers :: "demo stub" where
  "two_workers = attached_stub\<lparr>workers := (workers attached_stub)(1 \<mapsto> (target_new 0, second_conn)),
     st_conns := quiet_conns[1 := conn_reset (conn_state_new\<lparr>c_claimed := True\<rparr>)]\<rparr>"

lemma two_workers_reachable: "reachable_stub A sound_kernel B quiet_net boot_junk demo_world two_workers"
proof -
  let ?w = attached_world
  have flag: "evf_new sound_kernel ''GdbEvtFlag'' ?w = (Ok 0, ?w)" if "d_broken ?w = {}"
    using that by (simp add: evf_new_def seq_call ret_def sound_kernel_def demo_defs)
  have broken: "d_broken ?w = {}" by code_simp
  have "acquire_state quiet_conns = (Some 1, quiet_conns[1 := conn_reset (conn_state_new\<lparr>c_claimed := True\<rparr>)])"
    by (simp add: acquire_state_def quiet_conns_def conn_pool_new_def MAX_CONNS_def conn_state_new_def conn_reset_def numeral_eq_Suc)
  then have conn: "tcp_conn_new quiet_net 4 0 quiet_conns ?w =
      (Ok second_conn, quiet_conns[1 := conn_reset (conn_state_new\<lparr>c_claimed := True\<rparr>)], ?w)"
    by (simp add: tcp_conn_new_def joinable_create_def create_thread_def start_thread_def act_simps sce_call_def
        quiet_net_def quiet_conn_def second_conn_def)
  have "stub_step A sound_kernel B quiet_net attached_stub (attached_stub\<lparr>
      workers := (workers attached_stub)(1 \<mapsto> (target_new 0, second_conn)),
      st_conns := quiet_conns[1 := conn_reset (conn_state_new\<lparr>c_claimed := True\<rparr>)], st_world := ?w\<rparr>)"
    by (rule connects [where sock = 4 and ?w1.0 = ?w])
      (use flag broken conn in \<open>simp_all add: attached_stub_def one_worker_def\<close>)
  moreover have "attached_stub\<lparr>workers := (workers attached_stub)(1 \<mapsto> (target_new 0, second_conn)),
      st_conns := quiet_conns[1 := conn_reset (conn_state_new\<lparr>c_claimed := True\<rparr>)], st_world := ?w\<rparr> = two_workers"
    by (simp add: two_workers_def attached_stub_def)
  ultimately show ?thesis
    using attached_stub_reachable [of A B] unfolding reachable_stub_def by (metis rtranclp.rtrancl_into_rtrancl)
qed


end
