(* ===== verification/Interface.thy ===== *)
theory Interface
  imports Assembly Conn_Owner
begin

text \<open>
  What the stub hands out and may be called through: the tables of process handlers given to the
  kernel (\<open>gdb/handlers.rs\<close>), the exception trampolines, the module's entry (\<open>main.rs\<close>), and the
  extensions the target offers the protocol library (\<open>gdb/target.rs\<close>, \<open>gdb/multi_thread.rs\<close>).
  Whatever the kernel calls is a step of the stub's model.
\<close>

section \<open>The tables of process handlers\<close>

text \<open>Handlers that do nothing. \<open>'m\<close> is the state they leave alone.\<close>

definition handler_dummy_exit :: "sce_uid \<Rightarrow> i32 \<Rightarrow> u64 \<Rightarrow> 'm \<Rightarrow> 'm" where
  "handler_dummy_exit pid flags time m = m"

definition handler_dummy_kill :: "sce_uid \<Rightarrow> 'm \<Rightarrow> 'm" where
  "handler_dummy_kill pid m = m"

definition handler_dummy_modid :: "sce_uid \<Rightarrow> sce_uid \<Rightarrow> u64 \<Rightarrow> 'm \<Rightarrow> 'm" where
  "handler_dummy_modid pid modid time m = m"

definition handler_dummy_modid_flag :: "sce_uid \<Rightarrow> sce_uid \<Rightarrow> i32 \<Rightarrow> u64 \<Rightarrow> 'm \<Rightarrow> 'm" where
  "handler_dummy_modid_flag pid modid flags time m = m"

definition handler_dummy_process_created :: "i32 \<Rightarrow> i32 \<Rightarrow> i32 \<Rightarrow> 'm \<Rightarrow> i32 \<times> 'm" where
  "handler_dummy_process_created a1 a2 a3 m = (0, m)"

record 'm sysroot_process_handler =
  sph_size :: u32
  sph_unk_4 :: "(sce_uid \<Rightarrow> sce_uid \<Rightarrow> i32 \<Rightarrow> u64 \<Rightarrow> 'm \<Rightarrow> 'm) option"
  sph_exit :: "(sce_uid \<Rightarrow> i32 \<Rightarrow> u64 \<Rightarrow> 'm \<Rightarrow> 'm) option"
  sph_kill :: "(sce_uid \<Rightarrow> 'm \<Rightarrow> 'm) option"
  sph_unk_10 :: "(sce_uid \<Rightarrow> sce_uid \<Rightarrow> u64 \<Rightarrow> 'm \<Rightarrow> 'm) option"
  sph_unk_14 :: "(sce_uid \<Rightarrow> sce_uid \<Rightarrow> u64 \<Rightarrow> 'm \<Rightarrow> 'm) option"
  sph_unk_18 :: "(sce_uid \<Rightarrow> sce_uid \<Rightarrow> u64 \<Rightarrow> 'm \<Rightarrow> 'm) option"
  sph_on_process_created :: "(i32 \<Rightarrow> i32 \<Rightarrow> i32 \<Rightarrow> 'm \<Rightarrow> i32 \<times> 'm) option"
  sph_unk_20 :: "(sce_uid \<Rightarrow> sce_uid \<Rightarrow> u64 \<Rightarrow> 'm \<Rightarrow> 'm) option"
  sph_unk_24 :: "(sce_uid \<Rightarrow> sce_uid \<Rightarrow> i32 \<Rightarrow> u64 \<Rightarrow> 'm \<Rightarrow> 'm) option"

text \<open>Ten words.\<close>

definition PROC_HANDLER :: "'m sysroot_process_handler" where
  "PROC_HANDLER = \<lparr>sph_size = 40, sph_unk_4 = Some handler_dummy_modid_flag, sph_exit = Some handler_dummy_exit,
     sph_kill = Some handler_dummy_kill, sph_unk_10 = Some handler_dummy_modid, sph_unk_14 = Some handler_dummy_modid,
     sph_unk_18 = Some handler_dummy_modid, sph_on_process_created = Some handler_dummy_process_created,
     sph_unk_20 = Some handler_dummy_modid, sph_unk_24 = Some handler_dummy_modid_flag\<rparr>"

text \<open>An event handler gets the process id and an argument; both handlers answer 0.\<close>

type_synonym 'm proc_event = "sce_uid \<Rightarrow> i32 \<Rightarrow> 'm \<Rightarrow> i32 \<times> 'm"

record 'm proc_event_handler =
  peh_size :: u32
  peh_create :: "'m proc_event option"
  peh_exit :: "'m proc_event option"
  peh_kill :: "'m proc_event option"
  peh_stop :: "'m proc_event option"
  peh_start :: "'m proc_event option"
  peh_switch_process :: "'m proc_event option"

definition PROC_HANDLER2 :: "'w kernel \<Rightarrow> 'w pool_world proc_event_handler" where
  "PROC_HANDLER2 K = \<lparr>peh_size = 28, peh_create = Some (\<lambda>pid _ m. (0, handle_proc_create K pid (fst m) (snd m))),
     peh_exit = None, peh_kill = Some (\<lambda>pid _ m. (0, handle_proc_kill K pid (fst m) (snd m))),
     peh_stop = None, peh_start = None, peh_switch_process = None\<rparr>"

section \<open>What the kernel calls\<close>

text \<open>Any entry of the two tables, the system event handler, or an exception trampoline.\<close>

inductive kernel_calls :: "'w kernel \<Rightarrow> 'w boot \<Rightarrow> excp_abi \<Rightarrow> 'w pool_world \<Rightarrow> 'w pool_world \<Rightarrow> bool" for K B A where
  calls_modid_flag: "Some f \<in> {sph_unk_4 PROC_HANDLER, sph_unk_24 PROC_HANDLER} \<Longrightarrow>
    kernel_calls K B A m (f pid modid flags time m)"
| calls_exit: "sph_exit PROC_HANDLER = Some f \<Longrightarrow> kernel_calls K B A m (f pid flags time m)"
| calls_kill: "sph_kill PROC_HANDLER = Some g \<Longrightarrow> kernel_calls K B A m (g pid m)"
| calls_modid: "Some h \<in> {sph_unk_10 PROC_HANDLER, sph_unk_14 PROC_HANDLER, sph_unk_18 PROC_HANDLER, sph_unk_20 PROC_HANDLER} \<Longrightarrow>
    kernel_calls K B A m (h pid modid time m)"
| calls_created: "sph_on_process_created PROC_HANDLER = Some c \<Longrightarrow> kernel_calls K B A m (snd (c a1 a2 a3 m))"
| calls_event: "Some e \<in> {peh_create (PROC_HANDLER2 K), peh_exit (PROC_HANDLER2 K), peh_kill (PROC_HANDLER2 K),
      peh_stop (PROC_HANDLER2 K), peh_start (PROC_HANDLER2 K), peh_switch_process (PROC_HANDLER2 K)} \<Longrightarrow>
    kernel_calls K B A m (snd (e pid arg m))"
| calls_sysevent: "kernel_calls K B A (p, w) (p, snd (handle_sysevent B resuming eventid w))"
| calls_trampoline: "keeps_r4 clobber \<Longrightarrow> e_call E (excp_entry x) = call_handler x K A clobber \<Longrightarrow>
    exec_asm E (excp_code x) c (p, w, seen) = Some (a, c', p', w', seen') \<Longrightarrow> kernel_calls K B A (p, w) (p', w')"

lemma excp_function_handler:
  "excp_function x K at_ptr context earlier \<in>
    {handle_prefetch_abort K (at_ptr context), handle_data_abort K (at_ptr context), handle_undef K (at_ptr context)}"
  by (cases x) (simp_all add: gdb_pabt_handler_def gdb_dabt_handler_def gdb_undef_handler_def)

lemma trampoline_runs_handler:
  assumes "e_call E (excp_entry x) = call_handler x K A clobber"
    and "exec_asm E (excp_code x) c (p, w, seen) = Some (a, c', p', w', seen')"
  shows "(p', w') = snd (excp_function x K (context_at A) (cpu_r c 0) (cpu_r c 1) p w)"
  using assms by (auto simp: excp_code_exec call_handler_def Let_def split: option.splits prod.splits sum.splits)

lemma kernel_call_is_step:
  assumes "kernel_calls K B A (st_pool st, st_world st) m"
  shows "stub_step I K B N st (handled_by m st)"
proof -
  have same: "stub_step I K B N st (handled_by (st_pool st, v) st)" for v
    using elsewhere [of "st_conns st" st I K B N v] by (simp add: handled_by_def)
  from assms show ?thesis
  proof (cases rule: kernel_calls.cases)
    case (calls_event e pid arg)
    then have "m = handle_proc_create K pid (st_pool st) (st_world st) \<or> m = handle_proc_kill K pid (st_pool st) (st_world st)"
      by (auto simp: PROC_HANDLER2_def)
    then show ?thesis using stub_step.created [of I K B N st pid] stub_step.killed [of I K B N st pid] by blast
  next
    case (calls_sysevent resuming eventid)
    then show ?thesis using same by simp
  next
    case (calls_trampoline clobber E x c seen a c' p' w' seen')
    then have "m = snd (excp_function x K (context_at A) (cpu_r c 0) (cpu_r c 1) (st_pool st) (st_world st))"
      using trampoline_runs_handler [of E x K A clobber c "st_pool st" "st_world st" seen a c' p' w' seen'] by simp
    then show ?thesis using stub_step.faults [OF excp_function_handler] by metis
  qed (auto simp: PROC_HANDLER_def handler_dummy_exit_def handler_dummy_kill_def handler_dummy_modid_def
      handler_dummy_modid_flag_def handler_dummy_process_created_def same)
qed

section \<open>Every exception goes down the chain\<close>


text \<open>A thread of the attached process runs into a breakpoint; another handler is linked at 0x8000.\<close>

definition demo_abi :: excp_abi where
  "demo_abi = \<lparr>context_at = (\<lambda>_. demo_hit), code_word = (\<lambda>v. case v of NotHandled \<Rightarrow> 0 | HandlingCode2 \<Rightarrow> 2)\<rparr>"

definition demo_env :: "demo handler_world env" where
  "demo_env = \<lparr>e_link = (\<lambda>_. 0x100), e_load = (\<lambda>_ _. 0x8000),
     e_call = (\<lambda>_. call_handler GdbPabt sound_kernel demo_abi (\<lambda>r. (\<lambda>_. 7)(4 := r 4)))\<rparr>"


section \<open>The module's entry\<close>

text \<open>It returns 0 unless a registration panics, and then never.\<close>

definition module_start :: "'w boot \<Rightarrow> 'w net \<Rightarrow> 'w \<Rightarrow> (u32 \<times> 'w) option" where
  "module_start B N w = (case main B N w of
     (Inl _, _) \<Rightarrow> panic_handler [] []
   | (Inr _, w) \<Rightarrow> Some (0, w))"

lemma or_panic_passes:
  assumes "\<And>v. 0 \<le> sint (fst (fst (f v)))" shows "\<exists>v'. or_panic (sce_call name f) v = (Ok (), v')"
  using assms [of v] by (auto simp: or_panic_def sce_call_def split_beta)

lemma module_start_returns:
  assumes "\<And>v. 0 \<le> sint (fst (fst (ksceKernelSysrootSetProcessHandler B v)))"
    and "\<And>v. 0 \<le> sint (fst (fst (ksceKernelRegisterProcEventHandler B ''gdb_proc_event'' v)))"
    and "\<And>v. 0 \<le> sint (fst (fst (ksceKernelRegisterSysEventHandler B ''enable_debug'' v)))"
  shows "\<exists>w'. module_start B N w = Some (0, w')"
proof -
  let ?v = "register_exception_handlers B w"
  obtain v1 where 1: "or_panic (sce_call ''ksceKernelSysrootSetProcessHandler'' (ksceKernelSysrootSetProcessHandler B)) ?v = (Ok (), v1)"
    using or_panic_passes [where f = "ksceKernelSysrootSetProcessHandler B", OF assms(1)] by blast
  obtain v2 where 2: "or_panic (sce_call ''ksceKernelRegisterProcEventHandler''
      (ksceKernelRegisterProcEventHandler B ''gdb_proc_event'')) v1 = (Ok (), v2)" using or_panic_passes [where f = "ksceKernelRegisterProcEventHandler B ''gdb_proc_event''", OF assms(2)] by blast
  obtain v3 where 3: "register_sysevent_handler B v2 = (Ok (), v3)"
    using or_panic_passes [where f = "ksceKernelRegisterSysEventHandler B ''enable_debug''", OF assms(3)] unfolding register_sysevent_handler_def by blast
  have start: "fst (start_gdb N v) \<noteq> panic" for v
    by (auto simp: start_gdb_def detached_create_def detached_start_def start_thread_def create_thread_def seq_def ret_def
        sce_call_def split: prod.splits sum.splits if_splits)
  have "fst (main B N w) = Ok ()"
    using start [of v3] 1 2 3
    by (auto simp: main_def register_process_handlers_def seq_def enable_debug_def split: prod.splits sum.splits fault.splits)
  then show ?thesis by (auto simp: module_start_def split_beta)
qed

section \<open>What the target offers the protocol library\<close>

datatype extension =
    MultiThreadBase | BreakpointsX | MonitorX | ExtendedModeX | LibrariesX | ProcessInfoX | ExecFileX
  | CurrentActivePidX | ResumeX | ThreadExtraInfoX | SingleRegisterX | SingleStepX | SchedulerLockingX
  | HwBreakpointX | HwWatchpointX | SwBreakpointX

definition target_supports :: "extension list" where
  "target_supports = [MultiThreadBase, BreakpointsX, MonitorX, ExtendedModeX, LibrariesX, ProcessInfoX, ExecFileX]"

definition extended_mode_supports :: "extension list" where
  "extended_mode_supports = [CurrentActivePidX]"

definition thread_supports :: "extension list" where
  "thread_supports = [ResumeX, ThreadExtraInfoX, SingleRegisterX]"

definition resume_supports :: "extension list" where
  "resume_supports = [SingleStepX, SchedulerLockingX]"

text \<open>The hardware extensions ask each time whether debugging is enabled.\<close>

definition breakpoints_support :: "'w kernel \<Rightarrow> extension \<Rightarrow> 'w sys \<Rightarrow> bool \<times> 'w sys" where
  "breakpoints_support K x s = (case x of
     HwBreakpointX \<Rightarrow> support_hw K s
   | HwWatchpointX \<Rightarrow> support_hw K s
   | SwBreakpointX \<Rightarrow> (True, s)
   | _ \<Rightarrow> (False, s))"

definition target_restart :: "'w sys \<Rightarrow> (sce_error, unit) res \<times> 'w sys" where
  "target_restart s = (panic, s)"

text \<open>The extension a request comes through, and whether it is offered.\<close>

fun comes_through :: "request \<Rightarrow> extension option" where
  "comes_through (Attach _) = Some ExtendedModeX"
| "comes_through (Launch _) = Some ExtendedModeX"
| "comes_through (KillIt _) = Some ExtendedModeX"
| "comes_through (Libraries _ _) = Some LibrariesX"
| "comes_through Processes = Some ProcessInfoX"
| "comes_through (ExecFile _ _ _ _) = Some ExecFileX"
| "comes_through SupportHw = Some BreakpointsX"
| "comes_through (AddSw _ _) = Some SwBreakpointX"
| "comes_through (RemoveSw _) = Some SwBreakpointX"
| "comes_through (AddHw _) = Some HwBreakpointX"
| "comes_through (RemoveHw _) = Some HwBreakpointX"
| "comes_through (AddWatch _ _ _) = Some HwWatchpointX"
| "comes_through (RemoveWatch _) = Some HwWatchpointX"
| "comes_through (ReadRegister _ _ _) = Some SingleRegisterX"
| "comes_through (WriteRegister _ _ _) = Some SingleRegisterX"
| "comes_through (ThreadInfo _ _) = Some ThreadExtraInfoX"
| "comes_through ResumeAll = Some ResumeX"
| "comes_through ClearActions = Some ResumeX"
| "comes_through (ContinueThread _ _) = Some ResumeX"
| "comes_through (StepThread _ _) = Some SingleStepX"
| "comes_through SchedulerLock = Some SchedulerLockingX"
| "comes_through (MonitorCmd _ _) = Some MonitorX"
| "comes_through (ReadRegisters _ _) = Some MultiThreadBase"
| "comes_through (WriteRegisters _ _) = Some MultiThreadBase"
| "comes_through (ReadAddrs _ _) = Some MultiThreadBase"
| "comes_through (WriteAddrs _ _) = Some MultiThreadBase"
| "comes_through ActiveThreads = Some MultiThreadBase"
| "comes_through (ThreadAlive _) = Some MultiThreadBase"
| "comes_through r = None"

definition offered :: "'w kernel \<Rightarrow> extension \<Rightarrow> 'w sys \<Rightarrow> bool" where
  "offered K x s \<longleftrightarrow> x \<in> set (target_supports @ extended_mode_supports @ thread_supports @ resume_supports) \<or>
     fst (breakpoints_support K x s)"

text \<open>Only the hardware requests are ever withheld: when debugging is disabled.\<close>

lemma offered_requests:
  assumes "comes_through r = Some x"
  shows "offered K x s \<longleftrightarrow> (x \<in> {HwBreakpointX, HwWatchpointX} \<longrightarrow> fst (support_hw K s))"
  using assms
  by (cases r) (simp_all add: offered_def breakpoints_support_def target_supports_def extended_mode_supports_def
      thread_supports_def resume_supports_def)

end
