(* ===== verification/Descriptors.thy ===== *)
theory Descriptors
  imports Net Kernel_Props
begin

text \<open>
  Which socket descriptors are open while the server of \<open>gdb/main.rs\<close> runs. A \<open>TcpListener\<close> or
  \<open>TcpSocket\<close> closes its descriptor when dropped, but \<open>listen\<close> and \<open>accept\<close> make one only at
  their end: an error before leaves the descriptor open with nobody to close it.
\<close>

section \<open>What the network calls do to the open descriptors\<close>

definition opens_one :: "('w \<Rightarrow> i32 set) \<Rightarrow> ('w, 'a) syscall \<Rightarrow> bool" where
  "opens_one opens f \<longleftrightarrow> (\<forall>w. case f w of ((d, _), w') \<Rightarrow>
     if 0 \<le> sint d then d \<notin> opens w \<and> opens w' = insert d (opens w) else opens w' = opens w)"

definition socket_laws :: "('w \<Rightarrow> i32 set) \<Rightarrow> 'w kernel \<Rightarrow> 'w net \<Rightarrow> bool" where
  "socket_laws opens K N \<longleftrightarrow> (\<forall>w. finite (opens w)) \<and>
     (\<forall>name f t p. opens_one opens (ksceNetSocket N name f t p)) \<and> (\<forall>l. opens_one opens (ksceNetAccept N l)) \<and>
     (\<forall>d w. opens (snd (ksceNetClose N d w)) = opens w - {d}) \<and>
     (\<forall>d a n. keeps_mem opens (ksceNetBind N d a n)) \<and> (\<forall>d n. keeps_mem opens (ksceNetListen N d n)) \<and>
     (\<forall>d l x v. keeps_mem opens (ksceNetSetsockopt N d l x v)) \<and> (\<forall>t w. opens (ksceKernelDelayThread K t w) = opens w)"

lemma socket_lawsD:
  assumes "socket_laws opens K N"
  shows "finite (opens w)" "opens (snd (ksceNetClose N d w)) = opens w - {d}"
    "opens (snd (ksceNetBind N d a n w)) = opens w" "opens (snd (ksceNetListen N d m w)) = opens w"
    "opens (snd (ksceNetSetsockopt N d l x v w)) = opens w" "opens (ksceKernelDelayThread K t w) = opens w"
    "ksceNetSocket N name f ty p w = ((d, u), w') \<Longrightarrow> 0 \<le> sint d \<Longrightarrow> d \<notin> opens w \<and> opens w' = insert d (opens w)"
    "ksceNetSocket N name f ty p w = ((d, u), w') \<Longrightarrow> \<not> 0 \<le> sint d \<Longrightarrow> opens w' = opens w"
    "ksceNetAccept N ls w = ((d, u), w') \<Longrightarrow> 0 \<le> sint d \<Longrightarrow> d \<notin> opens w \<and> opens w' = insert d (opens w)"
    "ksceNetAccept N ls w = ((d, u), w') \<Longrightarrow> \<not> 0 \<le> sint d \<Longrightarrow> opens w' = opens w"
  using assms unfolding socket_laws_def opens_one_def keeps_mem_def by (simp_all, (fastforce split: prod.splits)+)

text \<open>
  Listening gives a listener with its descriptor open, or fails; then nothing changed exactly if no
  socket was made.
\<close>

lemma listen_opens:
  assumes "socket_laws opens K N" "listener_listen N port name w = (r, w')"
  shows "case r of Inr l \<Rightarrow> l \<notin> opens w \<and> opens w' = insert l (opens w)
    | Inl _ \<Rightarrow> if 0 \<le> sint (fst (fst (ksceNetSocket N name (AF_INET N) (SOCK_STREAM N) (IPPROTO_TCP N) w)))
        then \<exists>d. d \<notin> opens w \<and> opens w' = insert d (opens w) else opens w' = opens w"
proof -
  obtain d u w1 where s: "ksceNetSocket N name (AF_INET N) (SOCK_STREAM N) (IPPROTO_TCP N) w = ((d, u), w1)"
    by (metis prod.exhaust)
  show ?thesis
    using assms(2) s socket_lawsD(7,8) [OF assms(1) s] socket_lawsD(3,4) [OF assms(1)]
    by (auto simp: listener_listen_def seq_call ret_def split: if_splits sum.splits)
qed

text \<open>Accepting likewise, when its socket option cannot be set.\<close>

lemma accept_opens:
  assumes "socket_laws opens K N" "listener_accept N l w = (r, w')"
  shows "case r of Inr s \<Rightarrow> s \<notin> opens w \<and> opens w' = insert s (opens w)
    | Inl _ \<Rightarrow> if 0 \<le> sint (fst (fst (ksceNetAccept N l w)))
        then \<exists>d. d \<notin> opens w \<and> opens w' = insert d (opens w) else opens w' = opens w"
proof -
  obtain d u w1 where s: "ksceNetAccept N l w = ((d, u), w1)" by (metis prod.exhaust)
  show ?thesis
    using assms(2) s socket_lawsD(9,10) [OF assms(1) s] socket_lawsD(5) [OF assms(1)]
    by (auto simp: listener_accept_def seq_call ret_def split: if_splits sum.splits)
qed

section \<open>A server that cannot bind its port\<close>

definition cannot_bind :: "'w net \<Rightarrow> bool" where
  "cannot_bind N \<longleftrightarrow> (\<forall>d a n w. sint (fst (fst (ksceNetBind N d a n w))) < 0)"

text \<open>The kernel's limit on open descriptors.\<close>

definition limited :: "('w \<Rightarrow> i32 set) \<Rightarrow> nat \<Rightarrow> 'w net \<Rightarrow> bool" where
  "limited opens most N \<longleftrightarrow> (\<forall>name f t p w. 0 \<le> sint (fst (fst (ksceNetSocket N name f t p w))) \<longleftrightarrow> card (opens w) < most)"

lemma failing_pass:
  assumes "socket_laws opens K N" "cannot_bind N" "limited opens most N" "card (opens w) \<le> most"
  obtains w' where "main_step K N None w = (None, w')" "card (opens w') = min most (Suc (card (opens w)))"
proof -
  let ?v = "ksceKernelDelayThread K 1000000 w"
  obtain r w' where listen: "listener_listen N GDB_PORT ''gdb'' ?v = (r, w')" by (metis prod.exhaust)
  have fails: "\<exists>e. r = Inl e"
    using listen assms(2) by (auto simp: listener_listen_def seq_call cannot_bind_def split_beta split: if_splits)
  have v: "opens ?v = opens w" by (rule socket_lawsD(6) [OF assms(1)])
  have "card (opens w') = min most (Suc (card (opens w)))"
    using listen_opens [OF assms(1) listen] fails assms(3,4) socket_lawsD(1) [OF assms(1), of w] v
    by (auto simp: limited_def split: if_splits)
  moreover have "main_step K N None w = (None, w')" using listen fails by (auto simp: main_step_def)
  ultimately show ?thesis using that by blast
qed

text \<open>
  C40: A server that cannot bind its port uses up the descriptors of the machine. While
  \<open>ksceNetBind\<close> fails, each of its passes (one a second) leaves one descriptor open, up to the
  limit: after \<open>n\<close> passes the number has grown by \<open>n\<close> or reached the limit, and the server still
  has no listener.
\<close>

theorem failed_listening_leaks:
  assumes "socket_laws opens K N" "cannot_bind N" "limited opens most N" "card (opens w) \<le> most"
  shows "\<exists>w'. main_thread K N n None w = (None, w') \<and> card (opens w') = min most (card (opens w) + n)"
  using assms(4)
proof (induction n arbitrary: w)
  case (Suc n)
  from failing_pass [OF assms(1-3) Suc.prems] obtain v where v: "main_step K N None w = (None, v)"
      "card (opens v) = min most (Suc (card (opens w)))" .
  then obtain w' where "main_thread K N n None v = (None, w')" "card (opens w') = min most (card (opens v) + n)"
    using Suc.IH [of v] by auto
  with v show ?case by auto
qed simp

text \<open>A network of eight descriptors whose port is taken: those marked 1 in the world's table are open.\<close>

definition eight :: "i32 list" where "eight = [0, 1, 2, 3, 4, 5, 6, 7]"

definition opened :: "demo \<Rightarrow> i32 set" where
  "opened w = {d \<in> set eight. d_threads w d = 1}"

definition open_next :: "(demo, unit) syscall" where
  "open_next w = (case find (\<lambda>d. d_threads w d \<noteq> 1) eight of
     Some d \<Rightarrow> ((d, ()), w\<lparr>d_threads := (d_threads w)(d := 1)\<rparr>) | None \<Rightarrow> ((- 1, ()), w))"

definition taken_net :: "demo net" where
  "taken_net = \<lparr>AF_INET = 2, SOCK_STREAM = 1, IPPROTO_TCP = 6, TCP_NODELAY = 1, sizeof_sockaddr_in = 16,
     CPU_AFFINITY_MASK_DEFAULT = 0, ksceNetSocket = (\<lambda>_ _ _ _. open_next),
     ksceNetBind = (\<lambda>_ _ _ w. ((- 1, ()), w)), ksceNetListen = (\<lambda>_ _ w. ((0, ()), w)),
     ksceNetAccept = (\<lambda>_. open_next), ksceNetSetsockopt = (\<lambda>_ _ _ _ w. ((0, ()), w)),
     ksceNetSendto = (\<lambda>_ bs w. ((of_nat (length bs), ()), w)),
     ksceNetRecvfrom = (\<lambda>_ _ w. ((0, []), w)), ksceNetClose = (\<lambda>d w. ((0, ()), w\<lparr>d_threads := (d_threads w)(d := 0)\<rparr>)),
     ksceKernelCreateThread = (\<lambda>_ _ _ _ _ w. ((11, ()), w)), ksceKernelStartThread = (\<lambda>_ _ w. ((0, ()), w)),
     ksceKernelWaitThreadEnd = (\<lambda>_ w. ((0, 0), w)), ksceKernelDeleteThread = (\<lambda>_ w. ((0, ()), w))\<rparr>"

lemma open_next_effect:
  "0 \<le> sint (fst (fst (open_next w))) \<longleftrightarrow> card (opened w) < 8" "opens_one opened open_next"
proof -
  have eight: "d \<in> set eight \<Longrightarrow> 0 \<le> sint d" "card (set eight) = 8" for d by (auto simp: eight_def)
  show "0 \<le> sint (fst (fst (open_next w))) \<longleftrightarrow> card (opened w) < 8"
  proof (cases "find (\<lambda>d. d_threads w d \<noteq> 1) eight")
    case None
    then have "opened w = set eight" by (auto simp: find_None_iff opened_def)
    with None eight(2) show ?thesis by (simp add: open_next_def)
  next
    case (Some d)
    then have d: "d \<in> set eight" "d_threads w d \<noteq> 1" by (auto simp: find_Some_iff)
    then have "opened w \<subset> set eight" by (auto simp: opened_def)
    then have "card (opened w) < 8" using psubset_card_mono [of "set eight"] eight(2) by simp
    with Some d eight(1) show ?thesis by (simp add: open_next_def)
  qed
  show "opens_one opened open_next"
    using eight(1) by (auto simp: opens_one_def open_next_def opened_def find_Some_iff split: option.split)
qed

theorem failed_listening_leaks_witness:
  "\<exists>w'. main_thread demo_kernel taken_net 20 None demo_world = (None, w') \<and> card (opened w') = 8"
proof -
  have "socket_laws opened demo_kernel taken_net"
    using open_next_effect(2) by (auto simp: socket_laws_def keeps_mem_def taken_net_def demo_kernel_def opened_def)
  moreover have "cannot_bind taken_net" "limited opened 8 taken_net"
    using open_next_effect(1) by (simp_all add: cannot_bind_def limited_def taken_net_def)
  moreover have "opened demo_world = {}" by (simp add: opened_def demo_world_def)
  ultimately show ?thesis
    using failed_listening_leaks [of opened demo_kernel taken_net 8 demo_world 20] by simp
qed

end
