(* ===== verification/Documents.thy ===== *)
theory Documents
  imports Target
begin

text \<open>
  The two documents the debugger reads piece by piece from \<open>gdb/target.rs\<close>, the list of libraries
  and the path of the executable. Each request gets an offset and a buffer and makes the
  document anew; read one piece after the other they give the document.
\<close>

section \<open>Reading a document\<close>

text \<open>
  The debugger's side: it asks for the piece after what it has, until one comes back empty.
  \<open>None\<close>: it would ask for ever.
\<close>

partial_function (option) fetch ::
  "(nat \<Rightarrow> u8 list \<Rightarrow> 's \<Rightarrow> ((target_error, nat) res \<times> u8 list) \<times> 's) \<Rightarrow> nat \<Rightarrow> nat \<Rightarrow> 's \<Rightarrow> (target_error, u8 list) res option" where
  "fetch piece n off s = (case piece off (replicate n 0) s of
     ((Inl e, _), _) \<Rightarrow> Some (Inl e)
   | ((Inr k, dst), s) \<Rightarrow>
       (if k = 0 then Some (Ok [])
        else Option.bind (fetch piece n (off + k) s) (\<lambda>r. Some (and_then r (\<lambda>rest. Ok (take k dst @ rest))))))"

text \<open>What a document promises: each piece is the part of it at that offset that fits.\<close>

locale document =
  fixes piece :: "nat \<Rightarrow> u8 list \<Rightarrow> 's \<Rightarrow> ((target_error, nat) res \<times> u8 list) \<times> 's"
    and doc :: "'s \<Rightarrow> u8 list"
    and still :: "'s \<Rightarrow> bool"
  assumes part: "still s \<Longrightarrow> piece off dst s =
    ((Ok (length (take (length dst) (drop off (doc s)))),
      take (length dst) (drop off (doc s)) @ drop (length (take (length dst) (drop off (doc s)))) dst), s)"
begin

lemma fetch_from:
  assumes "still s" "0 < n" shows "fetch piece n off s = Some (Ok (drop off (doc s)))"
proof (induction "length (doc s) - off" arbitrary: off rule: less_induct)
  case less
  let ?c = "take n (drop off (doc s))"
  have piece: "piece off (replicate n 0) s = ((Ok (length ?c), ?c @ drop (length ?c) (replicate n 0)), s)"
    using part [OF assms(1), of off "replicate n 0"] by simp
  show ?case
  proof (cases "length (doc s) \<le> off")
    case True
    then show ?thesis by (subst fetch.simps, simp add: piece)
  next
    case False
    then have "0 < length ?c" "length (doc s) - (off + length ?c) < length (doc s) - off" using assms(2) by auto
    with less [of "off + length ?c"] have rest: "fetch piece n (off + length ?c) s = Some (Ok (drop (off + length ?c) (doc s)))"
      by simp
    have self: "take (length ?c) (?c @ xs) = ?c" for xs by (metis append_eq_conv_conj)
    have all: "?c @ drop (off + length ?c) (doc s) = drop off (doc s)"
      using append_take_drop_id [of n "drop off (doc s)"] by (simp add: min_def add.commute)
    have pos: "length ?c \<noteq> 0" using \<open>0 < length ?c\<close> by simp
    show ?thesis
      using assms(2) by (subst fetch.simps) (simp add: piece rest pos all self del: length_take length_drop take_append)
  qed
qed

lemma fetch_all: "still s \<Longrightarrow> 0 < n \<Longrightarrow> fetch piece n 0 s = Some (Ok (doc s))"
  using fetch_from [of s n 0] by simp

end

section \<open>The libraries\<close>

definition libraries_text :: "'w kernel \<Rightarrow> sce_uid \<Rightarrow> sce_uid list \<Rightarrow> 'w \<Rightarrow> u8 list" where
  "libraries_text K pid modids w =
     concat (concat ([[bytes ''<library-list version=\"1.0\">'']] @ fst (libraries_loop K pid modids w) @ [[bytes ''</library-list>'']]))"

text \<open>The document: nothing without a session.\<close>

definition libraries_doc :: "'w kernel \<Rightarrow> 'w sys \<Rightarrow> u8 list" where
  "libraries_doc K s = (case target_pid s of
     None \<Rightarrow> []
   | Some pid \<Rightarrow> (case fst (get_module_ids K pid (wld s)) of Inl _ \<Rightarrow> [] | Inr modids \<Rightarrow> libraries_text K pid modids (wld s)))"

text \<open>Asking about modules works and changes nothing.\<close>

definition modules_still :: "'w kernel \<Rightarrow> 'w sys \<Rightarrow> bool" where
  "modules_still K s \<longleftrightarrow> (\<forall>pid. target_pid s = Some pid \<longrightarrow>
     (\<exists>modids. get_module_ids K pid (wld s) = (Ok modids, wld s) \<and>
        (\<forall>m \<in> set modids. snd (get_module_info K pid m (wld s)) = wld s)))"

lemma libraries_loop_still:
  "\<forall>m \<in> set modids. snd (get_module_info K pid m w) = w \<Longrightarrow> snd (libraries_loop K pid modids w) = w"
proof (induction modids)
  case (Cons m ms)
  obtain r where "get_module_info K pid m w = (r, w)" using Cons.prems by (metis list.set_intros(1) prod.collapse)
  with Cons show ?case by (cases r) (simp_all add: split_beta)
qed simp

lemma on_world_still: "f (wld s) = (x, wld s) \<Longrightarrow> on_world f s = (x, s)"
  by (simp add: on_world_def)

interpretation libs: document "get_libraries K" "libraries_doc K" "modules_still K" for K :: "'w kernel"
proof
  fix s :: "'w sys" and off dst
  assume still: "modules_still K s"
  show "get_libraries K off dst s =
    ((Ok (length (take (length dst) (drop off (libraries_doc K s)))),
      take (length dst) (drop off (libraries_doc K s)) @ drop (length (take (length dst) (drop off (libraries_doc K s)))) dst), s)"
  proof (cases "target_pid s")
    case None
    then show ?thesis by (simp add: get_libraries_def libraries_doc_def)
  next
    case (Some pid)
    with still obtain modids where ids: "get_module_ids K pid (wld s) = (Ok modids, wld s)"
      and info: "\<forall>m \<in> set modids. snd (get_module_info K pid m (wld s)) = wld s"
      by (auto simp: modules_still_def)
    obtain calls where calls: "libraries_loop K pid modids (wld s) = (calls, wld s)"
      using libraries_loop_still [OF info] by (metis prod.collapse)
    have "libraries_doc K s = concat (concat ([[bytes ''<library-list version=\"1.0\">'']] @ calls @ [[bytes ''</library-list>'']]))"
      using Some ids calls by (simp add: libraries_doc_def libraries_text_def)
    then show ?thesis
      unfolding get_libraries_def using Some on_world_still [where f = "get_module_ids K pid", OF ids] on_world_still [where f = "libraries_loop K pid modids", OF calls]
      by (simp only: option.case prod.case sum.case Let_def stream_fresh)
  qed
qed

section \<open>The executable\<close>

definition exec_path :: "'w kernel \<Rightarrow> sce_uid \<Rightarrow> 'w sys \<Rightarrow> module_info option" where
  "exec_path K pid s = (case fst (ksceKernelGetModuleIdByPid K pid (wld s)) of (modid, _) \<Rightarrow>
     if sint modid < 0 then None
     else (case get_module_info K pid modid (wld s) of (Inr info, _) \<Rightarrow> Some info | _ \<Rightarrow> None))"

definition exec_doc :: "'w kernel \<Rightarrow> sce_uid \<Rightarrow> 'w sys \<Rightarrow> u8 list" where
  "exec_doc K pid s = (case exec_path K pid s of None \<Rightarrow> [] | Some info \<Rightarrow> mi_path info)"

definition exec_still :: "'w kernel \<Rightarrow> sce_uid \<Rightarrow> 'w sys \<Rightarrow> bool" where
  "exec_still K pid s \<longleftrightarrow> (\<exists>modid info. ksceKernelGetModuleIdByPid K pid (wld s) = ((modid, ()), wld s) \<and> 0 \<le> sint modid \<and>
     get_module_info K pid modid (wld s) = (Ok info, wld s))"

interpretation exec: document "\<lambda>off dst. get_exec_file K (Some pid) off (length dst) dst" "exec_doc K pid" "exec_still K pid"
  for K :: "'w kernel" and pid
proof
  fix s :: "'w sys" and off dst
  assume "exec_still K pid s"
  then obtain modid info where id: "ksceKernelGetModuleIdByPid K pid (wld s) = ((modid, ()), wld s)" "0 \<le> sint modid"
      and info: "get_module_info K pid modid (wld s) = (Ok info, wld s)" by (auto simp: exec_still_def)
  have call: "sce_call ''ksceKernelGetModuleIdByPid'' (ksceKernelGetModuleIdByPid K pid) (wld s) = (Ok (modid, ()), wld s)"
    using id by (simp add: sce_call_def)
  have doc: "exec_doc K pid s = mi_path info" using id info by (simp add: exec_doc_def exec_path_def)
  show "get_exec_file K (Some pid) off (length dst) dst s =
    ((Ok (length (take (length dst) (drop off (exec_doc K pid s)))),
      take (length dst) (drop off (exec_doc K pid s)) @ drop (length (take (length dst) (drop off (exec_doc K pid s)))) dst), s)"
    using on_world_still [where f = "sce_call ''ksceKernelGetModuleIdByPid'' (ksceKernelGetModuleIdByPid K pid)", OF call]
      on_world_still [where f = "get_module_info K pid modid", OF info]
    by (auto simp: get_exec_file_def doc Let_def copy_at_def min_def)
qed

section \<open>Properties\<close>

text \<open>
  C22: The debugger gets its documents whole. While asking the kernel about modules works and
  changes nothing, a debugger that reads the list of libraries or the path of the executable
  in pieces of any size \<open>n\<close>, each from where the last one ended until one is empty, is done after
  finitely many requests and has exactly the document: the list as one text, nothing
  twice and nothing left out at the seams of the \<open>write!\<close> calls, and the path as the kernel has it.
\<close>

theorem documents_arrive_whole:
  assumes "0 < n"
  shows "(modules_still K s \<longrightarrow> fetch (get_libraries K) n 0 s = Some (Ok (libraries_doc K s))) \<and>
    (\<forall>pid. exec_still K pid s \<longrightarrow>
      fetch (\<lambda>off dst. get_exec_file K (Some pid) off (length dst) dst) n 0 s = Some (Ok (exec_doc K pid s)))"
  using libs.fetch_all [OF _ assms] exec.fetch_all [OF _ assms] by blast

text \<open>Process 5 with one module, whose path is \<open>app0:a\<close> and whose first segment is at 0x81000000.\<close>

definition demo_module :: module_info where
  "demo_module = \<lparr>mi_module_name = [], mi_path = bytes ''app0:a'' @ [0, 0], mi_state = 0,
     mi_segments = [\<lparr>seg_size = 0x1000, seg_vaddr = 0x81000000\<rparr>, \<lparr>seg_size = 0, seg_vaddr = 0\<rparr>]\<rparr>"

definition one_module_kernel :: "demo kernel" where
  "one_module_kernel = demo_kernel\<lparr>
     ksceKernelGetModuleList := \<lambda>_ _ _ _ w. ((0, [21], 1), w),
     ksceKernelGetModuleInfo := \<lambda>_ _ w. ((0, demo_module), w),
     ksceKernelGetModuleIdByPid := \<lambda>_ w. ((21, ()), w)\<rparr>"

definition demo_attached :: "demo sys" where
  "demo_attached = \<lparr>tgt = (target_new 9)\<lparr>t_session := Some 0\<rparr>, pool = demo_pool, wld = demo_world\<rparr>"

theorem documents_arrive_whole_witness:
  "fetch (get_libraries one_module_kernel) 7 0 demo_attached = Some (Ok (libraries_text one_module_kernel 5 [21] demo_world)) \<and>
   fetch (\<lambda>off dst. get_exec_file one_module_kernel (Some 5) off (length dst) dst) 7 0 demo_attached =
     Some (Ok (bytes ''app0:a'' @ [0, 0]))"
proof -
  have calls: "get_module_ids one_module_kernel 5 demo_world = (Ok [21], demo_world)"
      "get_module_info one_module_kernel p 21 demo_world = (Ok demo_module, demo_world)"
      "ksceKernelGetModuleIdByPid one_module_kernel p demo_world = ((21, ()), demo_world)" for p
    by (simp_all add: one_module_kernel_def get_module_ids_def get_module_info_def seq_call ret_def fill_prefix_def)
  have pid: "target_pid demo_attached = Some 5"
    by (simp add: target_pid_def demo_attached_def demo_pool_def session_pid_def demo_session_def PID_UNUSED_def)
  have still: "modules_still one_module_kernel demo_attached" "exec_still one_module_kernel 5 demo_attached"
    using pid calls by (simp_all add: modules_still_def exec_still_def demo_attached_def)
  have "libraries_doc one_module_kernel demo_attached = libraries_text one_module_kernel 5 [21] demo_world"
    using pid calls(1) by (simp add: libraries_doc_def demo_attached_def)
  moreover have "exec_doc one_module_kernel 5 demo_attached = bytes ''app0:a'' @ [0, 0]"
    using calls(2,3) by (simp add: exec_doc_def exec_path_def demo_attached_def demo_module_def)
  ultimately show ?thesis
    using documents_arrive_whole [of 7 one_module_kernel demo_attached] still by simp
qed

text \<open>
  The path of a module goes into the list as it is: a quote in it ends the attribute. A module
  named that way reads as two libraries.
\<close>

lemma path_is_not_escaped:
  assumes "mi_segments m = []" "mi_segments m1 = []" "mi_segments m2 = []"
    and "mi_path m = bytes ''a\"></library><library name=\"b'' @ [0]" "mi_path m1 = bytes ''a'' @ [0]" "mi_path m2 = bytes ''b'' @ [0]"
  shows "concat (concat (library_calls m)) = concat (concat (library_calls m1 @ library_calls m2))"
proof -
  have "until_nul (bytes ''a\"></library><library name=\"b'' @ [0]) = bytes ''a\"></library><library name=\"b''"
    "utf8_ok (bytes ''a\"></library><library name=\"b'')" "until_nul (bytes ''a'' @ [0]) = bytes ''a''"
    "until_nul (bytes ''b'' @ [0]) = bytes ''b''" "utf8_ok (bytes ''a'')" "utf8_ok (bytes ''b'')" by code_simp+
  then show ?thesis using assms by (simp add: library_calls_def Let_def bytes_def)
qed

end
