(* ===== verification/Spec2Isabelle.thy ===== *)
theory Spec2Isabelle
  imports Mpsc_Conc Next_Pc_Props Armv7 Spinlock Session_Race Handler_Props Resume_Props Tcp_Props Tcp_Write Worker_End Monitor_Props Handler_Race Interface Descriptors Documents
begin

text \<open>
  A verification model of vita-gdb, a debugger stub that runs inside the console's kernel and
  speaks GDB's remote protocol over TCP, and of arm-next-pc, its instruction stepper. Paths
  below are under \<open>src/\<close>; \<open>vita-gdb/src\<close> is written \<open>vg\<close>.

  \<^bold>\<open>The program.\<close> \<open>vg/main.rs\<close> patches the import stubs (\<open>kernel/ffi.rs\<close>), asks for
  hardware debugging (\<open>cp14.rs\<close>, over the coprocessor bridge of \<open>mep.rs\<close>), registers the exception and
  process handlers (\<open>gdb/handlers.rs\<close>) and starts the server (\<open>gdb/main.rs\<close>). For each
  connection the server starts a receiving thread (\<open>gdb/tcpconn.rs\<close>) and a worker
  (\<open>gdb/event_loop.rs\<close>) that feeds bytes and stops to the protocol library, which calls back into
  the debug target (\<open>gdb/target.rs\<close>, \<open>gdb/multi_thread.rs\<close>, \<open>gdb/monitor.rs\<close>). A target attached
  to a process owns one of four sessions (\<open>gdb/sessions.rs\<close>): breakpoint tables, the pending step
  and a ring of events (\<open>kernel/mpsc.rs\<close>). When a thread of that process faults, the handler
  finds the session by process id, classifies the fault against the tables, halts the process,
  pushes an event and sets the worker's event flag; the worker pops it and reports the stop.

  \<^bold>\<open>Conventions\<close> (\<open>Vg_Prelude\<close>, \<open>Kernel\<close>). Machine integers are words of their width. A result is
  \<open>Ok\<close>, \<open>Err e\<close> or \<open>panic\<close>, so that \<open>unwrap\<close>, failing assertions, indices out of range and
  \<open>unreachable!\<close> are values. An operation takes the state and answers its result with the new
  state; \<open>seq\<close> is the operator \<open>?\<close>. Everything that is not in the repository is a parameter:
  \<open>'w kernel\<close> (the system calls, each a function on a world \<open>'w\<close>), \<open>'w net\<close> (sockets and
  threads), \<open>'w boot\<close> (start-up calls), \<open>lock_calls\<close> (the two spinlock calls), \<open>isa\<close> (the decoder of
  the instruction library), \<open>gdbstub\<close> (the protocol library). Messages printed for the developer
  are left out of the models that print them.

  \<^bold>\<open>Theories, in the order of the code.\<close>
  \<^item> \<open>Mpsc\<close>: \<open>kernel/mpsc.rs\<close> as a \<open>ring\<close> of buffer, head and tail. One call at a time it refines a
    bounded FIFO list (\<open>bounded_queue\<close>). \<open>Mpsc_Conc\<close> splits \<open>push\<close> and \<open>pop\<close> at their loads and
    stores: with one producer nothing is lost, with two an event is.
  \<^item> \<open>Next_Pc\<close>, \<open>Next_Pc_Props\<close>: \<open>arm-next-pc/src/lib.rs\<close>; the address of the next instruction over
    the decoder and memory (\<open>mem_reader\<close>). Compared with the architecture manual: conditions,
    arithmetic, block loads, table branches, writes to pc; when it errs and when it panics.
  \<^item> \<open>Writers\<close>, \<open>Armv7\<close>: the byte writers of \<open>kernel/utils.rs\<close> (\<open>fmt_write\<close>), and the register file,
    its packet and its description (\<open>gdb/armv7.rs\<close>).
  \<^item> \<open>Kernel\<close>, \<open>Kernel_Props\<close>: the system calls and the checked wrappers of \<open>kernel/utils.rs\<close> and
    \<open>kernel/event_flag.rs\<close>. \<open>Spinlock\<close>: \<open>kernel/spinlock.rs\<close> and the lock of \<open>println!\<close>; cores
    running locked sections access by access behave as if the sections ran one after the other.
    This is why the session models run a locked section in one step.
  \<^item> \<open>Sessions\<close>: \<open>gdb/sessions.rs\<close>, a \<open>session\<close> per \<open>GdbSessionInner\<close>, the pool a list of four.
    \<open>Session_Tables\<close> has the lemmas on slot tables and the contract of a breakpoint table
    (\<open>tracked_breakpoints\<close>, \<open>exact_breakpoints\<close>), \<open>Session_Props\<close> the invariant \<open>session_ok\<close>,
    \<open>Session_Breakpoints\<close> the hardware tables against the debug registers, \<open>Text_Patches\<close> the
    software ones against the code (\<open>program_text\<close> is the memory with the patches taken out),
    \<open>Session_Life\<close> claiming, dropping and reusing slots. \<open>Session_Race\<close> cuts
    \<open>set_sw_breakpoint\<close>, which is not one locked section, at its locks.
  \<^item> \<open>Handlers\<close>, \<open>Handler_Props\<close>: \<open>gdb/handlers.rs\<close>; \<open>Handler_Race\<close> cuts \<open>handle_exception\<close> after its
    lookup of the session.
  \<^item> \<open>Target\<close>, \<open>Multi_Thread\<close>, \<open>Thread_Props\<close>, \<open>Resume_Props\<close>: \<open>gdb/target.rs\<close> and
    \<open>gdb/multi_thread.rs\<close> over \<open>'w sys\<close> (target, pool of sessions, world). \<open>Detach\<close> states what
    detaching does to the process, the session and the pool.
  \<^item> \<open>Net\<close>: \<open>kernel/tcp_socket.rs\<close>, \<open>kernel/thread.rs\<close> and the server of \<open>gdb/main.rs\<close>. \<open>Tcp_Conn\<close> is
    \<open>gdb/tcpconn.rs\<close> one call at a time, \<open>Tcp_Rx\<close> its two threads interleaved access by access;
    \<open>Tcp_Props\<close> and \<open>Tcp_Write\<close> state what reading and writing promise.
  \<^item> \<open>Event_Loop\<close>, \<open>Event_Props\<close>: \<open>gdb/event_loop.rs\<close> and the worker thread over \<open>'w app\<close>.
    \<open>Worker_End\<close> has the passes of the loop as a step relation and how a worker ends.
  \<^item> \<open>Startup\<close>: \<open>main.rs\<close>, \<open>mep.rs\<close>, \<open>cp14.rs\<close>, stub patching, handler registration. \<open>Monitor\<close>,
    \<open>Monitor_Props\<close>: \<open>gdb/monitor.rs\<close>.
  \<^item> \<open>Slot_Owner\<close>, \<open>Stub_System\<close>: all of it at once. \<open>serve\<close> is one request to a worker, \<open>stub_step\<close>
    a step of any worker, handler or program; \<open>stub_ok\<close> says who owns the slots of the pool. What a
    target relies on in its session's operations is \<open>session_operation\<close> and \<open>hardware_operation\<close>.
    \<open>Conn_Owner\<close>: who owns the connection states, why a worker always finds a session slot, and
    that workers do not disturb each other.
  \<^item> \<open>Assembly\<close>: the exception trampolines and import stubs as instructions of a small ARM machine
    (\<open>exec_asm\<close>), the stub tables of \<open>kernel/ffi.rs\<close> with the patching of their cells, and the panic
    handler. \<open>Interface\<close>: the handler tables given to the kernel, whatever it calls being a step
    of \<open>stub_step\<close> (\<open>kernel_calls\<close>), the module's entry, and the extensions offered to the library.
  \<^item> \<open>Documents\<close>: the list of libraries and the path of the executable, read in pieces (the locale
    \<open>document\<close>). \<open>Descriptors\<close>: which sockets stay open when listening fails.
  \<^item> This theory: what holds only of the parts together.

  \<^bold>\<open>What is proved.\<close> Setting and clearing software breakpoints never changes the program under
  them, and tearing down restores it; a thread that runs into a breakpoint is reported by the
  event loop; a single step leaves no trace; detaching gives the process back, and so does a
  connection that closes, whatever the library did before; in every reachable state of the stub
  each session slot and each connection state has one owner, a connected debugger always finds a
  slot, debuggers do not disturb each other, no \<open>unwrap\<close> on a session panics, and every exception
  goes on to the handler linked next; every system call goes to the firmware that is running; documents arrive whole; stops are
  reported once and in order; received bytes are read once and in order, without a lost wake-up,
  and written ones reach the wire; the tables answer as sets of addresses and the debug registers
  follow them; every session operation keeps the invariant whatever the kernel answers; resuming
  runs exactly the chosen threads; registers survive the wire. Where the code falls short of
  this, the shortcoming is a theorem too (lost second watchpoint, events of two producers,
  receive errors that never surface, connection slots and sockets that leak, patches that outlive their
  table entries, instruction forms that panic the stepper, and others).

  \<^bold>\<open>Bounds and fuel.\<close> The event ring has the 8 slots of the source (7 usable); draining it takes
  at most one pass per slot, which is the fuel of \<open>drop_loop\<close>. \<open>wait_suspended\<close> counts the 1000
  polls of the source. \<open>main_thread\<close> runs for ever in the source and takes the number of passes
  to make. Loops that may not end (\<open>flush_write_buffer\<close>, \<open>poll_loop\<close>, \<open>session_loop\<close>, \<open>fetch\<close>, \<open>spin\<close>) are partial
  functions with \<open>None\<close> for not returning, and the theorems state that they do return, but for
  \<open>spin\<close>, the panic handler's loop, which never does. The
  receiver ends within five steps of a close (\<open>rx_left\<close>).

  \<^bold>\<open>Named hypotheses\<close> on the parameters, each met by a concrete instance in a witness:
  \<open>memory_laws\<close> (memory calls read and write what they say, other calls no user memory),
  \<open>text_reads\<close> and \<open>text_ready\<close> (reading and patching code succeed), \<open>irq_laws\<close>, \<open>registers_quiet\<close>,
  \<open>masked_writes\<close>, \<open>thread_laws\<close>, \<open>hw_ready\<close> and \<open>writes_regs\<close> (debug registers), \<open>lock_laws\<close>, \<open>sends\<close>
  (a send takes a prefix and says how much), \<open>ending_keeps\<close> (closing sockets, joining threads and
  deleting flags leaves user memory alone), \<open>names_a_process\<close> (the debugger does not ask for
  the reserved process id), \<open>keeps_r4\<close> (compiled code keeps r4), \<open>cells_linked\<close> (the linker gives
  each import cell a word of its own), \<open>modules_still\<close> and \<open>exec_still\<close> (asking about modules
  changes nothing), \<open>socket_laws\<close>, \<open>cannot_bind\<close> and \<open>limited\<close> (open descriptors). The
  instances are \<open>demo_kernel\<close>, \<open>sound_kernel\<close>, \<open>merging_kernel\<close>,
  \<open>obedient_kernel\<close>, \<open>contextless_kernel\<close>, \<open>bit_lock\<close>, \<open>slow_net\<close>, \<open>quiet_net\<close>, \<open>quiet_boot\<close>,
  \<open>attaching_stub\<close>, \<open>attached_stub\<close>, \<open>demo_env\<close>, \<open>demo_link\<close>, \<open>one_module_kernel\<close>, \<open>taken_net\<close>.

  \<^bold>\<open>Not modelled.\<close> The parameters above. What \<open>println!\<close> prints in
  passing: only its lock and the bytes of one line are. A disabled branch of \<open>cmd_ls_module\<close>, and unreachable code in \<open>enable_debug\<close>. Weak memory: the interleaving models are
  sequentially consistent, as the acquire and release pairs grant.
\<close>

section \<open>From an exception to the debugger\<close>

text \<open>What the exception handler of a faulting thread does while the worker waits.\<close>

definition handled :: "'w kernel \<Rightarrow> excp_context \<Rightarrow> 'w app \<Rightarrow> 'w app" where
  "handled K ctx a = (case handle_prefetch_abort K ctx (pool (sys a)) (wld (sys a)) of (_, p, w) \<Rightarrow>
     a\<lparr>sys := (sys a)\<lparr>pool := p, wld := w\<rparr>\<rparr>)"

definition conn_quiet :: "'w app \<Rightarrow> bool" where
  "conn_quiet a \<longleftrightarrow> \<not> c_closed (conns a ! tc_state (conn a)) \<and> c_len (conns a ! tc_state (conn a)) = 0"

lemma quiet_read: "conn_quiet a \<Longrightarrow> app_read K a = (Ok NoData, a)"
  by (simp add: conn_quiet_def app_read_def tcp_read_def)

text \<open>With nothing queued and nothing to read the worker waits.\<close>

lemma waits_quiet:
  assumes "stops_ok a" "queued_stops a = []" "conn_quiet a"
    and "evf_wait K (t_evflag (tgt (sys a))) EV_WAKE_WORKER WAITCLEAR_PAT (wld (sys a)) = (Ok bits, w)"
  shows "waits (poll_running K) K meanwhile a (meanwhile (a\<lparr>sys := (sys a)\<lparr>wld := w\<rparr>\<rparr>))"
proof (rule waits.intros [where b = a])
  show "poll_running K a = (Ok None, a)"
    using nothing_queued [OF assms(1,2), of K] quiet_read [OF assms(3), of K]
    by (simp add: take_byte_def seq_def ret_def)
  show "on_sys (on_world (evf_wait K (t_evflag (tgt (sys a))) EV_WAKE_WORKER WAITCLEAR_PAT)) a =
      (Ok bits, a\<lparr>sys := (sys a)\<lparr>wld := w\<rparr>\<rparr>)"
    by (simp add: on_sys_def on_world_def assms(4))
qed


text \<open>A worker attached to process 5, whose thread 7 is about to execute a Thumb breakpoint at 0x1000.\<close>

definition demo_app :: "demo app" where
  "demo_app = worker_on demo_pool demo_text"



section \<open>A single step\<close>


text \<open>Thread 7 of process 5 stepping over \<open>mov r0, r1\<close> at address 0, in ARM state.\<close>

definition step_hit :: excp_context where
  "step_hit = demo_hit\<lparr>ctx_fault_addr := 4\<rparr>"

lemma demo_step_planned:
  obtains s1 where "plan_step step_isa sound_kernel 5 7 demo_sys = (Ok (), s1)" "is_step 4 (pool s1 ! 0)"
proof -
  let ?regs = "(fill_core empty_cpu_regs default_regs)\<lparr>ar_d := replicate 32 0\<rparr>"
  let ?s = "demo_sys\<lparr>tgt := (tgt demo_sys)\<lparr>t_step_action := None\<rparr>\<rparr>"
  have read: "read_registers sound_kernel default_regs 7 ?s = ((Ok (), ?regs), ?s)"
    by (simp add: read_registers_def demo_sys_def on_world_def sce_call_def sound_kernel_def demo_defs thread_regs_def
        empty_cpu_regs_def read_vfp_def Let_def)
  have mem: "vita_read sound_kernel 5 demo_world a 4 \<noteq> None" for a
    by (simp add: vita_read_def sce_call_def sound_read)
  have np: "next_pc step_isa (arm_reg_context (pipeline_pc ?regs)) (vita_read sound_kernel 5 demo_world) = Ok (4, False)"
    using mem [of 0]
    by (auto simp: next_pc_def fetch_def step_isa_def demo_isa_def demo_insn_def taken_def alu_arm_def
        eval_cond_def cond_flags_def is_pc_destination_def arm_reg_context_def pipeline_pc_def fill_core_def
        empty_cpu_regs_def insn_addr_def thumb_def fallthrough_of_def)
  obtain b ses w1 where set: "set_sw_breakpoint sound_kernel 4 Arm32 (pool demo_sys ! 0) demo_world = (b, ses, w1)"
    by (metis prod.exhaust)
  show ?thesis
  proof (rule that)
    show "plan_step step_isa sound_kernel 5 7 demo_sys =
        (Ok (), ?s\<lparr>pool := (pool demo_sys)[0 := set_step 7 4 ses], wld := w1\<rparr>)"
      using read np mem set by (simp add: plan_step_def Let_def on_session_def demo_sys_def demo_pool_def)
    show "is_step 4 (pool (?s\<lparr>pool := (pool demo_sys)[0 := set_step 7 4 ses], wld := w1\<rparr>) ! 0)"
      by (simp add: is_step_def set_step_def demo_sys_def demo_pool_def)
  qed
qed


section \<open>Detaching\<close>



section \<open>The end of a session\<close>


text \<open>
  A library that attaches to process 5 at once; by the time the worker looks for data the
  peer has closed.
\<close>

definition attaching_stub :: "(unit, demo, unit) gdbstub" where
  "attaching_stub = \<lparr>
     run_state_machine = (\<lambda>a. (Ok (Running ()), a\<lparr>sys := snd (target_attach 5 AttachAttach (sys a)),
       conns := (conns a)[0 := (conns a ! 0)\<lparr>c_closed := True\<rparr>]\<rparr>)),
     incoming_data = (\<lambda>_ _ a. (Ok (Running ()), a)), report_stop = (\<lambda>_ _ a. (Ok (Idle ()), a)),
     interrupt_handled = (\<lambda>_ _ a. (Ok (Idle ()), a))\<rparr>"


end
